(* ===== verification/Prelude.thy ===== *)
theory Prelude
  imports Main "HOL-Library.Word"
begin

text \<open>
  Shared vocabulary of the development: Go's machine integers and clock values, Go maps and the
  iteration over them, the locales of table sweeps, of inductive invariants and of systems that end, and the
  theorem collections the component theories add their facts to.
\<close>

named_theorems model_defs \<open>defining equations of the modelled operations\<close>
named_theorems inv_intros \<open>preservation lemmas of component invariants\<close>

declare Let_def [simp]

subsection \<open>Machine integers and the clock\<close>

type_synonym u32 = "32 word"
type_synonym u64 = "64 word"

text \<open>
  A \<^verbatim>\<open>time.Time\<close> is its nanoseconds since the Unix epoch, a \<^verbatim>\<open>time.Duration\<close> a number of
  nanoseconds. \<^verbatim>\<open>Time.Sub\<close> saturates at the limits of the 64-bit Duration, so the difference is
  clipped; \<^verbatim>\<open>Time.Before\<close> and \<^verbatim>\<open>Time.After\<close> compare instants.
\<close>

type_synonym time = int
type_synonym duration = int

abbreviation nanosecond :: duration where
  "nanosecond \<equiv> 1"

abbreviation millisecond :: duration where
  "millisecond \<equiv> 1000000"

abbreviation second :: duration where
  "second \<equiv> 1000000000"

abbreviation minute :: duration where
  "minute \<equiv> 60 * second"

definition maxDuration :: duration where
  "maxDuration = 2 ^ 63 - 1"

definition minDuration :: duration where
  "minDuration = - (2 ^ 63)"

definition time_Sub :: "time \<Rightarrow> time \<Rightarrow> duration" where
  "time_Sub t u = max minDuration (min maxDuration (t - u))"

text \<open>Saturation never changes a comparison with a threshold below the largest Duration.\<close>

lemma time_Sub_gt [simp]:
  "minDuration \<le> d \<Longrightarrow> d < maxDuration \<Longrightarrow> (d < time_Sub t u) = (d < t - u)"
  by (auto simp: time_Sub_def max_def min_def)

lemma time_Sub_lt [simp]:
  "minDuration < d \<Longrightarrow> d \<le> maxDuration \<Longrightarrow> (time_Sub t u < d) = (t - u < d)"
  by (auto simp: time_Sub_def max_def min_def)

lemma duration_limits [simp]:
  "minDuration \<le> numeral k" "minDuration < numeral k" "minDuration \<le> 0" "minDuration < 0"
  "0 < maxDuration"
  by (simp_all add: minDuration_def maxDuration_def
      order_trans [OF _ zero_le_numeral] order_less_le_trans [OF _ zero_le_numeral])

text \<open>\<open>zero_time\<close> is Go's zero \<^verbatim>\<open>time.Time\<close>, the start of year 1.\<close>

definition zero_time :: time where
  "zero_time = - (62135596800 * second)"

text \<open>\<open>unixMilli\<close> is \<^verbatim>\<open>Time.UnixMilli\<close>: whole milliseconds, rounded towards the past.\<close>

definition unixMilli :: "time \<Rightarrow> int" where
  "unixMilli t = t div millisecond"

text \<open>\<open>fromUnixMilli\<close> is \<^verbatim>\<open>time.UnixMilli\<close>.\<close>

definition fromUnixMilli :: "int \<Rightarrow> time" where
  "fromUnixMilli ms = ms * millisecond"

lemma unixMilli_fromUnixMilli [simp]: "unixMilli (fromUnixMilli ms) = ms"
  by (simp add: unixMilli_def fromUnixMilli_def)

subsection \<open>Lists\<close>

lemma set_map_filter: "set (List.map_filter f xs) = {y. \<exists>x \<in> set xs. f x = Some y}"
  by (induction xs) (auto simp: map_filter_simps split: option.splits)

subsection \<open>Go maps\<close>

text \<open>
  A Go map is a partial function. \<^verbatim>\<open>for k, v := range m\<close> visits every entry once in an order the
  language leaves open, so each definition that ranges over a map takes the order the run picked as
  an argument, and \<open>map_order ks m\<close> says that \<open>ks\<close> is such an order.
\<close>

definition map_order :: "'k list \<Rightarrow> ('k \<rightharpoonup> 'v) \<Rightarrow> bool" where
  "map_order ks m \<longleftrightarrow> distinct ks \<and> set ks = dom m"

definition range_vals :: "'k list \<Rightarrow> ('k \<rightharpoonup> 'v) \<Rightarrow> 'v list" where
  "range_vals ks m = List.map_filter m ks"

lemma range_vals_simps [simp]:
  "range_vals [] m = []"
  "range_vals (k # ks) m = (case m k of None \<Rightarrow> range_vals ks m | Some v \<Rightarrow> v # range_vals ks m)"
  by (simp_all add: range_vals_def map_filter_def split: option.split)

lemma set_range_vals: "set (range_vals ks m) = {v. \<exists>k \<in> set ks. m k = Some v}"
  by (simp add: range_vals_def set_map_filter)

lemma map_orderD: "map_order ks m \<Longrightarrow> m k = Some v \<Longrightarrow> k \<in> set ks"
  by (auto simp: map_order_def)

lemma range_vals_order: "map_order ks m \<Longrightarrow> set (range_vals ks m) = ran m"
  by (auto simp: set_range_vals map_order_def ran_def)

lemma map_order_cong: "dom m = dom m' \<Longrightarrow> map_order ks m = map_order ks m'"
  by (simp add: map_order_def)

text \<open>Every finite map has an order: the hypothesis \<^const>\<open>map_order\<close> can always be met.\<close>

lemma map_order_exists: "finite (dom m) \<Longrightarrow> \<exists>ks. map_order ks m"
  unfolding map_order_def using finite_distinct_list by metis

subsection \<open>Tables keyed by an identifier of their entries\<close>

text \<open>
  The registry, the job table and the deployment table all hold entries that carry their own key.
  A loop that rewrites every entry in place is a \<open>sweep\<close>.
\<close>

definition keyed :: "('v \<Rightarrow> 'k) \<Rightarrow> ('k \<rightharpoonup> 'v) \<Rightarrow> bool" where
  "keyed key m \<longleftrightarrow> (\<forall>k v. m k = Some v \<longrightarrow> key v = k)"

lemma keyed_empty [simp, inv_intros]: "keyed key Map.empty"
  by (simp add: keyed_def)

lemma keyedD: "keyed key m \<Longrightarrow> m k = Some v \<Longrightarrow> key v = k"
  by (simp add: keyed_def)

lemma keyed_upd [inv_intros]: "keyed key m \<Longrightarrow> key v = k \<Longrightarrow> keyed key (m(k \<mapsto> v))"
  by (simp add: keyed_def)

lemma keyed_del [inv_intros]: "keyed key m \<Longrightarrow> keyed key (m(k := None))"
  by (simp add: keyed_def)

definition sweep :: "('v \<Rightarrow> 'v) \<Rightarrow> 'k list \<Rightarrow> ('k \<rightharpoonup> 'v) \<Rightarrow> ('k \<rightharpoonup> 'v)" where
  "sweep upd ks m = fold (\<lambda>k m. case m k of None \<Rightarrow> m | Some v \<Rightarrow> m(k \<mapsto> upd v)) ks m"

lemma sweep_simps:
  "sweep upd [] m = m"
  "sweep upd (k # ks) m = (case m k of None \<Rightarrow> sweep upd ks m | Some v \<Rightarrow> sweep upd ks (m(k \<mapsto> upd v)))"
  by (simp_all add: sweep_def split: option.split)

lemma sweep_lookup:
  "distinct ks \<Longrightarrow> sweep upd ks m k = (if k \<in> set ks then map_option upd (m k) else m k)"
  unfolding sweep_def
  by (induction ks arbitrary: m) (auto split: option.splits)

lemma sweep_order: "map_order ks m \<Longrightarrow> sweep upd ks m = (\<lambda>k. map_option upd (m k))"
  by (rule ext) (auto simp: sweep_lookup map_order_def domIff)

lemma dom_sweep [simp]: "dom (sweep upd ks m) = dom m"
  unfolding sweep_def
  by (induction ks arbitrary: m) (auto split: option.splits)

lemma sweep_None [simp]: "sweep upd ks m k = None \<longleftrightarrow> m k = None"
  using dom_sweep [of upd ks m] by (metis domIff)

lemma sweep_entries:
  assumes "\<And>k v. P k v \<Longrightarrow> P k (upd v)" and "\<And>k v. m k = Some v \<Longrightarrow> P k v"
    and "sweep upd ks m k = Some v"
  shows "P k v"
  using assms(2,3)
proof (induction ks arbitrary: m)
  case Nil
  then show ?case by (simp add: sweep_def)
next
  case (Cons k' ks)
  let ?m = "case m k' of None \<Rightarrow> m | Some v \<Rightarrow> m(k' \<mapsto> upd v)"
  show ?case
  proof (rule Cons.IH)
    show "sweep upd ks ?m k = Some v" using Cons.prems(2) by (simp add: sweep_def)
    show "P k v" if "?m k = Some v" for k v
      using that Cons.prems(1) assms(1) by (cases "m k'") (auto split: if_splits)
  qed
qed

locale keyed_sweep =
  fixes key :: "'v \<Rightarrow> 'k" and upd :: "'v \<Rightarrow> 'v"
  assumes key_upd: "key (upd v) = key v"
begin

lemma sweep_keyed: "keyed key m \<Longrightarrow> keyed key (sweep upd ks m)"
proof -
  assume m: "keyed key m"
  have "key v = k" if "sweep upd ks m k = Some v" for k v
    by (rule sweep_entries [where P = "\<lambda>k v. key v = k", OF _ _ that])
      (simp_all only: key_upd keyedD [OF m])
  then show ?thesis unfolding keyed_def by blast
qed

lemma sweep_pointwise: "map_order ks m \<Longrightarrow> sweep upd ks m k = map_option upd (m k)"
  by (simp add: sweep_order)

lemma sweep_any_order: "map_order ks m \<Longrightarrow> map_order ks' m \<Longrightarrow> sweep upd ks m = sweep upd ks' m"
  by (simp add: sweep_order)

end

subsection \<open>Reachable states and inductive invariants\<close>

inductive reachable :: "('s \<Rightarrow> bool) \<Rightarrow> ('s \<Rightarrow> 's \<Rightarrow> bool) \<Rightarrow> 's \<Rightarrow> bool"
  for init :: "'s \<Rightarrow> bool" and step :: "'s \<Rightarrow> 's \<Rightarrow> bool"
where
  reach_init: "init s \<Longrightarrow> reachable init step s"
| reach_step: "reachable init step s \<Longrightarrow> step s t \<Longrightarrow> reachable init step t"

lemma reachable_run:
  assumes "reachable init step s" and "step\<^sup>*\<^sup>* s t"
  shows "reachable init step t"
  using assms(2,1) by (induction rule: rtranclp_induct) (auto intro: reach_step)

locale inductive_invariant =
  fixes init :: "'s \<Rightarrow> bool" and step :: "'s \<Rightarrow> 's \<Rightarrow> bool" and inv :: "'s \<Rightarrow> bool"
  assumes inv_init: "init s \<Longrightarrow> inv s"
    and inv_step: "inv s \<Longrightarrow> step s t \<Longrightarrow> inv t"
begin

lemma reachable_inv: "reachable init step s \<Longrightarrow> inv s"
  by (induction rule: reachable.induct) (auto intro: inv_init inv_step)

lemma run_inv: "inv s \<Longrightarrow> step\<^sup>*\<^sup>* s t \<Longrightarrow> inv t"
  by (rotate_tac 1, induction rule: rtranclp.induct) (auto intro: inv_step)

end

subsection \<open>Systems whose every run ends\<close>

text \<open>
  A system in which a state that is not final can move, and every move brings a measure down. No run
  is longer than the measure of its first state, and a run that cannot go on has reached a final state,
  whatever the scheduler does.
\<close>

locale ending_system = inductive_invariant init step inv
  for init :: "'s \<Rightarrow> bool" and step :: "'s \<Rightarrow> 's \<Rightarrow> bool" and inv :: "'s \<Rightarrow> bool" +
  fixes final :: "'s \<Rightarrow> bool" and left :: "'s \<Rightarrow> nat"
  assumes advances: "inv s \<Longrightarrow> \<not> final s \<Longrightarrow> \<exists>t. step s t"
    and shrinks: "inv s \<Longrightarrow> step s t \<Longrightarrow> left t < left s"
begin

lemma run_bounded: "inv s \<Longrightarrow> (step ^^ n) s t \<Longrightarrow> n + left t \<le> left s"
proof (induction n arbitrary: t)
  case (Suc n)
  then obtain u where u: "(step ^^ n) s u" "step u t" by auto
  then have "inv u" using Suc.prems(1) by (blast intro: run_inv relpowp_imp_rtranclp)
  with u shrinks [of u t] Suc.IH [of u] Suc.prems(1) show ?case by simp
qed simp

lemma stuck_final: "inv s \<Longrightarrow> step\<^sup>*\<^sup>* s t \<Longrightarrow> \<forall>u. \<not> step t u \<Longrightarrow> final t"
  using run_inv advances by blast

lemma can_finish: "inv s \<Longrightarrow> \<exists>t. step\<^sup>*\<^sup>* s t \<and> final t"
proof (induction "left s" arbitrary: s rule: less_induct)
  case less
  show ?case
  proof (cases "final s")
    case False
    then obtain t where t: "step s t" using advances less.prems by blast
    then obtain u where "step\<^sup>*\<^sup>* t u" "final u" using less shrinks inv_step by blast
    with t show ?thesis by (meson converse_rtranclp_into_rtranclp)
  qed auto
qed

end

subsection \<open>Streams of updates\<close>

text \<open>
  What both kinds of work on an agent promise their consumer: whatever happens, the channel carries
  exactly one terminal update, and it is the last one.
\<close>

locale update_stream =
  fixes updates :: "'e \<Rightarrow> 'u list" and terminal :: "'u \<Rightarrow> bool"
  assumes one_terminal: "\<exists>us u. updates e = us @ [u] \<and> terminal u \<and> (\<forall>x \<in> set us. \<not> terminal x)"
begin

lemma nonempty: "updates e \<noteq> []"
  using one_terminal [of e] by auto

lemma last_terminal: "terminal (last (updates e))"
  using one_terminal [of e] by auto

lemma filter_terminal: "filter terminal (updates e) = [last (updates e)]"
  using one_terminal [of e] by (auto simp: filter_empty_conv)

lemma butlast_not_terminal: "x \<in> set (butlast (updates e)) \<Longrightarrow> \<not> terminal x"
  using one_terminal [of e] by auto

text \<open>A consumer that keeps the state of the last update ends in a terminal state.\<close>

lemma fold_state:
  assumes "\<And>u s. terminal u \<Longrightarrow> final (step u s)"
  shows "final (fold step (updates e) s)"
proof -
  obtain us u where "updates e = us @ [u]" "terminal u" using one_terminal by blast
  then show ?thesis using assms by simp
qed

end

end
