(* ===== verification/Contracts.thy ===== *)
theory Contracts
  imports Prelude
begin

text \<open>
  The wire types of \<^verbatim>\<open>contracts/proto/compute/v1\<close>: one datatype per enum, one record per message,
  one datatype per oneof. A message-valued field is optional (a nil pointer on the Go side) and the
  generated getters return the zero value on nil; an enum holds its declared values only.
\<close>

subsection \<open>Enums of common.proto\<close>

datatype NodeStatus =
    NODE_STATUS_UNSPECIFIED
  | NODE_STATUS_ONLINE
  | NODE_STATUS_OFFLINE

datatype JobState =
    JOB_STATE_UNSPECIFIED
  | JOB_STATE_PENDING
  | JOB_STATE_RUNNING
  | JOB_STATE_SUCCEEDED
  | JOB_STATE_FAILED
  | JOB_STATE_CANCELLED

datatype RunnerKind =
    RUNNER_KIND_UNSPECIFIED
  | RUNNER_KIND_DOCKER
  | RUNNER_KIND_NATIVE_METAL

datatype DeploymentState =
    DEPLOYMENT_STATE_UNSPECIFIED
  | DEPLOYMENT_STATE_PULLING
  | DEPLOYMENT_STATE_LOADING
  | DEPLOYMENT_STATE_READY
  | DEPLOYMENT_STATE_FAILED
  | DEPLOYMENT_STATE_STOPPED

text \<open>The enum's wire numbers order the deployment states along their lifecycle.\<close>

primrec DeploymentState_number :: "DeploymentState \<Rightarrow> nat" where
  "DeploymentState_number DEPLOYMENT_STATE_UNSPECIFIED = 0"
| "DeploymentState_number DEPLOYMENT_STATE_PULLING = 1"
| "DeploymentState_number DEPLOYMENT_STATE_LOADING = 2"
| "DeploymentState_number DEPLOYMENT_STATE_READY = 3"
| "DeploymentState_number DEPLOYMENT_STATE_FAILED = 4"
| "DeploymentState_number DEPLOYMENT_STATE_STOPPED = 5"

lemma DeploymentState_number_inj: "DeploymentState_number a = DeploymentState_number b \<Longrightarrow> a = b"
  by (cases a; cases b; simp)

instantiation DeploymentState :: linorder
begin

definition less_eq_DeploymentState :: "DeploymentState \<Rightarrow> DeploymentState \<Rightarrow> bool" where
  "less_eq_DeploymentState a b = (DeploymentState_number a \<le> DeploymentState_number b)"

definition less_DeploymentState :: "DeploymentState \<Rightarrow> DeploymentState \<Rightarrow> bool" where
  "less_DeploymentState a b = (DeploymentState_number a < DeploymentState_number b)"

instance
  by standard
    (auto simp: less_eq_DeploymentState_def less_DeploymentState_def dest: DeploymentState_number_inj)

end

lemmas DeploymentState_order = less_eq_DeploymentState_def less_DeploymentState_def

subsection \<open>Machine descriptions and work specifications\<close>

record GpuInfo =
  gpu_vendor :: string
  gpu_model :: string
  gpu_vram_total_mb :: u64
  gpu_driver_version :: string
  gpu_cuda_version :: string
  gpu_count :: u32
  gpu_usable_vram_mb :: u64

record SystemInfo =
  sys_os :: string
  sys_arch :: string
  sys_cpu_cores :: u32
  sys_ram_total_mb :: u64
  sys_docker_version :: string
  sys_nvidia_container_toolkit :: bool
  sys_runners :: "RunnerKind list"

record GpuUtilization =
  util_gpu_percent :: u32
  util_vram_used_mb :: u64
  util_temperature_c :: u32

record ContainerEngine =
  ce_model_ref :: string
  ce_image :: string
  ce_extra_args :: "string list"
  ce_env :: "string \<rightharpoonup> string"
  ce_container_port :: u32

record NativeEngine =
  ne_model_ref :: string
  ne_model_file :: string
  ne_revision :: string
  ne_sha256 :: string
  ne_context_length :: u32

datatype Engine = Container ContainerEngine | Native NativeEngine

record DeploymentSpec =
  spec_deployment_id :: string
  spec_served_model_name :: string
  spec_min_vram_mb :: u64
  spec_engine :: "Engine option"

record JobSpec =
  js_job_id :: string
  js_image :: string
  js_command :: "string list"
  js_env :: "string \<rightharpoonup> string"
  js_gpu :: bool
  js_memory_limit_mb :: u64
  js_timeout_s :: u32

subsection \<open>The control stream\<close>

record Register =
  rg_node_id :: string
  rg_hostname :: string
  rg_agent_version :: string
  rg_gpu :: "GpuInfo option"
  rg_system :: "SystemInfo option"

record Heartbeat =
  hb_gpu_utilization :: "GpuUtilization option"
  hb_active_job_ids :: "string list"
  hb_active_deployment_ids :: "string list"
  hb_data_plane_addr :: string

record JobUpdate =
  ju_job_id :: string
  ju_state :: JobState
  ju_log_chunk :: string
  ju_exit_code :: u32
  ju_error :: string

record DeploymentUpdate =
  du_deployment_id :: string
  du_state :: DeploymentState
  du_host_port :: u32
  du_error :: string
  du_progress_percent :: u32

text \<open>\<open>AM_Unset\<close> and \<open>CM_Unset\<close> are messages whose oneof is not set.\<close>

datatype AgentMessage =
    AM_Register Register
  | AM_Heartbeat Heartbeat
  | AM_JobUpdate JobUpdate
  | AM_DeploymentUpdate DeploymentUpdate
  | AM_Unset

datatype CoordinatorMessage =
    CM_RegisterAck string u32
  | CM_RunJob "JobSpec option"
  | CM_CancelJob string
  | CM_StartDeployment "DeploymentSpec option"
  | CM_StopDeployment string
  | CM_Unset

subsection \<open>Answers of the admin and gateway services\<close>

record NodeSummary =
  ns_node_id :: string
  ns_hostname :: string
  ns_status :: NodeStatus
  ns_gpu :: "GpuInfo option"
  ns_last_seen_unix_ms :: int
  ns_system :: "SystemInfo option"
  ns_deployment_ids :: "string list"

record DeploymentSummary =
  ds_deployment_id :: string
  ds_served_model_name :: string
  ds_node_id :: string
  ds_state :: DeploymentState

record ReplicaAddr =
  rep_node_id :: string
  rep_deployment_id :: string
  rep_addr :: string

record ReportUsageRequest =
  ru_served_model_name :: string
  ru_node_id :: string
  ru_deployment_id :: string
  ru_api_key_id :: string
  ru_prompt_tokens :: u64
  ru_completion_tokens :: u64
  ru_timestamp_unix_ms :: int
  ru_request_id :: string

record UsageTotals =
  ut_key :: string
  ut_requests :: u64
  ut_prompt_tokens :: u64
  ut_completion_tokens :: u64

subsection \<open>Generated getters on a possibly nil message\<close>

fun GetUsableVramMb :: "GpuInfo option \<Rightarrow> u64" where
  "GetUsableVramMb None = 0"
| "GetUsableVramMb (Some g) = gpu_usable_vram_mb g"

fun GetRunners :: "SystemInfo option \<Rightarrow> RunnerKind list" where
  "GetRunners None = []"
| "GetRunners (Some s) = sys_runners s"

fun GetServedModelName :: "DeploymentSpec option \<Rightarrow> string" where
  "GetServedModelName None = []"
| "GetServedModelName (Some s) = spec_served_model_name s"

fun GetEngine :: "DeploymentSpec option \<Rightarrow> Engine option" where
  "GetEngine None = None"
| "GetEngine (Some s) = spec_engine s"

definition GetNative :: "DeploymentSpec option \<Rightarrow> NativeEngine option" where
  "GetNative s = (case GetEngine s of Some (Native n) \<Rightarrow> Some n | _ \<Rightarrow> None)"

fun GetImage :: "JobSpec option \<Rightarrow> string" where
  "GetImage None = []"
| "GetImage (Some s) = js_image s"

subsection \<open>Sending on an agent's stream\<close>

text \<open>
  A stream is named by a number. gRPC's \<^verbatim>\<open>stream.Send\<close> either accepts a message or fails; which of
  the two is a parameter \<open>net\<close>, which may depend on everything sent before. The outbox is the
  history of attempts, with their outcome.
\<close>

type_synonym stream = nat
type_synonym outbox = "(stream \<times> CoordinatorMessage \<times> bool) list"
type_synonym network = "outbox \<Rightarrow> stream \<Rightarrow> CoordinatorMessage \<Rightarrow> bool"

definition stream_Send :: "network \<Rightarrow> outbox \<Rightarrow> stream \<Rightarrow> CoordinatorMessage \<Rightarrow> outbox \<times> bool" where
  "stream_Send net ob s msg = (ob @ [(s, msg, net ob s msg)], net ob s msg)"

text \<open>The messages a stream really carried.\<close>

definition delivered :: "outbox \<Rightarrow> (stream \<times> CoordinatorMessage) list" where
  "delivered ob = map (\<lambda>(s, msg, ok). (s, msg)) (filter (\<lambda>(s, msg, ok). ok) ob)"

lemma delivered_simps [simp]:
  "delivered [] = []"
  "delivered (ob @ ob') = delivered ob @ delivered ob'"
  "delivered ((s, msg, ok) # ob) = (if ok then (s, msg) # delivered ob else delivered ob)"
  by (simp_all add: delivered_def)

end
