(* ===== verification/Registry.thy ===== *)
theory Registry
  imports Contracts
begin

text \<open>
  The coordinator's node registry (\<^verbatim>\<open>coordinator/internal/registry/registry.go\<close>): its table, every
  operation on it, the invariant of the table, and what each operation does to one node.
\<close>

subsection \<open>State\<close>

record Node =
  node_ID :: string
  node_Hostname :: string
  node_GPU :: "GpuInfo option"
  node_System :: "SystemInfo option"
  node_LastSeen :: time
  node_Status :: NodeStatus
  node_DataPlaneAddr :: string
  node_Send :: "stream option"

record Registry =
  nodes :: "string \<rightharpoonup> Node"

definition New :: Registry where
  "New = \<lparr>nodes = Map.empty\<rparr>"

definition zero_Node :: "string \<Rightarrow> Node" where
  "zero_Node nodeID = \<lparr>node_ID = nodeID, node_Hostname = [], node_GPU = None, node_System = None,
     node_LastSeen = zero_time, node_Status = NODE_STATUS_UNSPECIFIED, node_DataPlaneAddr = [],
     node_Send = None\<rparr>"

subsection \<open>Operations\<close>

text \<open>\<open>newID\<close> is what \<^verbatim>\<open>uuid.NewString\<close> returns on this call, \<open>now\<close> what the clock reads.\<close>

definition Upsert :: "string \<Rightarrow> time \<Rightarrow> Register \<Rightarrow> stream \<Rightarrow> Registry \<Rightarrow> Registry \<times> string" where
  "Upsert newID now reg send r =
     (let id = (if rg_node_id reg = [] then newID else rg_node_id reg);
          n = (case nodes r id of None \<Rightarrow> zero_Node id | Some n \<Rightarrow> n);
          n' = n\<lparr>node_Hostname := rg_hostname reg,
                 node_GPU := rg_gpu reg,
                 node_System := rg_system reg,
                 node_LastSeen := now,
                 node_Status := NODE_STATUS_ONLINE,
                 node_Send := Some send\<rparr>
      in (r\<lparr>nodes := (nodes r)(id \<mapsto> n')\<rparr>, id))"

definition Touch :: "time \<Rightarrow> string \<Rightarrow> Heartbeat \<Rightarrow> Registry \<Rightarrow> Registry" where
  "Touch now nodeID hb r =
     (case nodes r nodeID of
        None \<Rightarrow> r
      | Some n \<Rightarrow>
          (let n1 = n\<lparr>node_LastSeen := now, node_Status := NODE_STATUS_ONLINE\<rparr>;
               n2 = (if hb_data_plane_addr hb \<noteq> []
                     then n1\<lparr>node_DataPlaneAddr := hb_data_plane_addr hb\<rparr> else n1)
           in r\<lparr>nodes := (nodes r)(nodeID \<mapsto> n2)\<rparr>))"

definition MarkDisconnected :: "string \<Rightarrow> Registry \<Rightarrow> Registry" where
  "MarkDisconnected nodeID r =
     (case nodes r nodeID of
        None \<Rightarrow> r
      | Some n \<Rightarrow> r\<lparr>nodes := (nodes r)(nodeID \<mapsto>
          n\<lparr>node_Status := NODE_STATUS_OFFLINE, node_Send := None\<rparr>)\<rparr>)"

definition Get :: "string \<Rightarrow> Registry \<Rightarrow> Node option" where
  "Get nodeID r = nodes r nodeID"

definition summary_of :: "Node \<Rightarrow> NodeSummary" where
  "summary_of n = \<lparr>ns_node_id = node_ID n, ns_hostname = node_Hostname n,
     ns_status = node_Status n, ns_gpu = node_GPU n,
     ns_last_seen_unix_ms = unixMilli (node_LastSeen n), ns_system = node_System n,
     ns_deployment_ids = []\<rparr>"

definition List_nodes :: "string list \<Rightarrow> Registry \<Rightarrow> NodeSummary list" where
  "List_nodes ord r = map summary_of (range_vals ord (nodes r))"

definition Snapshot :: "string list \<Rightarrow> Registry \<Rightarrow> Node list" where
  "Snapshot ord r = range_vals ord (nodes r)"

definition reap_node :: "time \<Rightarrow> duration \<Rightarrow> Node \<Rightarrow> Node" where
  "reap_node now interval n =
     (let threshold = 3 * interval
      in if node_Status n \<noteq> NODE_STATUS_ONLINE then n
         else if threshold < time_Sub now (node_LastSeen n)
              then n\<lparr>node_Status := NODE_STATUS_OFFLINE, node_Send := None\<rparr>
              else n)"

definition reap :: "string list \<Rightarrow> time \<Rightarrow> duration \<Rightarrow> Registry \<Rightarrow> Registry" where
  "reap ord now interval r = r\<lparr>nodes := sweep (reap_node now interval) ord (nodes r)\<rparr>"

lemmas registry_defs [model_defs] =
  Upsert_def Touch_def MarkDisconnected_def Get_def reap_def

subsection \<open>The table invariant\<close>

text \<open>
  Entries sit under their own ID; a node that still has a stream is \<^verbatim>\<open>ONLINE\<close> (the converse fails,
  see below); every registered node is either \<^verbatim>\<open>ONLINE\<close> or \<^verbatim>\<open>OFFLINE\<close>.
\<close>

definition node_ok :: "Node \<Rightarrow> bool" where
  "node_ok n \<longleftrightarrow> (node_Send n \<noteq> None \<longrightarrow> node_Status n = NODE_STATUS_ONLINE) \<and>
     node_Status n \<noteq> NODE_STATUS_UNSPECIFIED"

definition registry_inv :: "Registry \<Rightarrow> bool" where
  "registry_inv r \<longleftrightarrow> keyed node_ID (nodes r) \<and> (\<forall>n \<in> ran (nodes r). node_ok n)"

lemma registry_invD:
  "registry_inv r \<Longrightarrow> nodes r k = Some n \<Longrightarrow> node_ID n = k \<and> node_ok n"
  by (auto simp: registry_inv_def keyed_def ran_def)

lemma registry_invI:
  "(\<And>k n. nodes r k = Some n \<Longrightarrow> node_ID n = k \<and> node_ok n) \<Longrightarrow> registry_inv r"
  by (auto simp: registry_inv_def keyed_def ran_def)

lemma registry_inv_New [inv_intros]: "registry_inv New"
  by (simp add: registry_inv_def New_def)

lemma registry_inv_Upsert [inv_intros]:
  "registry_inv r \<Longrightarrow> registry_inv (fst (Upsert newID now reg send r))"
  by (rule registry_invI)
    (auto simp: Upsert_def zero_Node_def node_ok_def dest: registry_invD split: if_splits option.splits)

lemma registry_inv_Touch [inv_intros]: "registry_inv r \<Longrightarrow> registry_inv (Touch now nodeID hb r)"
  by (rule registry_invI)
    (auto simp: Touch_def node_ok_def dest: registry_invD split: if_splits option.splits)

lemma registry_inv_MarkDisconnected [inv_intros]:
  "registry_inv r \<Longrightarrow> registry_inv (MarkDisconnected nodeID r)"
  by (rule registry_invI)
    (auto simp: MarkDisconnected_def node_ok_def dest: registry_invD split: if_splits option.splits)

interpretation reap_sweep: keyed_sweep node_ID "reap_node now interval" for now interval
  by unfold_locales (simp add: reap_node_def)

lemma node_ok_reap_node: "node_ok n \<Longrightarrow> node_ok (reap_node now interval n)"
  by (simp add: reap_node_def node_ok_def)

lemma registry_inv_reap [inv_intros]: "registry_inv r \<Longrightarrow> registry_inv (reap ord now interval r)"
proof -
  assume inv: "registry_inv r"
  have "\<And>k n. sweep (reap_node now interval) ord (nodes r) k = Some n \<Longrightarrow> node_ok n"
    by (rule sweep_entries [where P = "\<lambda>k. node_ok"])
      (auto intro: node_ok_reap_node dest: registry_invD [OF inv])
  then show ?thesis
    using inv by (auto simp: registry_inv_def reap_def ran_def intro: reap_sweep.sweep_keyed)
qed

subsection \<open>The registry as a transition system\<close>

inductive registry_step :: "Registry \<Rightarrow> Registry \<Rightarrow> bool" where
  upsert: "registry_step r (fst (Upsert newID now reg send r))"
| touch: "registry_step r (Touch now nodeID hb r)"
| disconnect: "registry_step r (MarkDisconnected nodeID r)"
| reaped: "map_order ord (nodes r) \<Longrightarrow> registry_step r (reap ord now interval r)"

inductive_cases registry_stepE: "registry_step r r'"

interpretation registry: inductive_invariant "\<lambda>r. r = New" registry_step registry_inv
  by unfold_locales (auto intro: inv_intros elim: registry_stepE)

subsection \<open>The directory interface\<close>

text \<open>
  What the scheduler and the placement rely on: \<open>get\<close> finds an entry by ID and \<open>snapshot\<close> lists
  every entry once. Searching the snapshot is then searching the table.
\<close>

locale node_directory =
  fixes get :: "string \<Rightarrow> 'r \<Rightarrow> 'n option"
    and snapshot :: "string list \<Rightarrow> 'r \<Rightarrow> 'n list"
    and ident :: "'n \<Rightarrow> string"
    and valid :: "string list \<Rightarrow> 'r \<Rightarrow> bool"
  assumes snapshot_get: "valid ord r \<Longrightarrow> n \<in> set (snapshot ord r) \<longleftrightarrow> get (ident n) r = Some n"
    and get_ident: "valid ord r \<Longrightarrow> get k r = Some n \<Longrightarrow> ident n = k"
begin

lemma find_sound:
  "valid ord r \<Longrightarrow> find P (snapshot ord r) = Some n \<Longrightarrow> get (ident n) r = Some n \<and> P n"
  by (auto simp: find_Some_iff snapshot_get [symmetric] in_set_conv_nth)

lemma find_complete:
  "valid ord r \<Longrightarrow> find P (snapshot ord r) = None \<longleftrightarrow> (\<forall>k n. get k r = Some n \<longrightarrow> \<not> P n)"
  using get_ident snapshot_get by (metis find_None_iff)

end

definition directory_valid :: "string list \<Rightarrow> Registry \<Rightarrow> bool" where
  "directory_valid ord r \<longleftrightarrow> map_order ord (nodes r) \<and> keyed node_ID (nodes r)"

interpretation directory: node_directory Get Snapshot node_ID directory_valid
  by unfold_locales
    (auto simp: directory_valid_def Get_def Snapshot_def set_range_vals map_order_def keyed_def domI)

lemma directory_validI: "registry_inv r \<Longrightarrow> map_order ord (nodes r) \<Longrightarrow> directory_valid ord r"
  by (simp add: directory_valid_def registry_inv_def)

subsection \<open>What the operations do\<close>

lemma Get_reap:
  "map_order ord (nodes r) \<Longrightarrow> Get k (reap ord now interval r) = map_option (reap_node now interval) (Get k r)"
  by (simp add: Get_def reap_def reap_sweep.sweep_pointwise)

lemma Get_Touch:
  "Get k (Touch now nodeID hb r) =
     (if k = nodeID then map_option (\<lambda>n. n\<lparr>node_LastSeen := now, node_Status := NODE_STATUS_ONLINE,
          node_DataPlaneAddr := (if hb_data_plane_addr hb = [] then node_DataPlaneAddr n
                                 else hb_data_plane_addr hb)\<rparr>) (Get nodeID r)
      else Get k r)"
  by (auto simp: Get_def Touch_def split: option.split)

lemma Get_MarkDisconnected:
  "Get k (MarkDisconnected nodeID r) =
     (if k = nodeID then map_option (\<lambda>n. n\<lparr>node_Status := NODE_STATUS_OFFLINE, node_Send := None\<rparr>)
          (Get nodeID r)
      else Get k r)"
  by (auto simp: Get_def MarkDisconnected_def split: option.split)

lemma Get_Upsert_other:
  "k \<noteq> snd (Upsert newID now reg send r) \<Longrightarrow> Get k (fst (Upsert newID now reg send r)) = Get k r"
  by (auto simp: Get_def Upsert_def)

lemmas Get_simps = Get_reap Get_Touch Get_MarkDisconnected

text \<open>A Mac mini registering for the first time, used by the witnesses.\<close>

definition demo_gpu :: GpuInfo where
  "demo_gpu = \<lparr>gpu_vendor = ''apple'', gpu_model = ''Apple M4'', gpu_vram_total_mb = 16384,
     gpu_driver_version = [], gpu_cuda_version = [], gpu_count = 1, gpu_usable_vram_mb = 12123\<rparr>"

definition demo_system :: SystemInfo where
  "demo_system = \<lparr>sys_os = ''darwin'', sys_arch = ''arm64'', sys_cpu_cores = 10,
     sys_ram_total_mb = 16384, sys_docker_version = [], sys_nvidia_container_toolkit = False,
     sys_runners = [RUNNER_KIND_NATIVE_METAL]\<rparr>"

definition demo_register :: Register where
  "demo_register = \<lparr>rg_node_id = [], rg_hostname = ''mini'', rg_agent_version = ''phase1'',
     rg_gpu = Some demo_gpu, rg_system = Some demo_system\<rparr>"

definition demo_registry :: Registry where
  "demo_registry = fst (Upsert ''n1'' 0 demo_register 7 New)"

definition demo_heartbeat :: Heartbeat where
  "demo_heartbeat = \<lparr>hb_gpu_utilization = None, hb_active_job_ids = [],
     hb_active_deployment_ids = [], hb_data_plane_addr = ''10.0.0.5''\<rparr>"

lemma Get_demo_registry:
  "Get ''n1'' demo_registry = Some \<lparr>node_ID = ''n1'', node_Hostname = ''mini'',
     node_GPU = Some demo_gpu, node_System = Some demo_system, node_LastSeen = 0,
     node_Status = NODE_STATUS_ONLINE, node_DataPlaneAddr = [], node_Send = Some 7\<rparr>"
  "k \<noteq> ''n1'' \<Longrightarrow> Get k demo_registry = None"
  by (simp_all add: demo_registry_def Upsert_def Get_def demo_register_def New_def zero_Node_def)

lemma map_order_demo_registry: "map_order [''n1''] (nodes demo_registry)"
  by (auto simp: map_order_def demo_registry_def Upsert_def demo_register_def New_def)

lemma reachable_demo_registry: "reachable (\<lambda>r. r = New) registry_step demo_registry"
  unfolding demo_registry_def
  by (rule reachable.reach_step [where s = New]) (auto intro: reachable.reach_init registry_step.upsert)

text \<open>C36. In every state the registry can reach, by any interleaving of registrations, heartbeats,
  stream ends and reaper passes, each entry is stored under its own node ID, is \<^verbatim>\<open>ONLINE\<close> or
  \<^verbatim>\<open>OFFLINE\<close>, and holds a live stream only while \<^verbatim>\<open>ONLINE\<close>.\<close>

theorem registry_reachable_entries:
  assumes "reachable (\<lambda>r. r = New) registry_step r" and "Get k r = Some n"
  shows "node_ID n = k \<and> node_Status n \<in> {NODE_STATUS_ONLINE, NODE_STATUS_OFFLINE} \<and>
    (node_Status n = NODE_STATUS_OFFLINE \<longrightarrow> node_Send n = None)"
proof -
  have "node_ID n = k \<and> node_ok n"
    using registry.reachable_inv [OF assms(1)] assms(2) by (auto simp: Get_def dest: registry_invD)
  then show ?thesis
    by (cases "node_Status n") (auto simp: node_ok_def)
qed

theorem registry_reachable_entries_witness:
  "\<exists>n. Get ''n1'' demo_registry = Some n \<and> node_ID n = ''n1''"
  using registry_reachable_entries [OF reachable_demo_registry Get_demo_registry(1)]
    Get_demo_registry(1) by blast

text \<open>A reaper pass, whatever order it visits the table in, takes exactly the nodes that are
  \<^verbatim>\<open>ONLINE\<close> and were last seen more than three heartbeat intervals ago \<^verbatim>\<open>OFFLINE\<close> and drops their
  stream; every other entry, and the set of known nodes, is left as it was.\<close>

theorem reap_exact:
  assumes "map_order ord (nodes r)" and "0 \<le> interval" and "3 * interval < maxDuration"
  shows "Get k (reap ord now interval r) =
    map_option (\<lambda>n. if node_Status n = NODE_STATUS_ONLINE \<and> 3 * interval < now - node_LastSeen n
                    then n\<lparr>node_Status := NODE_STATUS_OFFLINE, node_Send := None\<rparr> else n) (Get k r)"
proof -
  have "minDuration \<le> 3 * interval" using assms(2) by (simp add: minDuration_def)
  then show ?thesis
    using assms(3) by (auto simp: Get_reap [OF assms(1)] reap_node_def intro!: option.map_cong)
qed

theorem reap_exact_witness:
  "map_option node_Status (Get ''n1'' (reap [''n1''] (30 * second) (10 * second) demo_registry))
     = Some NODE_STATUS_ONLINE \<and>
   map_option node_Status (Get ''n1'' (reap [''n1''] (31 * second) (10 * second) demo_registry))
     = Some NODE_STATUS_OFFLINE"
  using reap_exact [OF map_order_demo_registry, of "10 * second" "''n1''"]
  by (simp add: Get_demo_registry maxDuration_def)

text \<open>Reconnecting keeps a node's identity: registering under a known ID returns that ID, adds no
  entry, keeps the data-plane address learned before, and binds the new stream with the node
  \<^verbatim>\<open>ONLINE\<close> and seen now; an empty ID gets the minted one. Other nodes are untouched.\<close>

theorem Upsert_identity:
  "Upsert newID now reg send r = (r', k) \<Longrightarrow>
     k = (if rg_node_id reg = [] then newID else rg_node_id reg) \<and>
     dom (nodes r') = insert k (dom (nodes r)) \<and>
     (\<forall>k'. k' \<noteq> k \<longrightarrow> Get k' r' = Get k' r) \<and>
     (\<exists>n. Get k r' = Some n \<and> node_Status n = NODE_STATUS_ONLINE \<and> node_Send n = Some send \<and>
        node_LastSeen n = now \<and> node_Hostname n = rg_hostname reg \<and> node_GPU n = rg_gpu reg \<and>
        node_System n = rg_system reg \<and>
        node_DataPlaneAddr n = (case Get k r of None \<Rightarrow> [] | Some m \<Rightarrow> node_DataPlaneAddr m))"
  by (auto simp: Upsert_def Get_def zero_Node_def split: option.split)

theorem Upsert_identity_witness:
  "\<exists>n. Get ''n1'' (fst (Upsert ''n2'' 5 (demo_register\<lparr>rg_node_id := ''n1''\<rparr>) 8
     (Touch 1 ''n1'' demo_heartbeat demo_registry))) = Some n \<and>
     node_Send n = Some 8 \<and> node_DataPlaneAddr n = ''10.0.0.5''"
proof -
  let ?r = "Touch 1 ''n1'' demo_heartbeat demo_registry"
  let ?u = "Upsert ''n2'' 5 (demo_register\<lparr>rg_node_id := ''n1''\<rparr>) 8 ?r"
  have "?u = (fst ?u, snd ?u)" by simp
  note Upsert_identity [OF this]
  moreover have "snd ?u = ''n1''" by (simp add: Upsert_def)
  ultimately show ?thesis
    by (auto simp: Get_simps Get_demo_registry demo_heartbeat_def)
qed

text \<open>A heartbeat that arrives after the reaper has given up on a node, on the stream that never
  broke, brings the node back \<^verbatim>\<open>ONLINE\<close> without its stream: the reaper dropped \<^verbatim>\<open>Send\<close> and
  \<^verbatim>\<open>Touch\<close> does not restore it, so the registry lists the node as available while nothing can be
  sent to it until the agent reconnects.\<close>

theorem late_heartbeat_strands_node:
  assumes "map_order ord (nodes r)" and "0 \<le> interval" and "3 * interval < maxDuration"
    and "Get k r = Some n" and "node_Status n = NODE_STATUS_ONLINE"
    and "3 * interval < now - node_LastSeen n"
  shows "\<exists>n'. Get k (Touch later k hb (reap ord now interval r)) = Some n' \<and>
    node_Status n' = NODE_STATUS_ONLINE \<and> node_Send n' = None"
proof -
  have "minDuration \<le> 3 * interval" using assms(2) by (simp add: minDuration_def)
  then show ?thesis
    using assms by (simp add: Get_simps reap_node_def)
qed

theorem late_heartbeat_strands_node_witness:
  "\<exists>n'. Get ''n1'' (Touch (32 * second) ''n1'' demo_heartbeat
      (reap [''n1''] (31 * second) (10 * second) demo_registry)) = Some n' \<and>
    node_Status n' = NODE_STATUS_ONLINE \<and> node_Send n' = None"
  by (rule late_heartbeat_strands_node [OF map_order_demo_registry _ _ Get_demo_registry(1)])
    (simp_all add: maxDuration_def)

end
