(* ===== verification/Scheduler.thy ===== *)
theory Scheduler
  imports Registry
begin

text \<open>
  The job scheduler of the coordinator (\<^verbatim>\<open>coordinator/internal/scheduler/scheduler.go\<close>): dispatch of
  a job down a node's stream, the updates agents send back, and the reconciliation of the job table
  with a heartbeat. Log lines are not modelled.
\<close>

subsection \<open>State\<close>

record Job =
  job_ID :: string
  job_NodeID :: string
  job_State :: JobState
  job_LastUpdate :: time
  job_Error :: string
  job_ExitCode :: u32

record Scheduler =
  jobs :: "string \<rightharpoonup> Job"

definition New_Scheduler :: Scheduler where
  "New_Scheduler = \<lparr>jobs = Map.empty\<rparr>"

datatype sched_error =
    ErrUnknownNode string
  | ErrNodeOffline string
  | ErrSendJob string

definition reconcileGrace :: duration where
  "reconcileGrace = 30 * second"

fun isTerminal :: "JobState \<Rightarrow> bool" where
  "isTerminal JOB_STATE_SUCCEEDED = True"
| "isTerminal JOB_STATE_FAILED = True"
| "isTerminal JOB_STATE_CANCELLED = True"
| "isTerminal _ = False"

subsection \<open>Operations\<close>

definition RunJob ::
  "string \<Rightarrow> time \<Rightarrow> network \<Rightarrow> Registry \<Rightarrow> string \<Rightarrow> JobSpec \<Rightarrow> Scheduler \<Rightarrow> outbox
     \<Rightarrow> Scheduler \<times> outbox \<times> (sched_error + string)" where
  "RunJob newID now net reg nodeID spec s ob =
     (case Get nodeID reg of
        None \<Rightarrow> (s, ob, Inl (ErrUnknownNode nodeID))
      | Some node \<Rightarrow>
          (case node_Send node of
             None \<Rightarrow> (s, ob, Inl (ErrNodeOffline nodeID))
           | Some str \<Rightarrow>
               if node_Status node \<noteq> NODE_STATUS_ONLINE then (s, ob, Inl (ErrNodeOffline nodeID))
               else
                 (let jobID = newID;
                      spec' = spec\<lparr>js_job_id := jobID\<rparr>;
                      s1 = s\<lparr>jobs := (jobs s)(jobID \<mapsto>
                             \<lparr>job_ID = jobID, job_NodeID = nodeID, job_State = JOB_STATE_PENDING,
                              job_LastUpdate = now, job_Error = [], job_ExitCode = 0\<rparr>)\<rparr>;
                      (ob', ok) = stream_Send net ob str (CM_RunJob (Some spec'))
                  in if \<not> ok then (s1\<lparr>jobs := (jobs s1)(jobID := None)\<rparr>, ob', Inl (ErrSendJob nodeID))
                     else (s1, ob', Inr jobID))))"

definition OnJobUpdate :: "time \<Rightarrow> string \<Rightarrow> JobUpdate \<Rightarrow> Scheduler \<Rightarrow> Scheduler" where
  "OnJobUpdate now nodeID upd s =
     (if ju_job_id upd = [] then s
      else
        (let j = (case jobs s (ju_job_id upd) of
                    Some j \<Rightarrow> j
                  | None \<Rightarrow> \<lparr>job_ID = ju_job_id upd, job_NodeID = nodeID,
                       job_State = JOB_STATE_UNSPECIFIED, job_LastUpdate = zero_time,
                       job_Error = [], job_ExitCode = 0\<rparr>);
             j1 = (if ju_state upd \<noteq> JOB_STATE_UNSPECIFIED then j\<lparr>job_State := ju_state upd\<rparr> else j);
             j2 = (if isTerminal (ju_state upd)
                   then j1\<lparr>job_Error := ju_error upd, job_ExitCode := ju_exit_code upd\<rparr> else j1);
             j3 = j2\<lparr>job_LastUpdate := now\<rparr>
         in s\<lparr>jobs := (jobs s)(ju_job_id upd \<mapsto> j3)\<rparr>))"

definition reconcile_job :: "time \<Rightarrow> string \<Rightarrow> string list \<Rightarrow> Job \<Rightarrow> Job" where
  "reconcile_job now nodeID activeJobIDs j =
     (let cutoff = now - reconcileGrace
      in if job_NodeID j \<noteq> nodeID \<or> isTerminal (job_State j) \<or> job_ID j \<in> set activeJobIDs then j
         else if cutoff < job_LastUpdate j then j
         else j\<lparr>job_State := JOB_STATE_FAILED, job_Error := ''agent no longer reports this job'',
                job_LastUpdate := now\<rparr>)"

definition Reconcile_jobs :: "string list \<Rightarrow> time \<Rightarrow> string \<Rightarrow> string list \<Rightarrow> Scheduler \<Rightarrow> Scheduler" where
  "Reconcile_jobs ord now nodeID activeJobIDs s =
     s\<lparr>jobs := sweep (reconcile_job now nodeID activeJobIDs) ord (jobs s)\<rparr>"

definition Get_job :: "string \<Rightarrow> Scheduler \<Rightarrow> Job option" where
  "Get_job jobID s = jobs s jobID"

subsection \<open>The table invariant\<close>

text \<open>Jobs sit under their own ID, which is never empty.\<close>

definition scheduler_inv :: "Scheduler \<Rightarrow> bool" where
  "scheduler_inv s \<longleftrightarrow> keyed job_ID (jobs s) \<and> jobs s [] = None"

interpretation job_sweep: keyed_sweep job_ID "reconcile_job now nodeID active"
  for now nodeID active
  by unfold_locales (simp add: reconcile_job_def)

lemma scheduler_inv_New [inv_intros]: "scheduler_inv New_Scheduler"
  by (simp add: scheduler_inv_def New_Scheduler_def)

lemma scheduler_inv_RunJob [inv_intros]:
  "scheduler_inv s \<Longrightarrow> newID \<noteq> [] \<Longrightarrow>
     scheduler_inv (fst (RunJob newID now net reg nodeID spec s ob))"
  by (auto simp: scheduler_inv_def RunJob_def stream_Send_def keyed_def split: option.split)

lemma scheduler_inv_OnJobUpdate [inv_intros]:
  "scheduler_inv s \<Longrightarrow> scheduler_inv (OnJobUpdate now nodeID upd s)"
  by (auto simp: scheduler_inv_def OnJobUpdate_def keyed_def split: option.splits)

lemma scheduler_inv_Reconcile [inv_intros]:
  "scheduler_inv s \<Longrightarrow> scheduler_inv (Reconcile_jobs ord now nodeID active s)"
  by (auto simp: scheduler_inv_def Reconcile_jobs_def intro: job_sweep.sweep_keyed)

inductive scheduler_step :: "Scheduler \<Rightarrow> Scheduler \<Rightarrow> bool" where
  run: "newID \<noteq> [] \<Longrightarrow> newID \<notin> dom (jobs s) \<Longrightarrow>
     scheduler_step s (fst (RunJob newID now net reg nodeID spec s ob))"
| update: "scheduler_step s (OnJobUpdate now nodeID upd s)"
| reconcile: "map_order ord (jobs s) \<Longrightarrow>
     scheduler_step s (Reconcile_jobs ord now nodeID active s)"

inductive_cases scheduler_stepE: "scheduler_step s s'"

interpretation scheduler: inductive_invariant "\<lambda>s. s = New_Scheduler" scheduler_step scheduler_inv
  by unfold_locales (auto intro: inv_intros elim: scheduler_stepE)

subsection \<open>What the operations do\<close>

definition demo_jobspec :: JobSpec where
  "demo_jobspec = \<lparr>js_job_id = [], js_image = ''alpine'', js_command = [''uname''],
     js_env = Map.empty, js_gpu = False, js_memory_limit_mb = 0, js_timeout_s = 0\<rparr>"

definition demo_scheduler :: Scheduler where
  "demo_scheduler = fst (RunJob ''j1'' 0 (\<lambda>_ _ _. True) demo_registry ''n1'' demo_jobspec New_Scheduler [])"

lemma Get_demo_scheduler:
  "Get_job ''j1'' demo_scheduler = Some \<lparr>job_ID = ''j1'', job_NodeID = ''n1'',
     job_State = JOB_STATE_PENDING, job_LastUpdate = 0, job_Error = [], job_ExitCode = 0\<rparr>"
  by (simp add: demo_scheduler_def RunJob_def Get_demo_registry stream_Send_def Get_job_def)

lemma map_order_demo_scheduler: "map_order [''j1''] (jobs demo_scheduler)"
  by (auto simp: map_order_def demo_scheduler_def RunJob_def Get_demo_registry stream_Send_def
      New_Scheduler_def)

text \<open>Dispatching a job either fails with the job table exactly as it was, or records exactly one
  new job, \<^verbatim>\<open>PENDING\<close> on the named node, and puts exactly one \<^verbatim>\<open>RunJob\<close> carrying the minted ID on
  that node's stream. It succeeds precisely when the node is known, \<^verbatim>\<open>ONLINE\<close>, has a stream, and the
  stream takes the message; a failed send rolls the record back.\<close>

theorem RunJob_all_or_nothing:
  assumes "newID \<notin> dom (jobs s)"
    and "RunJob newID now net reg nodeID spec s ob = (s', ob', res)"
  shows "(case res of
      Inl e \<Rightarrow> s' = s \<and> delivered ob' = delivered ob
    | Inr jobID \<Rightarrow> jobID = newID \<and>
        (\<exists>n str. Get nodeID reg = Some n \<and> node_Status n = NODE_STATUS_ONLINE \<and>
           node_Send n = Some str \<and>
           delivered ob' = delivered ob @ [(str, CM_RunJob (Some (spec\<lparr>js_job_id := jobID\<rparr>)))]) \<and>
        jobs s' = (jobs s)(jobID \<mapsto> \<lparr>job_ID = jobID, job_NodeID = nodeID,
          job_State = JOB_STATE_PENDING, job_LastUpdate = now, job_Error = [], job_ExitCode = 0\<rparr>)) \<and>
    ((\<exists>e. res = Inl e) \<longleftrightarrow>
       (\<forall>n str. Get nodeID reg = Some n \<longrightarrow> node_Status n = NODE_STATUS_ONLINE \<longrightarrow>
          node_Send n = Some str \<longrightarrow> \<not> net ob str (CM_RunJob (Some (spec\<lparr>js_job_id := newID\<rparr>)))))"
proof -
  have "(jobs s)(newID := None) = jobs s"
    using assms(1) by (simp add: fun_upd_idem domIff)
  then show ?thesis
    using assms(2) by (auto simp: RunJob_def stream_Send_def split: option.splits if_splits)
qed

theorem RunJob_all_or_nothing_witness:
  "case RunJob ''j1'' 0 (\<lambda>_ _ _. True) demo_registry ''n1'' demo_jobspec New_Scheduler [] of
     (s', ob', res) \<Rightarrow> res = Inr ''j1'' \<and> length (delivered ob') = 1"
proof -
  have f: "''j1'' \<notin> dom (jobs New_Scheduler)" by (simp add: New_Scheduler_def)
  show ?thesis
    using RunJob_all_or_nothing [OF f, of 0 "\<lambda>_ _ _. True" demo_registry "''n1''" demo_jobspec "[]"]
    by (simp add: RunJob_def Get_demo_registry stream_Send_def)
qed

text \<open>Reconciling a heartbeat marks \<^verbatim>\<open>FAILED\<close> exactly the jobs of that node that have not ended,
  that the heartbeat omits and that have been quiet for the 30 second grace window; jobs of other
  nodes, reported jobs, finished jobs and recently updated jobs keep their state, in any visiting
  order.\<close>

theorem Reconcile_jobs_exact:
  assumes "map_order ord (jobs s)" and "keyed job_ID (jobs s)"
  shows "Get_job k (Reconcile_jobs ord now nodeID active s) =
    map_option (\<lambda>j. if job_NodeID j = nodeID \<and> \<not> isTerminal (job_State j) \<and> k \<notin> set active \<and>
                        30 * second \<le> now - job_LastUpdate j
                    then j\<lparr>job_State := JOB_STATE_FAILED,
                           job_Error := ''agent no longer reports this job'', job_LastUpdate := now\<rparr>
                    else j) (Get_job k s)"
  using assms
  by (auto simp: Get_job_def Reconcile_jobs_def job_sweep.sweep_pointwise reconcile_job_def
      reconcileGrace_def dest: keyedD intro!: option.map_cong)

theorem Reconcile_jobs_exact_witness:
  "map_option job_State (Get_job ''j1'' (Reconcile_jobs [''j1''] (30 * second) ''n1'' [] demo_scheduler))
     = Some JOB_STATE_FAILED \<and>
   map_option job_State (Get_job ''j1'' (Reconcile_jobs [''j1''] (29 * second) ''n1'' [] demo_scheduler))
     = Some JOB_STATE_PENDING"
proof -
  have "keyed job_ID (jobs demo_scheduler)"
    by (simp add: demo_scheduler_def RunJob_def Get_demo_registry stream_Send_def keyed_def
        New_Scheduler_def)
  then show ?thesis
    by (simp add: Reconcile_jobs_exact [OF map_order_demo_scheduler] Get_demo_scheduler)
qed

text \<open>In every state the scheduler can reach, a job is stored under its own non-empty ID; and an
  update for a job the table does not hold (dispatched before a coordinator restart) is adopted under
  that ID with the reporting node as its node, while an update with no job ID changes nothing.\<close>

theorem OnJobUpdate_adopts:
  assumes "reachable (\<lambda>s. s = New_Scheduler) scheduler_step s"
  shows "(\<forall>k j. Get_job k s = Some j \<longrightarrow> job_ID j = k \<and> k \<noteq> []) \<and>
    (if ju_job_id upd = [] then OnJobUpdate now nodeID upd s = s
     else \<exists>j. Get_job (ju_job_id upd) (OnJobUpdate now nodeID upd s) = Some j \<and>
       job_ID j = ju_job_id upd \<and> job_LastUpdate j = now \<and>
       (ju_state upd \<noteq> JOB_STATE_UNSPECIFIED \<longrightarrow> job_State j = ju_state upd) \<and>
       (isTerminal (ju_state upd) \<longrightarrow> job_Error j = ju_error upd \<and> job_ExitCode j = ju_exit_code upd) \<and>
       (Get_job (ju_job_id upd) s = None \<longrightarrow> job_NodeID j = nodeID))"
proof -
  have inv: "scheduler_inv s" using assms by (rule scheduler.reachable_inv)
  then show ?thesis
    by (auto simp: scheduler_inv_def Get_job_def OnJobUpdate_def dest: keyedD split: option.split)
qed

theorem OnJobUpdate_adopts_witness:
  "\<exists>j. Get_job ''j9'' (OnJobUpdate 5 ''n1'' \<lparr>ju_job_id = ''j9'', ju_state = JOB_STATE_FAILED,
      ju_log_chunk = [], ju_exit_code = 3, ju_error = ''boom''\<rparr> New_Scheduler) = Some j \<and>
    job_NodeID j = ''n1'' \<and> job_ExitCode j = 3"
proof -
  have "reachable (\<lambda>s. s = New_Scheduler) scheduler_step New_Scheduler"
    by (rule reachable.reach_init) simp
  from OnJobUpdate_adopts [OF this, of "\<lparr>ju_job_id = ''j9'', ju_state = JOB_STATE_FAILED,
      ju_log_chunk = [], ju_exit_code = 3, ju_error = ''boom''\<rparr>" 5 "''n1''"]
  show ?thesis by (auto simp: Get_job_def New_Scheduler_def)
qed

end
