(* ===== verification/GoStrings.thy ===== *)
theory GoStrings
  imports Prelude "HOL-Library.Char_ord" "HOL-Library.List_Lexorder" "HOL-Library.Sublist"
begin

text \<open>
  The parts of Go's \<^verbatim>\<open>strings\<close>, \<^verbatim>\<open>strconv\<close>, \<^verbatim>\<open>sort\<close> and \<^verbatim>\<open>net\<close> packages the program uses. A Go
  string is its list of bytes; white space and letter case are those of ASCII.
\<close>

subsection \<open>Decimal numbers\<close>

definition digit :: "nat \<Rightarrow> char" where
  "digit d = char_of (48 + d)"

lemma digit_simps [simp]:
  "digit 0 = CHR ''0''" "digit 1 = CHR ''1''" "digit 2 = CHR ''2''" "digit 3 = CHR ''3''"
  "digit 4 = CHR ''4''" "digit 5 = CHR ''5''" "digit 6 = CHR ''6''" "digit 7 = CHR ''7''"
  "digit 8 = CHR ''8''" "digit 9 = CHR ''9''" "digit (Suc 0) = CHR ''1''"
  by code_simp+

fun itoa :: "nat \<Rightarrow> string" where
  "itoa n = (if n < 10 then [digit n] else itoa (n div 10) @ [digit (n mod 10)])"

declare itoa.simps [simp del]

lemma itoa_nonempty [simp]: "itoa n \<noteq> []"
  by (subst itoa.simps) simp

subsection \<open>Host and port\<close>

text \<open>\<^verbatim>\<open>net.JoinHostPort\<close> brackets a host that contains a colon (a literal IPv6 address).\<close>

definition JoinHostPort :: "string \<Rightarrow> string \<Rightarrow> string" where
  "JoinHostPort host port =
     (if CHR '':'' \<in> set host then ''['' @ host @ '']:'' @ port else host @ '':'' @ port)"

subsection \<open>Sorting\<close>

text \<open>
  \<^verbatim>\<open>sort.Strings\<close> sorts by bytes; collecting the keys of a Go map and sorting them does not depend on
  the order the map is ranged over.
\<close>

definition sort_keys :: "string list \<Rightarrow> string list" where
  "sort_keys names = sort (remdups names)"

lemma sort_keys_props [simp]:
  "set (sort_keys names) = set names" "sorted (sort_keys names)" "distinct (sort_keys names)"
  by (simp_all add: sort_keys_def)

lemma sort_keys_cong: "set xs = set ys \<Longrightarrow> sort_keys xs = sort_keys ys"
  by (metis sort_keys_props sorted_distinct_set_unique)

subsection \<open>Letter case\<close>

definition lower_char :: "char \<Rightarrow> char" where
  "lower_char c = (let n = of_char c :: nat in if 65 \<le> n \<and> n \<le> 90 then char_of (n + 32) else c)"

definition ToLower :: "string \<Rightarrow> string" where
  "ToLower = map lower_char"

text \<open>\<^verbatim>\<open>strings.EqualFold\<close> on ASCII text.\<close>

definition EqualFold :: "string \<Rightarrow> string \<Rightarrow> bool" where
  "EqualFold s t \<longleftrightarrow> ToLower s = ToLower t"

subsection \<open>Splitting and trimming\<close>

definition is_space :: "char \<Rightarrow> bool" where
  "is_space c \<longleftrightarrow> (let n = of_char c :: nat in n = 32 \<or> (9 \<le> n \<and> n \<le> 13))"

definition TrimLeft :: "string \<Rightarrow> string" where
  "TrimLeft = dropWhile is_space"

definition TrimSpace :: "string \<Rightarrow> string" where
  "TrimSpace s = rev (dropWhile is_space (rev (dropWhile is_space s)))"

text \<open>\<^verbatim>\<open>strings.Split\<close> on a one-byte separator: always at least one piece.\<close>

fun Split :: "char \<Rightarrow> string \<Rightarrow> string list" where
  "Split sep [] = [[]]"
| "Split sep (c # cs) =
     (if c = sep then [] # Split sep cs
      else case Split sep cs of [] \<Rightarrow> [[c]] | p # ps \<Rightarrow> (c # p) # ps)"

lemma Split_nonempty [simp]: "Split sep s \<noteq> []"
  by (cases s) (auto split: list.split)

fun Join :: "char \<Rightarrow> string list \<Rightarrow> string" where
  "Join sep [] = []"
| "Join sep [p] = p"
| "Join sep (p # q # ps) = p @ sep # Join sep (q # ps)"

lemma Split_no_sep: "sep \<notin> set p \<Longrightarrow> Split sep p = [p]"
  by (induction p) auto

lemma Split_cons: "sep \<notin> set p \<Longrightarrow> Split sep (p @ sep # s) = p # Split sep s"
  by (induction p) auto

lemma Split_Join: "ps \<noteq> [] \<Longrightarrow> \<forall>p \<in> set ps. sep \<notin> set p \<Longrightarrow> Split sep (Join sep ps) = ps"
  by (induction sep ps rule: Join.induct) (simp_all add: Split_no_sep Split_cons)

lemma Join_Split: "Join sep (Split sep s) = s"
proof (induction s)
  case (Cons c s)
  then show ?case
    by (cases "Split sep s"; cases "tl (Split sep s)") auto
qed simp

definition HasPrefix :: "string \<Rightarrow> string \<Rightarrow> bool" where
  "HasPrefix s pre \<longleftrightarrow> take (length pre) s = pre"

definition TrimPrefix :: "string \<Rightarrow> string \<Rightarrow> string" where
  "TrimPrefix s pre = (if HasPrefix s pre then drop (length pre) s else s)"

lemma HasPrefix_append [simp]: "HasPrefix (pre @ s) pre" "TrimPrefix (pre @ s) pre = s"
  by (simp_all add: HasPrefix_def TrimPrefix_def)

lemma HasPrefix_iff: "HasPrefix s pre \<longleftrightarrow> (\<exists>t. s = pre @ t)"
  by (metis HasPrefix_def HasPrefix_append(1) append_take_drop_id)

text \<open>
  The lines a \<^verbatim>\<open>bufio.Scanner\<close> with buffer limit \<open>lim\<close> yields: split at line feeds, a final carriage
  return dropped, a last line without line feed included if it is not empty. Scanning stops at a line
  that does not fit the buffer.
\<close>

definition dropCR :: "string \<Rightarrow> string" where
  "dropCR l = (if l \<noteq> [] \<and> last l = CHR 0x0D then butlast l else l)"

definition raw_lines :: "string \<Rightarrow> string list" where
  "raw_lines s = (let ps = Split (CHR 0x0A) s in if last ps = [] then butlast ps else ps)"

definition scan_lines :: "nat \<Rightarrow> string \<Rightarrow> string list" where
  "scan_lines lim s = map dropCR (takeWhile (\<lambda>l. length l < lim) (raw_lines s))"

subsection \<open>Searching\<close>

text \<open>\<^verbatim>\<open>strings.Contains\<close>.\<close>

fun Contains :: "string \<Rightarrow> string \<Rightarrow> bool" where
  "Contains [] sub = (sub = [])"
| "Contains (c # cs) sub = (HasPrefix (c # cs) sub \<or> Contains cs sub)"

lemma Contains_iff: "Contains s sub \<longleftrightarrow> (\<exists>a b. s = a @ sub @ b)"
proof (induction s)
  case (Cons c cs)
  show ?case
  proof
    assume "Contains (c # cs) sub"
    then show "\<exists>a b. c # cs = a @ sub @ b"
      using Cons by (auto simp: HasPrefix_iff intro: exI [of _ "[]"]) (metis append_Cons)
  next
    assume "\<exists>a b. c # cs = a @ sub @ b"
    then obtain a b where "c # cs = a @ sub @ b" by blast
    then have "HasPrefix (c # cs) sub \<or> (\<exists>a b. cs = a @ sub @ b)"
      by (cases a) (auto simp: HasPrefix_iff)
    then show "Contains (c # cs) sub" using Cons by simp
  qed
qed simp

text \<open>What follows the last occurrence of a byte, if it occurs.\<close>

definition after_last :: "char \<Rightarrow> string \<Rightarrow> string option" where
  "after_last c s = (if c \<in> set s then Some (rev (takeWhile (\<lambda>d. d \<noteq> c) (rev s))) else None)"

lemma after_last_append: "c \<notin> set t \<Longrightarrow> after_last c (s @ c # t) = Some t"
proof -
  assume "c \<notin> set t"
  then have "takeWhile (\<lambda>d. d \<noteq> c) (rev t @ c # rev s) = rev t" by (subst takeWhile_append2) auto
  then show ?thesis by (simp add: after_last_def)
qed

subsection \<open>Reading numbers\<close>

definition is_digit :: "char \<Rightarrow> bool" where
  "is_digit c \<longleftrightarrow> (let n = of_char c :: nat in 48 \<le> n \<and> n \<le> 57)"

definition digit_value :: "char \<Rightarrow> nat" where
  "digit_value c = of_char c - 48"

definition dec_value :: "string \<Rightarrow> nat" where
  "dec_value ds = foldl (\<lambda>n d. 10 * n + digit_value d) 0 ds"

lemma digit_props: "d < 10 \<Longrightarrow> is_digit (digit d)" "d < 10 \<Longrightarrow> digit_value (digit d) = d"
  by (simp_all add: is_digit_def digit_value_def digit_def)

lemma itoa_digits: "c \<in> set (itoa n) \<Longrightarrow> is_digit c"
  by (induction n arbitrary: c rule: itoa.induct) (subst (asm) itoa.simps, auto simp: digit_props split: if_splits)

lemma dec_value_itoa: "dec_value (itoa n) = n"
proof (induction n rule: itoa.induct)
  case (1 n)
  show ?case
  proof (cases "n < 10")
    case True
    then show ?thesis by (subst itoa.simps) (simp add: dec_value_def digit_props)
  next
    case False
    then have "dec_value (itoa (n div 10)) = n div 10" using 1 by simp
    with False show ?thesis
      by (subst itoa.simps) (simp add: dec_value_def digit_props)
  qed
qed

text \<open>
  \<^verbatim>\<open>fmt.Sscanf(s, "%d", &p)\<close> into a \<^verbatim>\<open>uint32\<close>: blanks are skipped, then the longest run of digits is
  read; it is an error if there is none or the number does not fit. The rest of the input is ignored.
\<close>

definition sscanf_uint32 :: "string \<Rightarrow> u32 option" where
  "sscanf_uint32 s =
     (let ds = takeWhile is_digit (dropWhile (\<lambda>c. c = CHR '' '' \<or> c = CHR 0x09) s)
      in if ds = [] \<or> 2 ^ 32 \<le> dec_value ds then None else Some (of_nat (dec_value ds)))"

lemma sscanf_itoa: "n < 2 ^ 32 \<Longrightarrow> sscanf_uint32 (itoa n) = Some (of_nat n)"
proof -
  assume n: "n < 2 ^ 32"
  have dig: "\<forall>c \<in> set (itoa n). is_digit c" using itoa_digits by blast
  then have t: "takeWhile is_digit (itoa n) = itoa n" by (simp add: takeWhile_eq_all_conv)
  have d: "dropWhile (\<lambda>c. c = CHR '' '' \<or> c = CHR 0x09) (itoa n) = itoa n"
  proof (cases "itoa n")
    case (Cons c cs)
    then have "is_digit c" using dig by simp
    then have "c \<noteq> CHR '' ''" "c \<noteq> CHR 0x09" by (auto simp: is_digit_def)
    then show ?thesis by (simp add: Cons)
  qed simp
  show ?thesis unfolding sscanf_uint32_def d t using n by (simp add: dec_value_itoa)
qed

end
