(* ===== verification/Deployments.thy ===== *)
theory Deployments
  imports Registry GoStrings
begin

text \<open>
  The deployment manager of the coordinator (\<^verbatim>\<open>coordinator/internal/deployments/deployments.go\<close>):
  the table of desired deployments, placement onto nodes, the updates and heartbeats agents send,
  routing answers for the gateway, and the reconciler. Each operation is one atomic step here; what
  can happen between its critical sections is the subject of the theory on interleavings.
\<close>

subsection \<open>State\<close>

record Replica =
  rp_DeploymentID :: string
  rp_NodeID :: string
  rp_State :: DeploymentState
  rp_HostPort :: u32
  rp_Progress :: u32
  rp_Err :: string
  rp_PlacedAt :: time
  rp_LastUpdate :: time

text \<open>A nil \<open>avoid\<close> map reads as empty and is made before it is written, so it is the empty map.\<close>

record Deployment =
  dp_ID :: string
  dp_Spec :: DeploymentSpec
  dp_Replica :: "Replica option"
  dp_avoid :: "string \<rightharpoonup> time"

record Manager =
  deploy :: "string \<rightharpoonup> Deployment"

definition New_Manager :: Manager where
  "New_Manager = \<lparr>deploy = Map.empty\<rparr>"

text \<open>Why a node was passed over, as the refusal spells it out for the operator.\<close>

datatype skip_reason =
    RecentlyFailed
  | NoRunner RunnerKind
  | AlreadyHosts
  | UsableVramUnknown
  | VramTooSmall u64 u64

datatype deploy_error =
    ErrNoCapacity "(string \<times> skip_reason) list"
  | ErrUnknownDeploy string
  | ErrInvalidSpec string
  | ErrReplicasUnsupp
  | ErrSendStart string

definition avoidAfterFailure :: duration where
  "avoidAfterFailure = 10 * minute"

definition lostAfter :: duration where
  "lostAfter = 60 * second"

subsection \<open>Placement\<close>

definition requiredRunner :: "DeploymentSpec option \<Rightarrow> deploy_error + RunnerKind" where
  "requiredRunner spec =
     (case GetEngine spec of
        Some (Native _) \<Rightarrow> Inr RUNNER_KIND_NATIVE_METAL
      | Some (Container _) \<Rightarrow> Inr RUNNER_KIND_DOCKER
      | None \<Rightarrow> Inl (ErrInvalidSpec ''exactly one of native/container must be set''))"

fun hasRunner :: "RunnerKind list \<Rightarrow> RunnerKind \<Rightarrow> bool" where
  "hasRunner [] want = False"
| "hasRunner (r # rs) want = (if r = want then True else hasRunner rs want)"

text \<open>The set of nodes other deployments sit on; \<open>dord\<close> is the order the table is ranged over.\<close>

definition occupied :: "string list \<Rightarrow> Manager \<Rightarrow> string \<Rightarrow> string list" where
  "occupied dord m dID =
     List.map_filter (\<lambda>other. if dp_ID other \<noteq> dID then map_option rp_NodeID (dp_Replica other) else None)
       (range_vals dord (deploy m))"

text \<open>The loop over the registry snapshot, with the reasons collected so far.\<close>

fun select_loop ::
  "time \<Rightarrow> RunnerKind \<Rightarrow> (string \<rightharpoonup> time) \<Rightarrow> string list \<Rightarrow> u64 \<Rightarrow> Node list
     \<Rightarrow> (string \<times> skip_reason) list \<Rightarrow> deploy_error + Node" where
  "select_loop now kind avoid occ minVRAM [] skipped = Inl (ErrNoCapacity skipped)"
| "select_loop now kind avoid occ minVRAM (n # ns) skipped =
     (if node_Status n \<noteq> NODE_STATUS_ONLINE \<or> node_Send n = None
      then select_loop now kind avoid occ minVRAM ns skipped
      else if (case avoid (node_ID n) of None \<Rightarrow> False | Some until \<Rightarrow> now < until)
      then select_loop now kind avoid occ minVRAM ns (skipped @ [(node_ID n, RecentlyFailed)])
      else if \<not> hasRunner (GetRunners (node_System n)) kind
      then select_loop now kind avoid occ minVRAM ns (skipped @ [(node_ID n, NoRunner kind)])
      else if node_ID n \<in> set occ
      then select_loop now kind avoid occ minVRAM ns (skipped @ [(node_ID n, AlreadyHosts)])
      else
        (let usable = GetUsableVramMb (node_GPU n)
         in if usable = 0
            then select_loop now kind avoid occ minVRAM ns (skipped @ [(node_ID n, UsableVramUnknown)])
            else if 0 < minVRAM \<and> usable < minVRAM
            then select_loop now kind avoid occ minVRAM ns
                   (skipped @ [(node_ID n, VramTooSmall usable minVRAM)])
            else Inr n))"

definition selectNode ::
  "string list \<Rightarrow> string list \<Rightarrow> time \<Rightarrow> Registry \<Rightarrow> Deployment \<Rightarrow> RunnerKind \<Rightarrow> Manager
     \<Rightarrow> deploy_error + Node" where
  "selectNode dord nord now reg d kind m =
     select_loop now kind (dp_avoid d) (occupied dord m (dp_ID d)) (spec_min_vram_mb (dp_Spec d))
       (Snapshot nord reg) []"

text \<open>
  The new replica is written through the pointer to the deployment, that is to the table entry of
  that deployment when it is still there.
\<close>

definition set_replica :: "string \<Rightarrow> Replica option \<Rightarrow> Manager \<Rightarrow> Manager" where
  "set_replica dID rep m =
     (case deploy m dID of
        None \<Rightarrow> m
      | Some d \<Rightarrow> m\<lparr>deploy := (deploy m)(dID \<mapsto> d\<lparr>dp_Replica := rep\<rparr>)\<rparr>)"

definition new_replica :: "string \<Rightarrow> string \<Rightarrow> time \<Rightarrow> Replica" where
  "new_replica dID nodeID now =
     \<lparr>rp_DeploymentID = dID, rp_NodeID = nodeID, rp_State = DEPLOYMENT_STATE_PULLING,
      rp_HostPort = 0, rp_Progress = 0, rp_Err = [], rp_PlacedAt = now, rp_LastUpdate = now\<rparr>"

definition place ::
  "string list \<Rightarrow> string list \<Rightarrow> time \<Rightarrow> network \<Rightarrow> Registry \<Rightarrow> Deployment \<Rightarrow> RunnerKind
     \<Rightarrow> Manager \<times> outbox \<Rightarrow> (Manager \<times> outbox) \<times> deploy_error option" where
  "place dord nord now net reg d kind mo =
     (let (m, ob) = mo
      in case selectNode dord nord now reg d kind m of
           Inl e \<Rightarrow> ((m, ob), Some e)
         | Inr node \<Rightarrow>
             (let (ob', ok) = stream_Send net ob (the (node_Send node))
                                (CM_StartDeployment (Some (dp_Spec d)))
              in if \<not> ok then ((m, ob'), Some (ErrSendStart (node_ID node)))
                 else ((set_replica (dp_ID d) (Some (new_replica (dp_ID d) (node_ID node) now)) m, ob'),
                       None)))"

subsection \<open>Operations of the admin service\<close>

definition Create ::
  "string \<Rightarrow> string list \<Rightarrow> string list \<Rightarrow> time \<Rightarrow> network \<Rightarrow> Registry \<Rightarrow> DeploymentSpec option \<Rightarrow> u32
     \<Rightarrow> Manager \<times> outbox \<Rightarrow> (Manager \<times> outbox) \<times> (deploy_error + string)" where
  "Create newID dord nord now net reg spec replicas mo =
     (if GetServedModelName spec = [] then (mo, Inl (ErrInvalidSpec ''served_model_name is required''))
      else if 1 < replicas then (mo, Inl ErrReplicasUnsupp)
      else case requiredRunner spec of
             Inl e \<Rightarrow> (mo, Inl e)
           | Inr kind \<Rightarrow>
               if (case GetNative spec of Some native \<Rightarrow> ne_model_file native = [] | None \<Rightarrow> False)
               then (mo, Inl (ErrInvalidSpec ''native.model_file is required''))
               else
                 (let (m, ob) = mo;
                      spec' = (the spec)\<lparr>spec_deployment_id := newID\<rparr>;
                      d = \<lparr>dp_ID = newID, dp_Spec = spec', dp_Replica = None, dp_avoid = Map.empty\<rparr>;
                      m1 = m\<lparr>deploy := (deploy m)(newID \<mapsto> d)\<rparr>
                  in (fst (place dord nord now net reg d kind (m1, ob)), Inr newID)))"

text \<open>\<open>sendStop\<close> reports whether the stop went out.\<close>

definition sendStop :: "network \<Rightarrow> Registry \<Rightarrow> string \<Rightarrow> string \<Rightarrow> outbox \<Rightarrow> outbox \<times> bool" where
  "sendStop net reg nodeID deploymentID ob =
     (case Get nodeID reg of
        None \<Rightarrow> (ob, False)
      | Some node \<Rightarrow>
          (case node_Send node of
             None \<Rightarrow> (ob, False)
           | Some str \<Rightarrow> stream_Send net ob str (CM_StopDeployment deploymentID)))"

definition Delete ::
  "network \<Rightarrow> Registry \<Rightarrow> string \<Rightarrow> Manager \<times> outbox \<Rightarrow> (Manager \<times> outbox) \<times> deploy_error option" where
  "Delete net reg dID mo =
     (let (m, ob) = mo
      in case deploy m dID of
           None \<Rightarrow> (mo, Some (ErrUnknownDeploy dID))
         | Some d \<Rightarrow>
             (let m1 = m\<lparr>deploy := (deploy m)(dID := None)\<rparr>
              in case dp_Replica d of
                   None \<Rightarrow> ((m1, ob), None)
                 | Some replica \<Rightarrow> ((m1, fst (sendStop net reg (rp_NodeID replica) dID ob)), None)))"

subsection \<open>What agents report\<close>

definition OnUpdate ::
  "time \<Rightarrow> network \<Rightarrow> Registry \<Rightarrow> string \<Rightarrow> DeploymentUpdate \<Rightarrow> Manager \<times> outbox \<Rightarrow> Manager \<times> outbox" where
  "OnUpdate now net reg nodeID upd mo =
     (let (m, ob) = mo; dID = du_deployment_id upd
      in case Option.bind (deploy m dID) dp_Replica of
           None \<Rightarrow> (m, fst (sendStop net reg nodeID dID ob))
         | Some r \<Rightarrow>
             if rp_NodeID r \<noteq> nodeID then (m, fst (sendStop net reg nodeID dID ob))
             else
               (let r1 = r\<lparr>rp_State := du_state upd, rp_Progress := du_progress_percent upd,
                          rp_Err := du_error upd, rp_LastUpdate := now\<rparr>;
                    r2 = (if du_host_port upd \<noteq> 0 then r1\<lparr>rp_HostPort := du_host_port upd\<rparr> else r1)
                in (set_replica dID (Some r2) m, ob)))"

text \<open>The stops for what the node runs and nobody wants there.\<close>

fun stop_orphans ::
  "network \<Rightarrow> Registry \<Rightarrow> string \<Rightarrow> string list \<Rightarrow> string list \<Rightarrow> outbox \<Rightarrow> outbox" where
  "stop_orphans net reg nodeID wanted [] ob = ob"
| "stop_orphans net reg nodeID wanted (dID # ids) ob =
     (if dID \<notin> set wanted
      then stop_orphans net reg nodeID wanted ids (fst (sendStop net reg nodeID dID ob))
      else stop_orphans net reg nodeID wanted ids ob)"

definition on_node :: "string \<Rightarrow> Deployment \<Rightarrow> bool" where
  "on_node nodeID d \<longleftrightarrow> (case dp_Replica d of None \<Rightarrow> False | Some r \<Rightarrow> rp_NodeID r = nodeID)"

definition vanished :: "time \<Rightarrow> string \<Rightarrow> string list \<Rightarrow> Deployment \<Rightarrow> bool" where
  "vanished now nodeID activeIDs d \<longleftrightarrow>
     (case dp_Replica d of
        None \<Rightarrow> False
      | Some r \<Rightarrow> rp_NodeID r = nodeID \<and> dp_ID d \<notin> set activeIDs \<and>
          lostAfter < time_Sub now (rp_PlacedAt r))"

definition OnHeartbeat ::
  "string list \<Rightarrow> time \<Rightarrow> network \<Rightarrow> Registry \<Rightarrow> string \<Rightarrow> string list \<Rightarrow> Manager \<times> outbox
     \<Rightarrow> Manager \<times> outbox" where
  "OnHeartbeat dord now net reg nodeID activeIDs mo =
     (let (m, ob) = mo;
          ds = range_vals dord (deploy m);
          wanted = map dp_ID (filter (on_node nodeID) ds);
          missing = map dp_ID (filter (vanished now nodeID activeIDs) ds);
          ob' = stop_orphans net reg nodeID wanted activeIDs ob
      in (fold (\<lambda>dID. set_replica dID None) missing m, ob'))"

subsection \<open>Answers for the gateway and the operator\<close>

definition Resolve :: "string list \<Rightarrow> Registry \<Rightarrow> string \<Rightarrow> Manager \<Rightarrow> ReplicaAddr list" where
  "Resolve dord reg modelName m =
     (let candidates =
            List.map_filter
              (\<lambda>d. if spec_served_model_name (dp_Spec d) \<noteq> modelName then None
                   else case dp_Replica d of
                          None \<Rightarrow> None
                        | Some r \<Rightarrow> if rp_State r \<noteq> DEPLOYMENT_STATE_READY then None
                                   else Some (dp_ID d, rp_NodeID r, rp_HostPort r))
              (range_vals dord (deploy m))
      in List.map_filter
           (\<lambda>(dID, nodeID, port).
              case Get nodeID reg of
                None \<Rightarrow> None
              | Some node \<Rightarrow>
                  if node_Status node \<noteq> NODE_STATUS_ONLINE then None
                  else if node_DataPlaneAddr node = [] then None
                  else Some \<lparr>rep_node_id = nodeID, rep_deployment_id = dID,
                             rep_addr = JoinHostPort (node_DataPlaneAddr node) (itoa (unat port))\<rparr>)
           candidates)"

definition DeployedModels :: "string list \<Rightarrow> Manager \<Rightarrow> string list" where
  "DeployedModels dord m =
     sort_keys (map (\<lambda>d. spec_served_model_name (dp_Spec d)) (range_vals dord (deploy m)))"

definition ServableModels :: "string list \<Rightarrow> Registry \<Rightarrow> Manager \<Rightarrow> string list" where
  "ServableModels dord reg m =
     filter (\<lambda>name. 0 < length (Resolve dord reg name m)) (DeployedModels dord m)"

definition List_deployments :: "string list \<Rightarrow> Manager \<Rightarrow> DeploymentSummary list" where
  "List_deployments dord m =
     map (\<lambda>d. \<lparr>ds_deployment_id = dp_ID d,
              ds_served_model_name = spec_served_model_name (dp_Spec d),
              ds_node_id = (case dp_Replica d of None \<Rightarrow> [] | Some r \<Rightarrow> rp_NodeID r),
              ds_state = (case dp_Replica d of None \<Rightarrow> DEPLOYMENT_STATE_UNSPECIFIED
                          | Some r \<Rightarrow> rp_State r)\<rparr>)
       (range_vals dord (deploy m))"

definition DeploymentIDsOn :: "string list \<Rightarrow> string \<Rightarrow> Manager \<Rightarrow> string list" where
  "DeploymentIDsOn dord nodeID m = map dp_ID (filter (on_node nodeID) (range_vals dord (deploy m)))"

subsection \<open>The reconciler\<close>

text \<open>
  The first loop of \<^verbatim>\<open>Reconcile\<close> on one entry: a replica whose node is gone, or that failed, is cleared
  once nothing was heard of it for \<open>lostAfter\<close>; after a failure the node is avoided for a while.
\<close>

definition reconcile_entry :: "time \<Rightarrow> Registry \<Rightarrow> Deployment \<Rightarrow> Deployment" where
  "reconcile_entry now reg d =
     (case dp_Replica d of
        None \<Rightarrow> d
      | Some r \<Rightarrow>
          (let gone = (case Get (rp_NodeID r) reg of
                         None \<Rightarrow> True | Some node \<Rightarrow> node_Status node \<noteq> NODE_STATUS_ONLINE)
           in if gone \<and> lostAfter < time_Sub now (rp_LastUpdate r) then d\<lparr>dp_Replica := None\<rparr>
              else if rp_State r = DEPLOYMENT_STATE_FAILED \<and> lostAfter < time_Sub now (rp_LastUpdate r)
              then d\<lparr>dp_avoid := (dp_avoid d)(rp_NodeID r \<mapsto> now + avoidAfterFailure),
                     dp_Replica := None\<rparr>
              else d))"

text \<open>
  The second loop: every deployment without a replica is placed, in the order the first loop found
  them. Each placement takes its own snapshot, hence its own iteration orders \<open>dords\<close>, \<open>nords\<close>.
\<close>

fun place_all ::
  "(string \<Rightarrow> string list) \<Rightarrow> (string \<Rightarrow> string list) \<Rightarrow> time \<Rightarrow> network \<Rightarrow> Registry
     \<Rightarrow> Deployment list \<Rightarrow> Manager \<times> outbox \<Rightarrow> Manager \<times> outbox" where
  "place_all dords nords now net reg [] mo = mo"
| "place_all dords nords now net reg (d # ds) mo =
     (case requiredRunner (Some (dp_Spec d)) of
        Inl e \<Rightarrow> place_all dords nords now net reg ds mo
      | Inr kind \<Rightarrow>
          place_all dords nords now net reg ds
            (fst (place (dords (dp_ID d)) (nords (dp_ID d)) now net reg d kind mo)))"

definition Reconcile ::
  "string list \<Rightarrow> (string \<Rightarrow> string list) \<Rightarrow> (string \<Rightarrow> string list) \<Rightarrow> time \<Rightarrow> network \<Rightarrow> Registry
     \<Rightarrow> Manager \<times> outbox \<Rightarrow> Manager \<times> outbox" where
  "Reconcile dord dords nords now net reg mo =
     (let (m, ob) = mo;
          m1 = m\<lparr>deploy := sweep (reconcile_entry now reg) dord (deploy m)\<rparr>;
          toPlace = filter (\<lambda>d. dp_Replica d = None) (range_vals dord (deploy m1))
      in place_all dords nords now net reg toPlace (m1, ob))"

subsection \<open>Placement is a search for an eligible node\<close>

text \<open>What a node must offer to host a deployment, independently of how the code looks for it.\<close>

definition eligible ::
  "time \<Rightarrow> RunnerKind \<Rightarrow> (string \<rightharpoonup> time) \<Rightarrow> string set \<Rightarrow> u64 \<Rightarrow> Node \<Rightarrow> bool" where
  "eligible now kind avoid occ minVRAM n \<longleftrightarrow>
     node_Status n = NODE_STATUS_ONLINE \<and> node_Send n \<noteq> None \<and>
     (\<forall>until. avoid (node_ID n) = Some until \<longrightarrow> until \<le> now) \<and>
     kind \<in> set (GetRunners (node_System n)) \<and>
     node_ID n \<notin> occ \<and>
     0 < GetUsableVramMb (node_GPU n) \<and> minVRAM \<le> GetUsableVramMb (node_GPU n)"

lemma hasRunner_iff [simp]: "hasRunner rs want \<longleftrightarrow> want \<in> set rs"
  by (induction rs) auto

lemma select_loop_find:
  "find (eligible now kind avoid (set occ) minVRAM) ns =
     (case select_loop now kind avoid occ minVRAM ns skipped of Inl _ \<Rightarrow> None | Inr n \<Rightarrow> Some n)"
  by (induction ns arbitrary: skipped)
    (auto simp: eligible_def word_neq_0_conv not_less not_le split: option.splits)

lemma select_loop_error:
  "select_loop now kind avoid occ minVRAM ns skipped = Inl e \<Longrightarrow> \<exists>sk. e = ErrNoCapacity sk"
  by (induction ns arbitrary: skipped) (auto split: if_splits option.splits)

text \<open>The node a deployment is placed on, if any.\<close>

definition host_of :: "Manager \<Rightarrow> string \<Rightarrow> string option" where
  "host_of m k = Option.bind (deploy m k) (\<lambda>d. map_option rp_NodeID (dp_Replica d))"

definition others_nodes :: "Manager \<Rightarrow> string \<Rightarrow> string set" where
  "others_nodes m dID = {n. \<exists>k. k \<noteq> dID \<and> host_of m k = Some n}"

lemma set_occupied:
  "map_order dord (deploy m) \<Longrightarrow> keyed dp_ID (deploy m) \<Longrightarrow>
     set (occupied dord m dID) = others_nodes m dID"
proof -
  assume o: "map_order dord (deploy m)" and k: "keyed dp_ID (deploy m)"
  have "set (occupied dord m dID) =
    {n. \<exists>d \<in> ran (deploy m). dp_ID d \<noteq> dID \<and> map_option rp_NodeID (dp_Replica d) = Some n}"
    by (auto simp: occupied_def set_map_filter range_vals_order [OF o] split: if_splits)
  also have "\<dots> = others_nodes m dID"
    using keyedD [OF k] by (auto simp: others_nodes_def host_of_def ran_def bind_eq_Some_conv)
  finally show ?thesis .
qed

abbreviation eligible_for :: "time \<Rightarrow> RunnerKind \<Rightarrow> Manager \<Rightarrow> Deployment \<Rightarrow> Node \<Rightarrow> bool" where
  "eligible_for now kind m d \<equiv>
     eligible now kind (dp_avoid d) (others_nodes m (dp_ID d)) (spec_min_vram_mb (dp_Spec d))"

lemma selectNode_find:
  "map_order dord (deploy m) \<Longrightarrow> keyed dp_ID (deploy m) \<Longrightarrow>
     find (eligible_for now kind m d) (Snapshot nord reg) =
       (case selectNode dord nord now reg d kind m of Inl _ \<Rightarrow> None | Inr n \<Rightarrow> Some n)"
  unfolding selectNode_def by (simp add: set_occupied [symmetric] select_loop_find)

lemma selectNode_Inr:
  assumes "map_order dord (deploy m)" "keyed dp_ID (deploy m)" "directory_valid nord reg"
    and "selectNode dord nord now reg d kind m = Inr n"
  shows "Get (node_ID n) reg = Some n \<and> eligible_for now kind m d n"
proof -
  have "find (eligible_for now kind m d) (Snapshot nord reg) = Some n"
    using assms(4) by (simp add: selectNode_find [OF assms(1,2)])
  then show ?thesis by (rule directory.find_sound [OF assms(3)])
qed

lemma selectNode_Inl:
  assumes "map_order dord (deploy m)" "keyed dp_ID (deploy m)" "directory_valid nord reg"
  shows "(\<exists>e. selectNode dord nord now reg d kind m = Inl e) \<longleftrightarrow>
    (\<forall>k n. Get k reg = Some n \<longrightarrow> \<not> eligible_for now kind m d n)"
  using directory.find_complete [OF assms(3), of "eligible_for now kind m d"]
    selectNode_find [OF assms(1,2), of now kind d nord reg]
  by (cases "selectNode dord nord now reg d kind m") auto

end
