(* ===== verification/Placement.thy ===== *)
theory Placement
  imports Deployments
begin

text \<open>
  What the deployment manager promises, stated without replicas, clocks or messages: an assignment of
  deployments to nodes in which no node ever hosts two. The operations of \<open>Deployments\<close> refine it.
\<close>

subsection \<open>The abstract assignment\<close>

text \<open>\<open>a k = Some None\<close>: desired but unplaced; \<open>a k = Some (Some n)\<close>: placed on node \<open>n\<close>.\<close>

type_synonym assignment = "string \<rightharpoonup> string option"

inductive assign_step :: "assignment \<Rightarrow> assignment \<Rightarrow> bool" where
  add: "k \<notin> dom a \<Longrightarrow> assign_step a (a(k \<mapsto> None))"
| drop: "assign_step a (a(k := None))"
| occupy: "a k = Some None \<Longrightarrow> \<forall>k'. a k' \<noteq> Some (Some n) \<Longrightarrow> assign_step a (a(k \<mapsto> Some n))"
| release: "a k = Some (Some n) \<Longrightarrow> assign_step a (a(k \<mapsto> None))"

inductive_cases assign_stepE: "assign_step a b"

definition exclusive :: "assignment \<Rightarrow> bool" where
  "exclusive a \<longleftrightarrow> (\<forall>k k' n. a k = Some (Some n) \<longrightarrow> a k' = Some (Some n) \<longrightarrow> k = k')"

lemma exclusive_step: "exclusive a \<Longrightarrow> assign_step a b \<Longrightarrow> exclusive b"
  unfolding exclusive_def by (erule assign_stepE) (auto split: if_splits)

interpretation assignment: inductive_invariant "\<lambda>a. a = Map.empty" assign_step exclusive
  by unfold_locales (simp add: exclusive_def, rule exclusive_step)

subsection \<open>The abstraction of a manager state\<close>

definition placement_of :: "Deployment \<Rightarrow> string option" where
  "placement_of d = map_option rp_NodeID (dp_Replica d)"

definition abs_manager :: "Manager \<Rightarrow> assignment" where
  "abs_manager m = (\<lambda>k. map_option placement_of (deploy m k))"

lemma abs_manager_host: "abs_manager m k = Some (Some n) \<longleftrightarrow> host_of m k = Some n"
  by (auto simp: abs_manager_def host_of_def placement_of_def bind_eq_Some_conv)

lemma abs_set_replica:
  "k \<in> dom (deploy m) \<Longrightarrow>
     abs_manager (set_replica k rep m) = (abs_manager m)(k \<mapsto> map_option rp_NodeID rep)"
  by (rule ext) (auto simp: abs_manager_def set_replica_def placement_of_def)

lemma set_replica_frame [simp]: "k' \<noteq> k \<Longrightarrow> deploy (set_replica k rep m) k' = deploy m k'"
  by (simp add: set_replica_def split: option.split)

lemma dom_set_replica [simp]: "dom (deploy (set_replica k rep m)) = dom (deploy m)"
  by (auto simp: set_replica_def split: option.splits)

lemma set_replica_absent [simp]: "k \<notin> dom (deploy m) \<Longrightarrow> set_replica k rep m = m"
  by (auto simp: set_replica_def split: option.splits)

subsection \<open>The table invariant\<close>

definition deployment_ok :: "string \<Rightarrow> Deployment \<Rightarrow> bool" where
  "deployment_ok k d \<longleftrightarrow>
     dp_ID d = k \<and> spec_deployment_id (dp_Spec d) = k \<and> spec_served_model_name (dp_Spec d) \<noteq> [] \<and>
     spec_engine (dp_Spec d) \<noteq> None \<and>
     (\<forall>r. dp_Replica d = Some r \<longrightarrow> rp_DeploymentID r = k)"

definition manager_inv :: "Manager \<Rightarrow> bool" where
  "manager_inv m \<longleftrightarrow> (\<forall>k d. deploy m k = Some d \<longrightarrow> deployment_ok k d)"

lemma manager_invD: "manager_inv m \<Longrightarrow> deploy m k = Some d \<Longrightarrow> deployment_ok k d"
  by (simp add: manager_inv_def)

lemma manager_inv_keyed: "manager_inv m \<Longrightarrow> keyed dp_ID (deploy m)"
  by (simp add: manager_inv_def keyed_def deployment_ok_def)

lemma manager_inv_New [inv_intros]: "manager_inv New_Manager"
  by (simp add: manager_inv_def New_Manager_def)

lemma manager_inv_set_replica [inv_intros]:
  "manager_inv m \<Longrightarrow> (\<And>r. rep = Some r \<Longrightarrow> rp_DeploymentID r = k) \<Longrightarrow> manager_inv (set_replica k rep m)"
  by (auto simp: manager_inv_def set_replica_def deployment_ok_def split: option.splits)

lemma manager_inv_place [inv_intros]:
  "manager_inv (fst mo) \<Longrightarrow> manager_inv (fst (fst (place dord nord now net reg d kind mo)))"
  by (auto simp: place_def stream_Send_def new_replica_def intro: inv_intros split: prod.split sum.split)

text \<open>When a create is refused, and the entry it otherwise adds.\<close>

definition spec_refused :: "DeploymentSpec option \<Rightarrow> u32 \<Rightarrow> bool" where
  "spec_refused spec replicas \<longleftrightarrow>
     GetServedModelName spec = [] \<or> 1 < replicas \<or> GetEngine spec = None \<or>
     (\<exists>n. GetEngine spec = Some (Native n) \<and> ne_model_file n = [])"

definition fresh_deployment :: "string \<Rightarrow> DeploymentSpec option \<Rightarrow> Deployment" where
  "fresh_deployment newID spec =
     \<lparr>dp_ID = newID, dp_Spec = (the spec)\<lparr>spec_deployment_id := newID\<rparr>, dp_Replica = None,
      dp_avoid = Map.empty\<rparr>"

lemma Create_refused:
  "spec_refused spec replicas \<Longrightarrow> \<exists>e. Create newID dord nord now net reg spec replicas mo = (mo, Inl e)"
  by (cases "GetEngine spec")
    (auto simp: Create_def spec_refused_def requiredRunner_def GetNative_def split: Engine.splits)

lemma Create_accepted:
  assumes "\<not> spec_refused spec replicas"
  shows "\<exists>kind. requiredRunner spec = Inr kind \<and>
    Create newID dord nord now net reg spec replicas (m, ob) =
      (fst (place dord nord now net reg (fresh_deployment newID spec) kind
         (m\<lparr>deploy := (deploy m)(newID \<mapsto> fresh_deployment newID spec)\<rparr>, ob)), Inr newID)"
proof -
  from assms obtain e where e: "GetEngine spec = Some e" by (auto simp: spec_refused_def)
  from assms have "GetServedModelName spec \<noteq> []" "\<not> 1 < replicas" by (auto simp: spec_refused_def)
  then show ?thesis
    using assms e
    by (cases e) (simp_all add: Create_def spec_refused_def requiredRunner_def GetNative_def fresh_deployment_def)
qed

lemma manager_inv_fresh:
  "manager_inv m \<Longrightarrow> \<not> spec_refused spec replicas \<Longrightarrow>
     manager_inv (m\<lparr>deploy := (deploy m)(newID \<mapsto> fresh_deployment newID spec)\<rparr>)"
  by (cases spec) (auto simp: spec_refused_def fresh_deployment_def manager_inv_def deployment_ok_def)

lemma manager_inv_Create [inv_intros]:
  assumes "manager_inv (fst mo)"
  shows "manager_inv (fst (fst (Create newID dord nord now net reg spec replicas mo)))"
proof (cases "spec_refused spec replicas")
  case True
  with assms show ?thesis
    using Create_refused [of spec replicas newID dord nord now net reg mo] by auto
next
  case False
  obtain m ob where mo: "mo = (m, ob)" by (cases mo)
  from Create_accepted [OF False, of newID dord nord now net reg m ob] show ?thesis
    using assms mo manager_inv_fresh [OF _ False] by (auto intro!: manager_inv_place)
qed

lemma manager_inv_Delete [inv_intros]:
  "manager_inv (fst mo) \<Longrightarrow> manager_inv (fst (fst (Delete net reg dID mo)))"
  by (auto simp: Delete_def manager_inv_def split: prod.split option.split)

lemma manager_inv_OnUpdate [inv_intros]:
  "manager_inv (fst mo) \<Longrightarrow> manager_inv (fst (OnUpdate now net reg nodeID upd mo))"
  by (cases mo)
    (auto simp: OnUpdate_def bind_eq_Some_conv deployment_ok_def intro!: manager_inv_set_replica
      dest: manager_invD split: option.split)

lemma manager_inv_unplaced:
  "manager_inv m \<Longrightarrow> manager_inv (fold (\<lambda>dID. set_replica dID None) ids m)"
  by (induction ids arbitrary: m) (auto intro: inv_intros)

lemma manager_inv_OnHeartbeat [inv_intros]:
  "manager_inv (fst mo) \<Longrightarrow> manager_inv (fst (OnHeartbeat dord now net reg nodeID active mo))"
  by (auto simp: OnHeartbeat_def intro: manager_inv_unplaced split: prod.split)

lemma deployment_ok_reconcile:
  "deployment_ok k d \<Longrightarrow> deployment_ok k (reconcile_entry now reg d)"
  by (auto simp: reconcile_entry_def deployment_ok_def split: option.split)

lemma manager_inv_swept:
  assumes "manager_inv m"
  shows "manager_inv (m\<lparr>deploy := sweep (reconcile_entry now reg) dord (deploy m)\<rparr>)"
  unfolding manager_inv_def
  using sweep_entries [where P = deployment_ok and upd = "reconcile_entry now reg"]
    deployment_ok_reconcile manager_invD [OF assms]
  by (metis Manager.select_convs(1) Manager.update_convs(1) Manager.surjective)

lemma manager_inv_place_all [inv_intros]:
  "manager_inv (fst mo) \<Longrightarrow> manager_inv (fst (place_all dords nords now net reg ds mo))"
proof (induction ds arbitrary: mo)
  case (Cons d ds)
  have "manager_inv (fst (fst (place (dords (dp_ID d)) (nords (dp_ID d)) now net reg d kind mo)))"
    for kind using Cons.prems by (rule manager_inv_place)
  then show ?case using Cons by (auto split: sum.split)
qed simp

lemma manager_inv_Reconcile [inv_intros]:
  "manager_inv (fst mo) \<Longrightarrow> manager_inv (fst (Reconcile dord dords nords now net reg mo))"
  by (auto simp: Reconcile_def intro!: manager_inv_place_all manager_inv_swept split: prod.split)

subsection \<open>Refinement, operation by operation\<close>

lemma release_or_stutter:
  assumes "k \<in> dom (deploy m)"
  shows "assign_step\<^sup>*\<^sup>* (abs_manager m) ((abs_manager m)(k \<mapsto> None))"
proof (cases "abs_manager m k")
  case None
  with assms show ?thesis by (auto simp: abs_manager_def)
next
  case (Some p)
  show ?thesis
  proof (cases p)
    case None
    with Some have "(abs_manager m)(k \<mapsto> None) = abs_manager m" by auto
    then show ?thesis by simp
  next
    case (Some n)
    with \<open>abs_manager m k = Some p\<close> show ?thesis by (auto intro: assign_step.release)
  qed
qed

lemma refine_unplaced:
  "assign_step\<^sup>*\<^sup>* (abs_manager m) (abs_manager (fold (\<lambda>dID. set_replica dID None) ids m))"
proof (induction ids arbitrary: m)
  case (Cons k ids)
  have "assign_step\<^sup>*\<^sup>* (abs_manager m) (abs_manager (set_replica k None m))"
    by (cases "k \<in> dom (deploy m)") (simp_all add: abs_set_replica release_or_stutter)
  then show ?case using Cons.IH [of "set_replica k None m"] by simp
qed simp

lemma place_result:
  "(\<exists>ob'. fst (place dord nord now net reg d kind (m, ob)) = (m, ob')) \<or>
   (\<exists>rep ob'. fst (place dord nord now net reg d kind (m, ob)) =
      (set_replica (dp_ID d) (Some rep) m, ob'))"
  by (auto simp: place_def stream_Send_def split: sum.split)

lemma place_frame:
  "k \<noteq> dp_ID d \<Longrightarrow> deploy (fst (fst (place dord nord now net reg d kind mo))) k = deploy (fst mo) k"
  "dom (deploy (fst (fst (place dord nord now net reg d kind mo)))) = dom (deploy (fst mo))"
  by (auto simp: place_def stream_Send_def split: prod.split sum.split)

text \<open>An unplaced entry is occupied or stays as it is.\<close>

lemma refine_place:
  assumes inv: "manager_inv (fst mo)" and ord: "map_order dord (deploy (fst mo))"
    and reg: "directory_valid nord reg"
    and un: "abs_manager (fst mo) (dp_ID d) = Some None"
  shows "assign_step\<^sup>*\<^sup>* (abs_manager (fst mo))
    (abs_manager (fst (fst (place dord nord now net reg d kind mo))))"
proof -
  obtain m ob where mo: "mo = (m, ob)" by (cases mo)
  show ?thesis
  proof (cases "selectNode dord nord now reg d kind m")
    case (Inl e)
    then show ?thesis by (simp add: mo place_def)
  next
    case (Inr n)
    have el: "eligible_for now kind m d n"
      using selectNode_Inr [OF _ _ reg Inr] ord inv manager_inv_keyed mo by simp
    have free: "\<forall>k'. abs_manager m k' \<noteq> Some (Some (node_ID n))"
    proof (intro allI notI)
      fix k' assume "abs_manager m k' = Some (Some (node_ID n))"
      moreover from this have "k' \<noteq> dp_ID d" using un mo by auto
      ultimately have "node_ID n \<in> others_nodes m (dp_ID d)"
        by (auto simp: abs_manager_host others_nodes_def)
      with el show False by (simp add: eligible_def)
    qed
    have dom: "dp_ID d \<in> dom (deploy m)" using un mo by (auto simp: abs_manager_def)
    have "assign_step (abs_manager m) ((abs_manager m)(dp_ID d \<mapsto> Some (node_ID n)))"
      using un mo free by (auto intro: assign_step.occupy)
    then show ?thesis
      using dom Inr by (auto simp: mo place_def stream_Send_def abs_set_replica new_replica_def)
  qed
qed

definition unplaced_in :: "Manager \<Rightarrow> Deployment list \<Rightarrow> bool" where
  "unplaced_in m ds \<longleftrightarrow> distinct (map dp_ID ds) \<and> (\<forall>d \<in> set ds. abs_manager m (dp_ID d) = Some None)"

lemma unplaced_in_tl: "unplaced_in m (d # ds) \<Longrightarrow> unplaced_in m ds"
  by (simp add: unplaced_in_def)

lemma unplaced_in_place:
  assumes "unplaced_in (fst mo) (d # ds)"
  shows "unplaced_in (fst (fst (place dord nord now net reg d kind mo))) ds"
proof -
  have "abs_manager (fst (fst (place dord nord now net reg d kind mo))) (dp_ID d') = Some None"
    if "d' \<in> set ds" for d'
  proof -
    have "dp_ID d' \<noteq> dp_ID d" using that assms by (auto simp: unplaced_in_def) (metis imageI)
    then show ?thesis
      using that assms by (simp add: unplaced_in_def abs_manager_def place_frame)
  qed
  then show ?thesis using assms by (simp add: unplaced_in_def)
qed

lemma refine_place_all:
  assumes "manager_inv (fst mo)" and "\<forall>k. map_order (dords k) (deploy (fst mo))"
    and "\<forall>k. directory_valid (nords k) reg" and "unplaced_in (fst mo) ds"
  shows "assign_step\<^sup>*\<^sup>* (abs_manager (fst mo)) (abs_manager (fst (place_all dords nords now net reg ds mo)))"
  using assms
proof (induction ds arbitrary: mo)
  case (Cons d ds)
  show ?case
  proof (cases "requiredRunner (Some (dp_Spec d))")
    case (Inl e)
    with Cons show ?thesis by (auto simp: unplaced_in_def)
  next
    case (Inr kind)
    let ?mo = "fst (place (dords (dp_ID d)) (nords (dp_ID d)) now net reg d kind mo)"
    have "unplaced_in (fst ?mo) ds" by (rule unplaced_in_place [OF Cons.prems(4)])
    moreover have "\<forall>k. map_order (dords k) (deploy (fst ?mo))"
      using Cons.prems(2) map_order_cong [OF place_frame(2)] by blast
    ultimately have "assign_step\<^sup>*\<^sup>* (abs_manager (fst ?mo))
        (abs_manager (fst (place_all dords nords now net reg ds ?mo)))"
      using Cons.IH [of ?mo] Cons.prems(1,3) manager_inv_place by blast
    moreover have "assign_step\<^sup>*\<^sup>* (abs_manager (fst mo)) (abs_manager (fst ?mo))"
      using Cons.prems by (intro refine_place) (auto simp: unplaced_in_def)
    ultimately show ?thesis by (simp add: Inr)
  qed
qed simp

lemma placement_reconcile_entry:
  "placement_of (reconcile_entry now reg d) = placement_of d \<or>
   placement_of (reconcile_entry now reg d) = None"
  by (auto simp: reconcile_entry_def placement_of_def split: option.split)

lemma refine_swept:
  "assign_step\<^sup>*\<^sup>* (abs_manager m)
     (abs_manager (m\<lparr>deploy := sweep (reconcile_entry now reg) ks (deploy m)\<rparr>))"
proof (induction ks arbitrary: m)
  case Nil
  then show ?case by (simp add: sweep_def)
next
  case (Cons k ks)
  show ?case
  proof (cases "deploy m k")
    case None
    then show ?thesis using Cons.IH [of m] by (simp add: sweep_simps)
  next
    case (Some d)
    let ?m = "m\<lparr>deploy := (deploy m)(k \<mapsto> reconcile_entry now reg d)\<rparr>"
    have "abs_manager ?m = (abs_manager m)(k \<mapsto> placement_of (reconcile_entry now reg d))"
      by (rule ext) (simp add: abs_manager_def)
    moreover have "abs_manager m = (abs_manager m)(k \<mapsto> placement_of d)"
      using Some by (simp add: abs_manager_def fun_upd_idem)
    ultimately have "assign_step\<^sup>*\<^sup>* (abs_manager m) (abs_manager ?m)"
      using placement_reconcile_entry [of now reg d] release_or_stutter [of k m] Some
      by (auto simp: domIff)
    then show ?thesis using Cons.IH [of ?m] Some by (simp add: sweep_simps del: fun_upd_apply)
  qed
qed

lemma distinct_range_vals:
  "keyed key m \<Longrightarrow> distinct ks \<Longrightarrow> distinct (map key (range_vals ks m))"
  by (induction ks) (auto simp: set_range_vals split: option.split, metis keyedD)

lemma unplaced_in_filter:
  assumes "manager_inv m" and "map_order dord (deploy m)"
  shows "unplaced_in m (filter (\<lambda>d. dp_Replica d = None) (range_vals dord (deploy m)))"
proof -
  have "distinct (map dp_ID (range_vals dord (deploy m)))"
    using assms manager_inv_keyed by (intro distinct_range_vals) (auto simp: map_order_def)
  then show ?thesis
    using manager_inv_keyed [OF assms(1)]
    by (auto simp: unplaced_in_def distinct_map_filter set_range_vals abs_manager_def placement_of_def
        dest!: keyedD)
qed

lemma refine_Reconcile:
  assumes inv: "manager_inv (fst mo)" and ord: "map_order dord (deploy (fst mo))"
    and ords: "\<forall>k. map_order (dords k) (deploy (fst mo))" and reg: "\<forall>k. directory_valid (nords k) reg"
  shows "assign_step\<^sup>*\<^sup>* (abs_manager (fst mo))
    (abs_manager (fst (Reconcile dord dords nords now net reg mo)))"
proof -
  obtain m ob where mo: "mo = (m, ob)" by (cases mo)
  let ?m = "m\<lparr>deploy := sweep (reconcile_entry now reg) dord (deploy m)\<rparr>"
  let ?ds = "filter (\<lambda>d. dp_Replica d = None) (range_vals dord (deploy ?m))"
  have inv': "manager_inv ?m" using inv mo by (simp add: manager_inv_swept)
  have "unplaced_in ?m ?ds"
    using unplaced_in_filter [OF inv', of dord] ord mo by (simp add: map_order_def)
  moreover have "\<forall>k. map_order (dords k) (deploy ?m)"
    using ords mo by (simp add: map_order_def)
  ultimately have "assign_step\<^sup>*\<^sup>* (abs_manager ?m)
      (abs_manager (fst (place_all dords nords now net reg ?ds (?m, ob))))"
    using refine_place_all [of "(?m, ob)"] inv' reg by simp
  then show ?thesis
    using refine_swept [of m now reg dord] by (simp add: mo Reconcile_def)
qed

lemma refine_Create:
  assumes inv: "manager_inv (fst mo)" and fresh: "newID \<notin> dom (deploy (fst mo))"
    and ord: "distinct dord" "set dord = insert newID (dom (deploy (fst mo)))"
    and reg: "directory_valid nord reg"
  shows "assign_step\<^sup>*\<^sup>* (abs_manager (fst mo))
    (abs_manager (fst (fst (Create newID dord nord now net reg spec replicas mo))))"
proof (cases "spec_refused spec replicas")
  case True
  then show ?thesis
    using Create_refused [of spec replicas newID dord nord now net reg mo] by auto
next
  case False
  obtain m ob where mo: "mo = (m, ob)" by (cases mo)
  let ?d = "fresh_deployment newID spec"
  let ?m = "m\<lparr>deploy := (deploy m)(newID \<mapsto> ?d)\<rparr>"
  have new: "abs_manager ?m = (abs_manager m)(newID \<mapsto> None)"
    by (rule ext) (simp add: abs_manager_def placement_of_def fresh_deployment_def)
  have "newID \<notin> dom (abs_manager m)" using fresh mo by (auto simp: abs_manager_def)
  then have add: "assign_step (abs_manager m) (abs_manager ?m)"
    unfolding new by (rule assign_step.add)
  have "assign_step\<^sup>*\<^sup>* (abs_manager ?m)
      (abs_manager (fst (fst (place dord nord now net reg ?d kind (?m, ob)))))" for kind
    using refine_place [of "(?m, ob)" dord nord reg ?d now net kind] manager_inv_fresh [OF _ False]
      inv ord reg new mo
    by (simp add: map_order_def fresh_deployment_def)
  then show ?thesis
    using Create_accepted [OF False, of newID dord nord now net reg m ob] add mo
    by (auto intro: converse_rtranclp_into_rtranclp)
qed

lemma abs_manager_delete:
  "abs_manager (m\<lparr>deploy := (deploy m)(dID := None)\<rparr>) = (abs_manager m)(dID := None)"
  by (rule ext) (simp add: abs_manager_def)

lemma refine_Delete:
  "assign_step\<^sup>*\<^sup>* (abs_manager (fst mo)) (abs_manager (fst (fst (Delete net reg dID mo))))"
  by (cases mo)
    (auto simp: Delete_def abs_manager_delete intro: assign_step.drop split: option.split)

lemma refine_OnUpdate:
  "abs_manager (fst (OnUpdate now net reg nodeID upd mo)) = abs_manager (fst mo)"
  by (rule ext, cases mo)
    (auto simp: OnUpdate_def set_replica_def bind_eq_Some_conv abs_manager_def placement_of_def
      split: option.splits)

lemma refine_OnHeartbeat:
  "assign_step\<^sup>*\<^sup>* (abs_manager (fst mo)) (abs_manager (fst (OnHeartbeat dord now net reg nodeID active mo)))"
  by (cases mo) (simp add: OnHeartbeat_def refine_unplaced)

subsection \<open>The manager as a transition system\<close>

text \<open>
  One step is one operation, run to its end, against whatever the registry holds at that moment.
  Fresh IDs are the documented behaviour of \<^verbatim>\<open>uuid.NewString\<close>.
\<close>

inductive manager_step :: "Manager \<Rightarrow> Manager \<Rightarrow> bool" where
  create: "newID \<notin> dom (deploy m) \<Longrightarrow> distinct dord \<Longrightarrow> set dord = insert newID (dom (deploy m)) \<Longrightarrow>
     directory_valid nord reg \<Longrightarrow>
     manager_step m (fst (fst (Create newID dord nord now net reg spec replicas (m, ob))))"
| delete: "manager_step m (fst (fst (Delete net reg dID (m, ob))))"
| update: "manager_step m (fst (OnUpdate now net reg nodeID upd (m, ob)))"
| heartbeat: "map_order dord (deploy m) \<Longrightarrow>
     manager_step m (fst (OnHeartbeat dord now net reg nodeID active (m, ob)))"
| reconcile: "map_order dord (deploy m) \<Longrightarrow> \<forall>k. map_order (dords k) (deploy m) \<Longrightarrow>
     \<forall>k. directory_valid (nords k) reg \<Longrightarrow>
     manager_step m (fst (Reconcile dord dords nords now net reg (m, ob)))"

inductive_cases manager_stepE: "manager_step m m'"

lemma manager_step_inv: "manager_inv m \<Longrightarrow> manager_step m m' \<Longrightarrow> manager_inv m'"
  by (erule manager_stepE) (auto intro!: inv_intros)

lemma manager_step_refines:
  assumes "manager_inv m" and "manager_step m m'"
  shows "assign_step\<^sup>*\<^sup>* (abs_manager m) (abs_manager m')"
  using assms(2,1)
proof (cases rule: manager_step.cases)
  case (create newID dord nord reg now net spec replicas ob)
  then show ?thesis using assms(1) refine_Create [of "(m, ob)"] by simp
next
  case (delete net reg dID ob)
  then show ?thesis using refine_Delete [of "(m, ob)"] by simp
next
  case (update now net reg nodeID upd ob)
  then show ?thesis by (simp add: refine_OnUpdate)
next
  case (heartbeat dord now net reg nodeID active ob)
  then show ?thesis using refine_OnHeartbeat [of "(m, ob)"] by simp
next
  case (reconcile dord dords nords reg now net ob)
  then show ?thesis using assms(1) refine_Reconcile [of "(m, ob)"] by simp
qed

definition placement_inv :: "Manager \<Rightarrow> bool" where
  "placement_inv m \<longleftrightarrow> manager_inv m \<and> exclusive (abs_manager m)"

interpretation placement: inductive_invariant "\<lambda>m. m = New_Manager" manager_step placement_inv
proof unfold_locales
  show "placement_inv m" if "m = New_Manager" for m
    using that manager_inv_New
    by (simp add: placement_inv_def) (simp add: exclusive_def abs_manager_def New_Manager_def)
  show "placement_inv m'" if "placement_inv m" "manager_step m m'" for m m'
    using that manager_step_inv assignment.run_inv [OF _ manager_step_refines]
    by (auto simp: placement_inv_def)
qed

end
