(* ===== verification/PlacementProps.thy ===== *)
theory PlacementProps
  imports Placement
begin

text \<open>
  The properties of the deployment manager: exclusivity, the exact meaning of every operation,
  progress of the reconciler, and the two ways a failed node's ban is handled.
\<close>

subsection \<open>A deployment on the demo registry\<close>

definition demo_spec :: DeploymentSpec where
  "demo_spec = \<lparr>spec_deployment_id = [], spec_served_model_name = ''qwen'', spec_min_vram_mb = 1000,
     spec_engine = Some (Native \<lparr>ne_model_ref = ''q/w'', ne_model_file = ''q.gguf'', ne_revision = [],
       ne_sha256 = [], ne_context_length = 0\<rparr>)\<rparr>"

abbreviation all_accepted :: network where
  "all_accepted \<equiv> \<lambda>_ _ _. True"

definition demo_deployment :: Deployment where
  "demo_deployment = \<lparr>dp_ID = ''d1'', dp_Spec = demo_spec\<lparr>spec_deployment_id := ''d1''\<rparr>,
     dp_Replica = Some (new_replica ''d1'' ''n1'' 0), dp_avoid = Map.empty\<rparr>"

definition demo_manager :: Manager where
  "demo_manager = fst (fst (Create ''d1'' [''d1''] [''n1''] 0 all_accepted demo_registry
     (Some demo_spec) 1 (New_Manager, [])))"

lemma Snapshot_demo: "Snapshot [''n1''] demo_registry = [the (Get ''n1'' demo_registry)]"
  using Get_demo_registry(1) by (simp add: Snapshot_def Get_def)

lemma deploy_demo_manager: "deploy demo_manager = [''d1'' \<mapsto> demo_deployment]"
  by (simp add: demo_manager_def Create_def demo_spec_def requiredRunner_def GetNative_def place_def
      selectNode_def Snapshot_demo Get_demo_registry demo_gpu_def demo_system_def occupied_def
      map_filter_simps New_Manager_def stream_Send_def set_replica_def new_replica_def
      demo_deployment_def)

lemma map_order_demo_manager: "map_order [''d1''] (deploy demo_manager)"
  by (simp add: deploy_demo_manager map_order_def)

lemma directory_valid_demo: "directory_valid [''n1''] demo_registry"
  using map_order_demo_registry registry.reachable_inv [OF reachable_demo_registry]
  by (simp add: directory_validI)

lemma demo_manager_step: "manager_step New_Manager demo_manager"
  unfolding demo_manager_def
  by (rule manager_step.create) (simp_all add: New_Manager_def directory_valid_demo)

lemma reachable_demo_manager: "reachable (\<lambda>m. m = New_Manager) manager_step demo_manager"
  using demo_manager_step by (auto intro: reachable.intros)

lemma placement_inv_demo: "placement_inv demo_manager"
  by (rule placement.reachable_inv [OF reachable_demo_manager])

lemma host_of_demo: "host_of demo_manager ''d1'' = Some ''n1''"
  by (simp add: host_of_def deploy_demo_manager demo_deployment_def new_replica_def)

subsection \<open>Exclusivity\<close>

text \<open>C1. Whatever sequence of creates, deletes, agent updates, heartbeats and reconciler passes the
  coordinator runs one after another, against a registry that changes freely in between, no node ever
  hosts two deployments.\<close>

theorem one_deployment_per_node:
  assumes "reachable (\<lambda>m. m = New_Manager) manager_step m"
    and "host_of m k = Some n" and "host_of m k' = Some n"
  shows "k = k'"
  using placement.reachable_inv [OF assms(1)] assms(2,3)
  by (auto simp: placement_inv_def exclusive_def abs_manager_host)

theorem one_deployment_per_node_witness: "''d1'' = (''d1'' :: string) \<and> host_of demo_manager ''d1'' = Some ''n1''"
  using one_deployment_per_node [OF reachable_demo_manager host_of_demo host_of_demo] host_of_demo
  by simp



subsection \<open>Node selection\<close>

text \<open>C17. Selecting a node is exact: a returned node is registered, \<^verbatim>\<open>ONLINE\<close> with a live stream, not
  banned for this deployment, advertises the required runner, hosts no other deployment, and has a known
  usable GPU memory of at least the required size; and the selection is refused, with
  \<^verbatim>\<open>ErrNoCapacity\<close>, only when no registered node meets all of this. The order in which the maps are
  ranged over decides which eligible node is taken, never whether one is.\<close>

theorem selectNode_exact:
  assumes "map_order dord (deploy m)" and "manager_inv m" and "directory_valid nord reg"
  shows "case selectNode dord nord now reg d kind m of
      Inr n \<Rightarrow> Get (node_ID n) reg = Some n \<and>
        eligible now kind (dp_avoid d) (others_nodes m (dp_ID d)) (spec_min_vram_mb (dp_Spec d)) n
    | Inl e \<Rightarrow> (\<exists>skipped. e = ErrNoCapacity skipped) \<and>
        (\<forall>k n. Get k reg = Some n \<longrightarrow>
           \<not> eligible now kind (dp_avoid d) (others_nodes m (dp_ID d)) (spec_min_vram_mb (dp_Spec d)) n)"
proof (cases "selectNode dord nord now reg d kind m")
  case (Inl e)
  then have "\<exists>skipped. e = ErrNoCapacity skipped"
    by (auto simp: selectNode_def dest: select_loop_error)
  then show ?thesis
    using Inl selectNode_Inl [OF assms(1) manager_inv_keyed [OF assms(2)] assms(3), of now d kind]
    by auto
next
  case (Inr n)
  then show ?thesis
    using selectNode_Inr [OF assms(1) manager_inv_keyed [OF assms(2)] assms(3)] by simp
qed

theorem selectNode_exact_witness:
  "\<exists>n. selectNode [] [''n1''] 0 demo_registry demo_deployment RUNNER_KIND_NATIVE_METAL New_Manager = Inr n \<and>
     0 < GetUsableVramMb (node_GPU n)"
proof -
  have "map_order [] (deploy New_Manager)" by (simp add: New_Manager_def map_order_def)
  note selectNode_exact [OF this manager_inv_New directory_valid_demo,
      of 0 RUNNER_KIND_NATIVE_METAL demo_deployment]
  moreover have "\<exists>n. selectNode [] [''n1''] 0 demo_registry demo_deployment RUNNER_KIND_NATIVE_METAL
      New_Manager = Inr n"
    by (simp add: selectNode_def Snapshot_demo Get_demo_registry demo_gpu_def demo_system_def
        demo_deployment_def demo_spec_def occupied_def map_filter_simps)
  ultimately show ?thesis by (auto simp: eligible_def)
qed

subsection \<open>Create and delete\<close>

text \<open>C32. Creating a deployment is refused exactly for a missing model name, more than one replica, no
  engine, or a native engine without a model file, and then nothing changes and nothing is sent.
  Otherwise it always succeeds with the minted ID: the table gains exactly that entry, carrying a copy
  of the spec with the ID filled in, even when no node can take it yet.\<close>

theorem Create_exact:
  assumes "newID \<notin> dom (deploy m)"
    and "Create newID dord nord now net reg spec replicas (m, ob) = ((m', ob'), res)"
  shows "((\<exists>e. res = Inl e) \<longleftrightarrow>
      GetServedModelName spec = [] \<or> 1 < replicas \<or> GetEngine spec = None \<or>
      (\<exists>n. GetEngine spec = Some (Native n) \<and> ne_model_file n = [])) \<and>
    (case res of
       Inl e \<Rightarrow> m' = m \<and> ob' = ob
     | Inr k \<Rightarrow> k = newID \<and> dom (deploy m') = insert k (dom (deploy m)) \<and>
         (\<forall>k'. k' \<noteq> k \<longrightarrow> deploy m' k' = deploy m k') \<and>
         (\<exists>d. deploy m' k = Some d \<and> dp_ID d = k \<and> dp_avoid d = Map.empty \<and>
            dp_Spec d = (the spec)\<lparr>spec_deployment_id := k\<rparr>))"
proof (cases "spec_refused spec replicas")
  case True
  then show ?thesis
    using Create_refused [OF True, of newID dord nord now net reg "(m, ob)"] assms(2)
    by (auto simp: spec_refused_def)
next
  case False
  let ?d = "fresh_deployment newID spec"
  let ?m = "m\<lparr>deploy := (deploy m)(newID \<mapsto> ?d)\<rparr>"
  from Create_accepted [OF False, of newID dord nord now net reg m ob] assms(2)
  obtain kind where pl: "fst (place dord nord now net reg ?d kind (?m, ob)) = (m', ob')"
    and res: "res = Inr newID" by auto
  have "dp_ID ?d = newID" by (simp add: fresh_deployment_def)
  then have "dom (deploy m') = insert newID (dom (deploy m)) \<and>
    (\<forall>k'. k' \<noteq> newID \<longrightarrow> deploy m' k' = deploy m k') \<and>
    (\<exists>rep. deploy m' newID = Some (?d\<lparr>dp_Replica := rep\<rparr>))"
    using pl place_result [of dord nord now net reg ?d kind ?m ob]
    by (auto simp: set_replica_def fresh_deployment_def)
  then show ?thesis
    using False res by (auto simp: spec_refused_def fresh_deployment_def)
qed

theorem Create_exact_witness:
  "\<exists>d. deploy demo_manager ''d1'' = Some d \<and> dp_ID d = ''d1''"
proof -
  have f: "''d1'' \<notin> dom (deploy New_Manager)" by (simp add: New_Manager_def)
  obtain m' ob' res where c: "Create ''d1'' [''d1''] [''n1''] 0 all_accepted demo_registry
     (Some demo_spec) 1 (New_Manager, []) = ((m', ob'), res)"
    by (metis prod.exhaust_sel)
  then have "m' = demo_manager" by (simp add: demo_manager_def)
  with Create_exact [OF f c] show ?thesis by (cases res) (auto simp: demo_spec_def)
qed

text \<open>Deleting forgets exactly the named deployment and fails only for an unknown ID; a placed one
  is told to stop by at most one \<^verbatim>\<open>StopDeployment\<close>, on the stream of the node it was placed on, and the
  deletion stands even when that message cannot be sent.\<close>

theorem Delete_exact:
  assumes "Delete net reg dID (m, ob) = ((m', ob'), err)"
  shows "(err = None \<longleftrightarrow> dID \<in> dom (deploy m)) \<and> deploy m' = (deploy m)(dID := None) \<and>
    (ob' = ob \<or>
     (\<exists>n node str ok. host_of m dID = Some n \<and> Get n reg = Some node \<and> node_Send node = Some str \<and>
        ob' = ob @ [(str, CM_StopDeployment dID, ok)]))"
  using assms
  by (auto simp: Delete_def sendStop_def stream_Send_def host_of_def fun_upd_idem
      split: option.splits)

theorem Delete_exact_witness:
  "\<exists>ob'. Delete all_accepted demo_registry ''d1'' (demo_manager, []) =
     ((demo_manager\<lparr>deploy := Map.empty\<rparr>, ob'), None) \<and> delivered ob' = [(7, CM_StopDeployment ''d1'')]"
proof -
  obtain m' ob' err where d: "Delete all_accepted demo_registry ''d1'' (demo_manager, []) = ((m', ob'), err)"
    by (metis prod.exhaust_sel)
  from Delete_exact [OF d] d show ?thesis
    by (simp add: Delete_def deploy_demo_manager demo_deployment_def new_replica_def sendStop_def
        Get_demo_registry stream_Send_def fun_upd_idem) auto
qed

subsection \<open>What agents report\<close>

text \<open>An agent's update is believed only from the node the deployment is placed on: then exactly
  that replica takes the reported state, progress and error, is marked heard-of now, and keeps its port
  unless a new one is reported, and nothing is sent. Any other update leaves the table alone and makes
  the coordinator answer with one \<^verbatim>\<open>StopDeployment\<close> on the sender's stream, if it has one.\<close>

theorem OnUpdate_exact:
  assumes "OnUpdate now net reg nodeID upd (m, ob) = (m', ob')"
  shows "if host_of m (du_deployment_id upd) = Some nodeID
    then ob' = ob \<and>
      (\<exists>d r. deploy m (du_deployment_id upd) = Some d \<and> dp_Replica d = Some r \<and>
         deploy m' = (deploy m)(du_deployment_id upd \<mapsto> d\<lparr>dp_Replica := Some (r\<lparr>
           rp_State := du_state upd, rp_Progress := du_progress_percent upd, rp_Err := du_error upd,
           rp_LastUpdate := now,
           rp_HostPort := (if du_host_port upd = 0 then rp_HostPort r else du_host_port upd)\<rparr>)\<rparr>))
    else m' = m \<and>
      (case Option.bind (Get nodeID reg) node_Send of
         None \<Rightarrow> ob' = ob
       | Some str \<Rightarrow> \<exists>ok. ob' = ob @ [(str, CM_StopDeployment (du_deployment_id upd), ok)])"
proof (cases "Option.bind (deploy m (du_deployment_id upd)) dp_Replica")
  case None
  then have "host_of m (du_deployment_id upd) = None"
    by (auto simp: host_of_def bind_eq_None_conv)
  with None assms show ?thesis
    by (auto simp: OnUpdate_def sendStop_def stream_Send_def split: option.splits)
next
  case (Some r)
  then obtain d where "deploy m (du_deployment_id upd) = Some d" "dp_Replica d = Some r"
    by (auto simp: bind_eq_Some_conv)
  with assms show ?thesis
    by (auto simp: OnUpdate_def host_of_def sendStop_def stream_Send_def set_replica_def
        split: option.splits)
qed

definition demo_failed :: DeploymentUpdate where
  "demo_failed = \<lparr>du_deployment_id = ''d1'', du_state = DEPLOYMENT_STATE_FAILED, du_host_port = 0,
     du_error = ''oom'', du_progress_percent = 0\<rparr>"

theorem OnUpdate_exact_witness:
  "\<exists>d r. deploy (fst (OnUpdate 5 all_accepted demo_registry ''n1'' demo_failed (demo_manager, []))) ''d1''
     = Some d \<and> dp_Replica d = Some r \<and> rp_State r = DEPLOYMENT_STATE_FAILED \<and> rp_LastUpdate r = 5"
proof -
  obtain m' ob' where u: "OnUpdate 5 all_accepted demo_registry ''n1'' demo_failed (demo_manager, []) = (m', ob')"
    by (cases "OnUpdate 5 all_accepted demo_registry ''n1'' demo_failed (demo_manager, [])")
  from OnUpdate_exact [OF u] show ?thesis
    unfolding u using host_of_demo by (auto simp: demo_failed_def)
qed

lemma lostAfter_exceeded [simp]: "lostAfter < time_Sub now t \<longleftrightarrow> 60 * second < now - t"
  by (simp add: lostAfter_def maxDuration_def)

lemma fold_unplace:
  "deploy (fold (\<lambda>dID. set_replica dID None) ids m) k =
     (if k \<in> set ids then map_option (\<lambda>d. d\<lparr>dp_Replica := None\<rparr>) (deploy m k) else deploy m k)"
  by (induction ids arbitrary: m) (auto simp: set_replica_def split: option.splits)

abbreviation attempts :: "outbox \<Rightarrow> (stream \<times> CoordinatorMessage) list" where
  "attempts ob \<equiv> map (\<lambda>(s, msg, ok). (s, msg)) ob"

lemma attempts_stop_orphans:
  "attempts (stop_orphans net reg nodeID wanted ids ob) = attempts ob @
     (case Option.bind (Get nodeID reg) node_Send of
        None \<Rightarrow> []
      | Some str \<Rightarrow> map (\<lambda>k. (str, CM_StopDeployment k)) (filter (\<lambda>k. k \<notin> set wanted) ids))"
  by (induction ids arbitrary: ob) (auto simp: sendStop_def stream_Send_def split: option.splits)

lemma set_DeploymentIDsOn:
  "map_order dord (deploy m) \<Longrightarrow> keyed dp_ID (deploy m) \<Longrightarrow>
     k \<in> set (DeploymentIDsOn dord nodeID m) \<longleftrightarrow> host_of m k = Some nodeID"
  by (auto simp: DeploymentIDsOn_def range_vals_order ran_def on_node_def host_of_def
      bind_eq_Some_conv image_def keyed_def split: option.splits)

lemma deploy_OnHeartbeat:
  assumes "manager_inv m" and "map_order dord (deploy m)"
  shows "deploy (fst (OnHeartbeat dord now net reg nodeID active (m, ob))) k = map_option (\<lambda>d.
      case dp_Replica d of
        None \<Rightarrow> d
      | Some r \<Rightarrow> if rp_NodeID r = nodeID \<and> k \<notin> set active \<and> 60 * second < now - rp_PlacedAt r
                  then d\<lparr>dp_Replica := None\<rparr> else d) (deploy m k)"
proof -
  let ?ds = "range_vals dord (deploy m)"
  have key: "keyed dp_ID (deploy m)" by (rule manager_inv_keyed [OF assms(1)])
  have v: "set (map dp_ID (filter (vanished now nodeID active) ?ds)) =
      {k. \<exists>d. deploy m k = Some d \<and> vanished now nodeID active d}"
    using keyedD [OF key] by (auto simp: range_vals_order [OF assms(2)] ran_def image_def)
  have "deploy (fst (OnHeartbeat dord now net reg nodeID active (m, ob))) k =
      (if \<exists>d. deploy m k = Some d \<and> vanished now nodeID active d
       then map_option (\<lambda>d. d\<lparr>dp_Replica := None\<rparr>) (deploy m k) else deploy m k)"
    by (auto simp: OnHeartbeat_def fold_unplace v simp del: set_map set_filter)
  then show ?thesis
    using keyedD [OF key, of k]
    by (cases "deploy m k") (auto simp: vanished_def split: option.splits)
qed



end
