(* ===== verification/RoutingProps.thy ===== *)
theory RoutingProps
  imports PlacementProps
begin

text \<open>
  What the gateway is told (\<^verbatim>\<open>Resolve\<close>, \<^verbatim>\<open>ServableModels\<close>) and what a reconciler pass achieves.
\<close>

subsection \<open>Routing answers\<close>

definition routable :: "Registry \<Rightarrow> Manager \<Rightarrow> string \<Rightarrow> ReplicaAddr \<Rightarrow> bool" where
  "routable reg m model rep \<longleftrightarrow>
     (\<exists>d r node. deploy m (rep_deployment_id rep) = Some d \<and>
        spec_served_model_name (dp_Spec d) = model \<and>
        dp_Replica d = Some r \<and> rp_State r = DEPLOYMENT_STATE_READY \<and> rep_node_id rep = rp_NodeID r \<and>
        Get (rp_NodeID r) reg = Some node \<and> node_Status node = NODE_STATUS_ONLINE \<and>
        node_DataPlaneAddr node \<noteq> [] \<and>
        rep_addr rep = JoinHostPort (node_DataPlaneAddr node) (itoa (unat (rp_HostPort r))))"

lemma set_Resolve:
  assumes "map_order dord (deploy m)" and "manager_inv m"
  shows "set (Resolve dord reg model m) = {rep. routable reg m model rep}"
proof -
  have k: "keyed dp_ID (deploy m)" by (rule manager_inv_keyed [OF assms(2)])
  have "rep \<in> set (Resolve dord reg model m) \<longleftrightarrow> routable reg m model rep" for rep
    using keyedD [OF k]
    by (cases rep) (fastforce simp: Resolve_def routable_def set_map_filter
        range_vals_order [OF assms(1)] ran_def split: option.splits if_splits)
  then show ?thesis by blast
qed

text \<open>C6. The gateway is offered exactly the replicas it can use: a replica is in the answer for a model
  if and only if it belongs to a deployment of that model, its agent reported it \<^verbatim>\<open>READY\<close>, and the node
  it is placed on is \<^verbatim>\<open>ONLINE\<close> with a data-plane address; the address handed out is that node's
  data-plane host joined with the port the agent reported.\<close>

theorem Resolve_exact:
  assumes "map_order dord (deploy m)" and "manager_inv m"
  shows "rep \<in> set (Resolve dord reg model m) \<longleftrightarrow> routable reg m model rep"
  by (simp add: set_Resolve [OF assms])

definition demo_ready :: Manager where
  "demo_ready = fst (OnUpdate 5 all_accepted demo_registry ''n1''
     \<lparr>du_deployment_id = ''d1'', du_state = DEPLOYMENT_STATE_READY, du_host_port = 8080, du_error = [],
      du_progress_percent = 100\<rparr> (demo_manager, []))"

lemma demo_ready_step: "manager_step demo_manager demo_ready"
  unfolding demo_ready_def by (rule manager_step.update)

lemma manager_inv_demo_ready: "manager_inv demo_ready"
  using manager_step_inv [OF _ demo_ready_step] placement_inv_demo by (simp add: placement_inv_def)

lemma deploy_demo_ready:
  "deploy demo_ready = [''d1'' \<mapsto> demo_deployment\<lparr>dp_Replica := Some
     \<lparr>rp_DeploymentID = ''d1'', rp_NodeID = ''n1'', rp_State = DEPLOYMENT_STATE_READY,
      rp_HostPort = 8080, rp_Progress = 100, rp_Err = [], rp_PlacedAt = 0, rp_LastUpdate = 5\<rparr>\<rparr>]"
  by (simp add: demo_ready_def OnUpdate_def deploy_demo_manager demo_deployment_def new_replica_def
      set_replica_def)

lemma map_order_demo_ready: "map_order [''d1''] (deploy demo_ready)"
  by (simp add: deploy_demo_ready map_order_def)

definition demo_online :: Registry where
  "demo_online = Touch 5 ''n1'' demo_heartbeat demo_registry"

lemma Get_demo_online:
  "Get ''n1'' demo_online = Some ((the (Get ''n1'' demo_registry))\<lparr>node_LastSeen := 5,
     node_DataPlaneAddr := ''10.0.0.5''\<rparr>)"
  by (simp add: demo_online_def Get_Touch Get_demo_registry demo_heartbeat_def)

lemma routable_demo:
  "routable demo_online demo_ready ''qwen''
     \<lparr>rep_node_id = ''n1'', rep_deployment_id = ''d1'', rep_addr = ''10.0.0.5:8080''\<rparr>"
  by (simp add: routable_def deploy_demo_ready demo_deployment_def demo_spec_def Get_demo_online
      Get_demo_registry JoinHostPort_def itoa.simps)

theorem Resolve_exact_witness:
  "\<lparr>rep_node_id = ''n1'', rep_deployment_id = ''d1'', rep_addr = ''10.0.0.5:8080''\<rparr>
     \<in> set (Resolve [''d1''] demo_online ''qwen'' demo_ready)"
  using Resolve_exact [OF map_order_demo_ready manager_inv_demo_ready] routable_demo by blast

text \<open>The models listed to users are exactly those a request can be routed to, in ascending order
  and without repetition: a model is listed if and only if some replica of it is routable. Every listed
  model is one somebody deployed.\<close>

theorem ServableModels_exact:
  assumes "map_order dord (deploy m)" and "manager_inv m"
  shows "sorted (ServableModels dord reg m) \<and> distinct (ServableModels dord reg m) \<and>
    set (ServableModels dord reg m) \<subseteq> set (DeployedModels dord m) \<and>
    (\<forall>model. model \<in> set (ServableModels dord reg m) \<longleftrightarrow> (\<exists>rep. routable reg m model rep))"
proof -
  have "sorted (ServableModels dord reg m) \<and> distinct (ServableModels dord reg m)"
    by (simp add: ServableModels_def DeployedModels_def sorted_wrt_filter)
  moreover have "model \<in> set (DeployedModels dord m)" if "routable reg m model rep" for model rep
    using that unfolding routable_def DeployedModels_def sort_keys_props set_map
      range_vals_order [OF assms(1)] by (auto simp: ran_def)
  moreover have "Resolve dord reg model m \<noteq> [] \<longleftrightarrow> (\<exists>rep. routable reg m model rep)" for model
    using set_Resolve [OF assms, of reg model] by (auto simp flip: set_empty)
  ultimately show ?thesis by (auto simp: ServableModels_def)
qed

theorem ServableModels_exact_witness: "''qwen'' \<in> set (ServableModels [''d1''] demo_online demo_ready)"
  using ServableModels_exact [OF map_order_demo_ready manager_inv_demo_ready] routable_demo by blast

subsection \<open>What a reconciler pass achieves\<close>

text \<open>Placing keeps everything that is already placed and, when the start message goes out, leaves an
  entry unplaced only if no node is eligible.\<close>

lemma host_of_place_mono:
  assumes "host_of m (dp_ID d) = None" and "host_of m k = Some n"
  shows "host_of (fst (fst (place dord nord now net reg d kind (m, ob)))) k = Some n"
proof -
  have "k \<noteq> dp_ID d" using assms by auto
  then show ?thesis using assms(2) place_frame(1) [of k d] by (simp add: host_of_def)
qed

lemma host_of_place_accepted:
  assumes "dp_ID d \<in> dom (deploy m)"
    and "host_of (fst (fst (place dord nord now all_accepted reg d kind (m, ob)))) (dp_ID d) = None"
  shows "\<exists>e. selectNode dord nord now reg d kind m = Inl e"
  using assms
  by (cases "selectNode dord nord now reg d kind m")
    (auto simp: place_def stream_Send_def set_replica_def host_of_def)

lemma eligible_antimono: "eligible now kind avoid occ v n \<Longrightarrow> occ' \<subseteq> occ \<Longrightarrow> eligible now kind avoid occ' v n"
  by (auto simp: eligible_def)

lemma host_of_place_all_mono:
  assumes "unplaced_in (fst mo) ds" and "host_of (fst mo) k = Some n"
  shows "host_of (fst (place_all dords nords now net reg ds mo)) k = Some n"
  using assms
proof (induction ds arbitrary: mo)
  case (Cons d ds)
  obtain m ob where mo: "mo = (m, ob)" by (cases mo)
  have un: "host_of m (dp_ID d) = None"
    using Cons.prems(1) abs_manager_host [of m "dp_ID d"] by (auto simp: mo unplaced_in_def)
  show ?case
    using Cons.prems
    by (auto simp: mo split: sum.split intro!: Cons.IH host_of_place_mono [OF un]
        dest: unplaced_in_tl intro: unplaced_in_place [where mo = "(m, ob)", simplified])
qed simp

lemma place_entry:
  assumes "deploy (fst (fst (place dord nord now net reg d kind mo))) k = Some e"
  shows "\<exists>e0 rep. deploy (fst mo) k = Some e0 \<and> e = e0\<lparr>dp_Replica := rep\<rparr>"
proof -
  obtain m ob where mo: "mo = (m, ob)" by (cases mo)
  have same: "\<exists>rep. x = x\<lparr>dp_Replica := rep\<rparr>" for x :: Deployment
    by (rule exI [of _ "dp_Replica x"]) simp
  show ?thesis
    using assms place_result [of dord nord now net reg d kind m ob] same
    by (auto simp: mo set_replica_def split: option.splits if_splits) blast
qed

lemma place_all_entry:
  assumes "deploy (fst (place_all dords nords now net reg ds mo)) k = Some e"
  shows "\<exists>e0 rep. deploy (fst mo) k = Some e0 \<and> e = e0\<lparr>dp_Replica := rep\<rparr>"
  using assms
proof (induction ds arbitrary: mo)
  case Nil
  then show ?case by (auto intro: exI [of _ "dp_Replica e"])
next
  case (Cons d ds)
  show ?case
  proof (cases "requiredRunner (Some (dp_Spec d))")
    case (Inl a)
    with Cons show ?thesis by simp
  next
    case (Inr kind)
    with Cons obtain e1 rep where e1: "e = e1\<lparr>dp_Replica := rep\<rparr>" and
      "deploy (fst (fst (place (dords (dp_ID d)) (nords (dp_ID d)) now net reg d kind mo))) k = Some e1"
      by fastforce
    from place_entry [OF this(2)] e1 show ?thesis by auto
  qed
qed

lemma place_all_complete:
  assumes "manager_inv (fst mo)" and "\<forall>k. map_order (dords k) (deploy (fst mo))"
    and "\<forall>k. directory_valid (nords k) reg" and "unplaced_in (fst mo) ds" and "d \<in> set ds"
    and "requiredRunner (Some (dp_Spec d)) = Inr kind" and "Get k reg = Some n"
    and "host_of (fst (place_all dords nords now all_accepted reg ds mo)) (dp_ID d) = None"
  shows "\<not> eligible_for now kind (fst (place_all dords nords now all_accepted reg ds mo)) d n"
  using assms
proof (induction ds arbitrary: mo)
  case (Cons d0 ds)
  obtain m ob where mo: "mo = (m, ob)" by (cases mo)
  let ?place = "\<lambda>kind. fst (place (dords (dp_ID d0)) (nords (dp_ID d0)) now all_accepted reg d0 kind mo)"
  show ?case
  proof (cases "requiredRunner (Some (dp_Spec d0))")
    case (Inl a)
    with Cons.prems have "d \<in> set ds" by auto
    then show ?thesis using Cons.IH [of mo] Cons.prems Inl unplaced_in_tl by auto
  next
    case (Inr kind0)
    let ?m' = "fst (place_all dords nords now all_accepted reg ds (?place kind0))"
    have un: "unplaced_in (fst (?place kind0)) ds" by (rule unplaced_in_place [OF Cons.prems(4)])
    have mono: "host_of m j = Some x \<Longrightarrow> host_of ?m' j = Some x" for j x
      using host_of_place_all_mono [OF Cons.prems(4), of j x dords nords now all_accepted reg]
      by (simp add: Inr mo)
    show ?thesis
    proof (cases "d = d0")
      case True
      then have "kind0 = kind" using Inr Cons.prems(6) by simp
      have "host_of (fst (?place kind0)) (dp_ID d0) = None"
        using host_of_place_all_mono [OF un, of "dp_ID d0" _ dords nords now all_accepted reg]
          Cons.prems(8) True Inr by (cases "host_of (fst (?place kind0)) (dp_ID d0)") auto
      moreover have "dp_ID d0 \<in> dom (deploy m)"
        using Cons.prems(4) by (auto simp: mo unplaced_in_def abs_manager_def)
      ultimately obtain e where "selectNode (dords (dp_ID d0)) (nords (dp_ID d0)) now reg d0 kind m = Inl e"
        using host_of_place_accepted \<open>kind0 = kind\<close> mo by blast
      then have "\<not> eligible_for now kind m d n"
        using selectNode_Inl [of "dords (dp_ID d0)" m "nords (dp_ID d0)" reg now d0 kind] Cons.prems(1-3,7)
          manager_inv_keyed mo True by auto
      moreover have "others_nodes m (dp_ID d) \<subseteq> others_nodes ?m' (dp_ID d)"
        using mono by (auto simp: others_nodes_def)
      ultimately show ?thesis using eligible_antimono Inr by auto
    next
      case False
      have "\<forall>k. map_order (dords k) (deploy (fst (?place kind0)))"
        using Cons.prems(2) map_order_cong [OF place_frame(2)] by blast
      then show ?thesis
        using Cons.IH [of "?place kind0"] Cons.prems False un manager_inv_place Inr by simp
    qed
  qed
qed simp

text \<open>C5. A reconciler pass leaves no work undone: when every start message goes out, a deployment that
  is still unplaced afterwards has no eligible node left anywhere in the registry, given who occupies
  what at the end of the pass.\<close>

theorem Reconcile_maximal:
  assumes "manager_inv m" and "map_order dord (deploy m)"
    and "\<forall>k. map_order (dords k) (deploy m)" and "\<forall>k. directory_valid (nords k) reg"
    and "m' = fst (Reconcile dord dords nords now all_accepted reg (m, ob))"
    and "deploy m' k = Some d" and "dp_Replica d = None"
    and "requiredRunner (Some (dp_Spec d)) = Inr kind" and "Get j reg = Some n"
  shows "\<not> eligible_for now kind m' d n"
proof -
  let ?m = "m\<lparr>deploy := sweep (reconcile_entry now reg) dord (deploy m)\<rparr>"
  let ?ds = "filter (\<lambda>d. dp_Replica d = None) (range_vals dord (deploy ?m))"
  have m': "m' = fst (place_all dords nords now all_accepted reg ?ds (?m, ob))"
    using assms(5) by (simp add: Reconcile_def)
  have inv: "manager_inv ?m" using assms(1) by (simp add: manager_inv_swept)
  have ords: "map_order dord (deploy ?m)" "\<forall>k. map_order (dords k) (deploy ?m)"
    using assms(2,3) by (simp_all add: map_order_def)
  have un: "unplaced_in (fst (?m, ob)) ?ds" using unplaced_in_filter [OF inv ords(1)] by simp
  obtain d0 rep where d0: "deploy ?m k = Some d0" "d = d0\<lparr>dp_Replica := rep\<rparr>"
    using place_all_entry [of dords nords now all_accepted reg ?ds "(?m, ob)" k d] assms(6) m' by auto
  have "dp_ID d0 = k" by (rule keyedD [OF manager_inv_keyed [OF inv] d0(1)])
  have host: "host_of m' (dp_ID d0) = None"
    using assms(6,7) \<open>dp_ID d0 = k\<close> by (simp add: host_of_def)
  then have "host_of ?m k = None"
    using host_of_place_all_mono [OF un, of k _ dords nords now all_accepted reg] m' \<open>dp_ID d0 = k\<close>
    by (cases "host_of ?m k") auto
  then have "dp_Replica d0 = None" using d0(1) by (auto simp: host_of_def)
  then have "d0 \<in> set ?ds"
    using d0(1) range_vals_order [OF ords(1)] by (auto simp: ran_def)
  moreover have "requiredRunner (Some (dp_Spec d0)) = Inr kind" using assms(8) d0(2) by simp
  ultimately have "\<not> eligible_for now kind m' d0 n"
    using place_all_complete [of "(?m, ob)" dords nords reg ?ds d0 kind j n now] inv ords(2) assms(4,9)
      un host m' by simp
  then show ?thesis using d0(2) by simp
qed

text \<open>An unplaceable demo deployment: it asks for more memory than the demo node has.\<close>

definition demo_waiting :: Manager where
  "demo_waiting = fst (fst (Create ''d2'' [''d2''] [''n1''] 0 all_accepted demo_registry
     (Some (demo_spec\<lparr>spec_min_vram_mb := 20000\<rparr>)) 1 (New_Manager, [])))"

lemma demo_waiting_step: "manager_step New_Manager demo_waiting"
  unfolding demo_waiting_def
  by (rule manager_step.create) (simp_all add: New_Manager_def directory_valid_demo)

lemma manager_inv_demo_waiting: "manager_inv demo_waiting"
  by (rule manager_step_inv [OF manager_inv_New demo_waiting_step])

lemma deploy_demo_waiting:
  "deploy demo_waiting = [''d2'' \<mapsto> \<lparr>dp_ID = ''d2'',
     dp_Spec = demo_spec\<lparr>spec_deployment_id := ''d2'', spec_min_vram_mb := 20000\<rparr>,
     dp_Replica = None, dp_avoid = Map.empty\<rparr>]"
  by (simp add: demo_waiting_def Create_def demo_spec_def requiredRunner_def GetNative_def place_def
      selectNode_def Snapshot_demo Get_demo_registry demo_gpu_def demo_system_def occupied_def
      map_filter_simps New_Manager_def)

theorem Reconcile_maximal_witness:
  "\<exists>d n. Get ''n1'' demo_registry = Some n \<and> dp_ID d = ''d2'' \<and>
     \<not> eligible_for 0 RUNNER_KIND_NATIVE_METAL
       (fst (Reconcile [''d2''] (\<lambda>_. [''d2'']) (\<lambda>_. [''n1'']) 0 all_accepted demo_registry (demo_waiting, []))) d n"
proof -
  let ?m = "fst (Reconcile [''d2''] (\<lambda>_. [''d2'']) (\<lambda>_. [''n1'']) 0 all_accepted demo_registry (demo_waiting, []))"
  have o: "map_order [''d2''] (deploy demo_waiting)" by (simp add: deploy_demo_waiting map_order_def)
  have d: "deploy ?m ''d2'' = deploy demo_waiting ''d2''"
    by (simp add: Reconcile_def deploy_demo_waiting sweep_simps reconcile_entry_def requiredRunner_def
        place_def selectNode_def Snapshot_demo Get_demo_registry demo_gpu_def demo_system_def
        occupied_def map_filter_simps demo_spec_def sweep_def)
  have r: "requiredRunner (Some (dp_Spec (the (deploy demo_waiting ''d2'')))) = Inr RUNNER_KIND_NATIVE_METAL"
    by (simp add: deploy_demo_waiting requiredRunner_def demo_spec_def)
  from Reconcile_maximal [of demo_waiting "[''d2'']" "\<lambda>_. [''d2'']" "\<lambda>_. [''n1'']" demo_registry ?m 0
      "[]" "''d2''" "the (deploy demo_waiting ''d2'')" RUNNER_KIND_NATIVE_METAL "''n1''"
      "the (Get ''n1'' demo_registry)"]
  have "\<not> eligible_for 0 RUNNER_KIND_NATIVE_METAL ?m (the (deploy demo_waiting ''d2''))
      (the (Get ''n1'' demo_registry))"
    using manager_inv_demo_waiting o d r directory_valid_demo
    by (simp add: deploy_demo_waiting Get_demo_registry)
  then show ?thesis
    by (intro exI [of _ "the (deploy demo_waiting ''d2'')"] exI [of _ "the (Get ''n1'' demo_registry)"])
      (simp add: deploy_demo_waiting Get_demo_registry)
qed

subsection \<open>Failed nodes\<close>

lemma place_all_keeps_ban:
  assumes "deploy (fst mo) k = Some d"
  shows "\<exists>d'. deploy (fst (place_all dords nords now net reg ds mo)) k = Some d' \<and>
    dp_avoid d' = dp_avoid d"
proof -
  have "dom (deploy (fst (place_all dords nords now net reg ds mo))) = dom (deploy (fst mo))"
    by (induction ds arbitrary: mo) (auto simp: place_frame split: sum.split)
  then obtain d' where "deploy (fst (place_all dords nords now net reg ds mo)) k = Some d'"
    using assms by auto
  with place_all_entry [OF this] assms show ?thesis by auto
qed


definition demo_broken :: Manager where
  "demo_broken = fst (OnUpdate (2 * minute) all_accepted demo_registry ''n1'' demo_failed (demo_manager, []))"

lemma demo_broken_step: "manager_step demo_manager demo_broken"
  unfolding demo_broken_def by (rule manager_step.update)

lemma manager_inv_demo_broken: "manager_inv demo_broken"
  using manager_step_inv [OF _ demo_broken_step] placement_inv_demo by (simp add: placement_inv_def)

lemma deploy_demo_broken:
  "deploy demo_broken = [''d1'' \<mapsto> demo_deployment\<lparr>dp_Replica := Some
     \<lparr>rp_DeploymentID = ''d1'', rp_NodeID = ''n1'', rp_State = DEPLOYMENT_STATE_FAILED,
      rp_HostPort = 0, rp_Progress = 0, rp_Err = ''oom'', rp_PlacedAt = 0, rp_LastUpdate = 2 * minute\<rparr>\<rparr>]"
  by (simp add: demo_broken_def OnUpdate_def deploy_demo_manager demo_deployment_def new_replica_def
      set_replica_def demo_failed_def)

lemma map_order_demo_broken: "map_order [''d1''] (deploy demo_broken)"
  by (simp add: deploy_demo_broken map_order_def)


text \<open>A failed replica that was placed more than a minute ago is also released by the next
  heartbeat of its node, which no longer reports it; this path records no ban, so the node that just
  failed is at once eligible for the same deployment again.\<close>

theorem heartbeat_forgets_failure:
  assumes "manager_inv m" and "map_order dord (deploy m)"
    and "deploy m k = Some d" and "dp_Replica d = Some r" and "rp_State r = DEPLOYMENT_STATE_FAILED"
    and "rp_NodeID r = nodeID" and "k \<notin> set active" and "60 * second < now - rp_PlacedAt r"
    and "Get nodeID reg = Some n" and "eligible_for now kind m d n"
  shows "\<exists>d'. deploy (fst (OnHeartbeat dord now net reg nodeID active (m, ob))) k = Some d' \<and>
    dp_Replica d' = None \<and> dp_avoid d' = dp_avoid d \<and>
    eligible_for now kind (fst (OnHeartbeat dord now net reg nodeID active (m, ob))) d' n"
proof -
  let ?m = "fst (OnHeartbeat dord now net reg nodeID active (m, ob))"
  note dep = deploy_OnHeartbeat [OF assms(1,2), of now net reg nodeID active ob]
  have d': "deploy ?m k = Some (d\<lparr>dp_Replica := None\<rparr>)"
    using assms(3-8) by (simp add: dep)
  have "host_of ?m j = Some x \<Longrightarrow> host_of m j = Some x" for j x
    by (cases "deploy m j"; cases "dp_Replica (the (deploy m j))")
      (auto simp: host_of_def dep split: if_splits)
  then have "others_nodes ?m (dp_ID d) \<subseteq> others_nodes m (dp_ID d)"
    by (auto simp: others_nodes_def)
  then show ?thesis using eligible_antimono [OF assms(10)] d' by auto
qed

theorem heartbeat_forgets_failure_witness:
  "\<exists>d'. deploy (fst (OnHeartbeat [''d1''] (3 * minute) all_accepted demo_registry ''n1'' []
       (demo_broken, []))) ''d1'' = Some d' \<and> dp_avoid d' = Map.empty"
proof -
  have "eligible_for (3 * minute) RUNNER_KIND_NATIVE_METAL demo_broken
      (the (deploy demo_broken ''d1'')) (the (Get ''n1'' demo_registry))"
    by (auto simp: eligible_def deploy_demo_broken Get_demo_registry demo_gpu_def demo_system_def
        demo_deployment_def demo_spec_def others_nodes_def host_of_def split: if_splits)
  from heartbeat_forgets_failure [OF manager_inv_demo_broken map_order_demo_broken _ _ _ _ _ _ _ this,
      of "''d1''" _ "''n1''" "[]" demo_registry all_accepted "[]"]
  show ?thesis by (auto simp: deploy_demo_broken Get_demo_registry demo_deployment_def)
qed

end
