(* ===== verification/Interleaving.thy ===== *)
theory Interleaving
  imports RoutingProps
begin

text \<open>
  Placement at the granularity of its critical sections. \<^verbatim>\<open>Manager.place\<close> holds the lock while it
  collects the occupied nodes and again while it writes the replica, but not in between, where the
  start message is sent. Here the two halves are separate steps of concurrent calls, which start with
  \<^verbatim>\<open>CreateDeployment\<close> handlers and the reconciler.
\<close>

subsection \<open>The two halves of a placement\<close>

definition place_commit ::
  "time \<Rightarrow> network \<Rightarrow> Node \<Rightarrow> Deployment \<Rightarrow> Manager \<times> outbox \<Rightarrow> (Manager \<times> outbox) \<times> deploy_error option" where
  "place_commit now net node d mo =
     (let (m, ob) = mo;
          (ob', ok) = stream_Send net ob (the (node_Send node)) (CM_StartDeployment (Some (dp_Spec d)))
      in if \<not> ok then ((m, ob'), Some (ErrSendStart (node_ID node)))
         else ((set_replica (dp_ID d) (Some (new_replica (dp_ID d) (node_ID node) now)) m, ob'), None))"

lemma place_halves:
  "place dord nord now net reg d kind mo =
     (case selectNode dord nord now reg d kind (fst mo) of
        Inl e \<Rightarrow> (mo, Some e)
      | Inr node \<Rightarrow> place_commit now net node d mo)"
  by (auto simp: place_def place_commit_def split: prod.split sum.split)

text \<open>
  The state of a run: the manager, what was sent, and the placements that have chosen a node and not
  yet written it. A call begins by choosing and ends by committing; the manager's other operations may
  happen in between.
\<close>

type_synonym pending = "(Deployment \<times> Node) list"

inductive concurrent_step ::
  "(Manager \<times> outbox) \<times> pending \<Rightarrow> (Manager \<times> outbox) \<times> pending \<Rightarrow> bool" where
  chose: "\<lbrakk>deploy (fst mo) (dp_ID d) = Some d; requiredRunner (Some (dp_Spec d)) = Inr kind;
           map_order dord (deploy (fst mo)); directory_valid nord reg;
           selectNode dord nord now reg d kind (fst mo) = Inr node\<rbrakk> \<Longrightarrow>
         concurrent_step (mo, ps) (mo, (d, node) # ps)"
| commit: "fst (place_commit now net node d mo) = mo' \<Longrightarrow>
         concurrent_step (mo, ps @ (d, node) # ps') (mo', ps @ ps')"
| other: "manager_step (fst mo) m' \<Longrightarrow> concurrent_step (mo, ps) ((m', snd mo), ps)"

subsection \<open>Alone, a placement keeps nodes exclusive; together, two do not\<close>

lemma host_of_place_commit:
  assumes "dp_ID d \<in> dom (deploy m)"
  shows "host_of (fst (fst (place_commit now all_accepted node d (m, ob)))) k =
    (if k = dp_ID d then Some (node_ID node) else host_of m k)"
  using assms by (auto simp: place_commit_def stream_Send_def set_replica_def host_of_def new_replica_def)

lemma dom_place_commit:
  "dom (deploy (fst (fst (place_commit now net node d mo)))) = dom (deploy (fst mo))"
  by (auto simp: place_commit_def stream_Send_def split: prod.split)

text \<open>The rule of one deployment per node does not survive concurrent placements. Whenever the
  same node is eligible for two unplaced deployments, the run in which both calls choose before either
  writes ends with both deployments placed on that node, and both start messages sent.\<close>

theorem concurrent_placement_race:
  assumes "deploy m (dp_ID d1) = Some d1" and "deploy m (dp_ID d2) = Some d2" and "dp_ID d1 \<noteq> dp_ID d2"
    and "requiredRunner (Some (dp_Spec d1)) = Inr k1" and "requiredRunner (Some (dp_Spec d2)) = Inr k2"
    and "map_order dord (deploy m)" and "directory_valid nord reg"
    and "selectNode dord nord now reg d1 k1 m = Inr node" and "selectNode dord nord now reg d2 k2 m = Inr node"
  shows "\<exists>m' ob'. concurrent_step\<^sup>*\<^sup>* ((m, ob), []) ((m', ob'), []) \<and>
    host_of m' (dp_ID d1) = Some (node_ID node) \<and> host_of m' (dp_ID d2) = Some (node_ID node)"
proof -
  let ?mo1 = "fst (place_commit now all_accepted node d1 (m, ob))"
  let ?mo2 = "fst (place_commit now all_accepted node d2 ?mo1)"
  have dom1: "dp_ID d1 \<in> dom (deploy m)" and dom2: "dp_ID d2 \<in> dom (deploy (fst ?mo1))"
    using assms(1,2) by (auto simp: dom_place_commit simp del: domIff)
  have "concurrent_step ((m, ob), []) ((m, ob), [(d1, node)])"
    using assms by (auto intro: concurrent_step.chose)
  moreover have "concurrent_step ((m, ob), [(d1, node)]) ((m, ob), [(d2, node), (d1, node)])"
    using assms by (auto intro: concurrent_step.chose)
  moreover have "concurrent_step ((m, ob), [(d2, node), (d1, node)]) (?mo1, [(d2, node)])"
    using concurrent_step.commit [of now all_accepted node d1 "(m, ob)" _ "[(d2, node)]" "[]"] by simp
  moreover have "concurrent_step (?mo1, [(d2, node)]) (?mo2, [])"
    using concurrent_step.commit [of now all_accepted node d2 ?mo1 _ "[]" "[]"] by simp
  ultimately have "concurrent_step\<^sup>*\<^sup>* ((m, ob), []) ((fst ?mo2, snd ?mo2), [])" by auto
  moreover have "host_of (fst ?mo2) (dp_ID d1) = Some (node_ID node)"
    and "host_of (fst ?mo2) (dp_ID d2) = Some (node_ID node)"
    using assms(3) host_of_place_commit [OF dom1, of now node ob]
      host_of_place_commit [OF dom2, of now node "snd ?mo1"] by simp_all
  ultimately show ?thesis by blast
qed

definition demo_pair :: Manager where
  "demo_pair = \<lparr>deploy = [''d1'' \<mapsto> demo_deployment\<lparr>dp_Replica := None\<rparr>,
     ''d2'' \<mapsto> demo_deployment\<lparr>dp_ID := ''d2'', dp_Replica := None\<rparr>]\<rparr>"

theorem concurrent_placement_race_witness:
  "\<exists>m' ob'. concurrent_step\<^sup>*\<^sup>* ((demo_pair, []), []) ((m', ob'), []) \<and>
     host_of m' ''d1'' = Some ''n1'' \<and> host_of m' ''d2'' = Some ''n1''"
proof -
  let ?d1 = "demo_deployment\<lparr>dp_Replica := None\<rparr>"
  let ?d2 = "demo_deployment\<lparr>dp_ID := ''d2'', dp_Replica := None\<rparr>"
  let ?n = "the (Get ''n1'' demo_registry)"
  have "selectNode [''d1'', ''d2''] [''n1''] 0 demo_registry d RUNNER_KIND_NATIVE_METAL demo_pair = Inr ?n"
    if "d = ?d1 \<or> d = ?d2" for d
    using that by (auto simp: selectNode_def Snapshot_demo Get_demo_registry demo_gpu_def demo_system_def
        demo_deployment_def demo_spec_def occupied_def map_filter_simps demo_pair_def)
  moreover have "map_order [''d1'', ''d2''] (deploy demo_pair)"
    by (auto simp: demo_pair_def map_order_def)
  moreover have "requiredRunner (Some (dp_Spec demo_deployment)) = Inr RUNNER_KIND_NATIVE_METAL"
    by (simp add: demo_deployment_def demo_spec_def requiredRunner_def)
  ultimately show ?thesis
    using concurrent_placement_race [of demo_pair ?d1 ?d2 RUNNER_KIND_NATIVE_METAL RUNNER_KIND_NATIVE_METAL
        "[''d1'', ''d2'']" "[''n1'']" demo_registry 0 ?n "[]"] directory_valid_demo
    by (simp add: demo_pair_def demo_deployment_def Get_demo_registry)
qed

subsection \<open>The start message is sent before the replica is written\<close>

text \<open>The second critical section of \<^verbatim>\<open>place\<close>, after the message has gone out.\<close>

definition place_record :: "time \<Rightarrow> Node \<Rightarrow> Deployment \<Rightarrow> Manager \<Rightarrow> Manager" where
  "place_record now node d m = set_replica (dp_ID d) (Some (new_replica (dp_ID d) (node_ID node) now)) m"

lemma place_commit_record:
  "place_commit now net node d (m, ob) =
     (case stream_Send net ob (the (node_Send node)) (CM_StartDeployment (Some (dp_Spec d))) of
        (ob', ok) \<Rightarrow> if ok then ((place_record now node d m, ob'), None) else ((m, ob'), Some (ErrSendStart (node_ID node))))"
  by (simp add: place_commit_def place_record_def split: prod.split)

text \<open>
  The agent reports as soon as it starts. When its first update is handled between the send and the
  write, the manager takes it for an orphan's: it stops what it has just started, and then writes down
  that it runs there. Had it written first, the update would have been recorded and nothing sent.
\<close>

theorem early_update_stops_placement:
  assumes "deploy m (dp_ID d) = Some d" and "dp_Replica d = None"
    and "Get (node_ID node) reg = Some node" and "node_Send node = Some str" and "du_deployment_id upd = dp_ID d"
    and "stream_Send all_accepted ob str (CM_StartDeployment (Some (dp_Spec d))) = (ob1, True)"
    and "OnUpdate t all_accepted reg (node_ID node) upd (m, ob1) = (m2, ob2)"
  shows "delivered ob2 =
      delivered ob @ [(str, CM_StartDeployment (Some (dp_Spec d))), (str, CM_StopDeployment (dp_ID d))] \<and>
    host_of (place_record now node d m2) (dp_ID d) = Some (node_ID node) \<and>
    snd (OnUpdate t all_accepted reg (node_ID node) upd (place_record now node d m, ob1)) = ob1"
proof -
  have "m2 = m" "ob2 = fst (sendStop all_accepted reg (node_ID node) (dp_ID d) ob1)"
    using assms by (auto simp: OnUpdate_def)
  with assms show ?thesis
    by (auto simp: sendStop_def stream_Send_def delivered_def place_record_def set_replica_def host_of_def
        new_replica_def OnUpdate_def)
qed

end
