(* ===== verification/UsageStore.thy ===== *)
theory UsageStore
  imports Contracts GoStrings "HOL-Library.Product_Lexorder" "HOL-Library.Multiset"
begin

text \<open>
  The usage ledger of the coordinator (\<^verbatim>\<open>coordinator/internal/store\<close>): the record, the Postgres store
  with its schema and queries, its migrations, and the JSONL file used when no database is configured.
  The statements and the schema are in the repository and are modelled on tables as lists of rows; what
  the network and the database server may do to a call is a parameter.
\<close>

subsection \<open>Records and totals (store.go)\<close>

record UsageRecord =
  ur_RequestID :: string
  ur_Timestamp :: time
  ur_ServedModelName :: string
  ur_NodeID :: string
  ur_DeploymentID :: string
  ur_APIKeyID :: string
  ur_PromptTokens :: u64
  ur_CompletionTokens :: u64

record Totals =
  tt_Key :: string
  tt_Requests :: u64
  tt_PromptTokens :: u64
  tt_CompletionTokens :: u64

record Summary =
  sm_From :: time
  sm_To :: time
  sm_Total :: Totals
  sm_ByNode :: "Totals list"
  sm_ByAPIKey :: "Totals list"

datatype store_error =
    ErrInvalidRecord string
  | ErrInsertUsage
  | ErrOpenUsageLog
  | ErrAppendUsage
  | ErrTotal
  | ErrByNode
  | ErrByAPIKey
  | ErrGroupBy string
  | ErrSummaryUnsupported

definition validate :: "UsageRecord \<Rightarrow> store_error option" where
  "validate r =
     (if ur_RequestID r = [] then Some (ErrInvalidRecord ''request_id is required'')
      else if ur_NodeID r = [] then Some (ErrInvalidRecord ''node_id is required'')
      else None)"

definition stamp :: "time \<Rightarrow> UsageRecord \<Rightarrow> time" where
  "stamp now rec = (if ur_Timestamp rec = zero_time then now else ur_Timestamp rec)"

subsection \<open>Postgres (store.go and migrations/0001\_usage.sql)\<close>

text \<open>
  One row of \<^verbatim>\<open>usage_records\<close>. The token counts are \<^verbatim>\<open>BIGINT\<close>, that is signed; \<^verbatim>\<open>TIMESTAMPTZ\<close>
  keeps whole microseconds.
\<close>

record usage_row =
  row_request_id :: string
  row_ts :: time
  row_served_model_name :: string
  row_node_id :: string
  row_deployment_id :: string
  row_api_key_id :: string
  row_prompt_tokens :: int
  row_completion_tokens :: int

type_synonym usage_table = "usage_row list"

definition timestamptz :: "time \<Rightarrow> time" where
  "timestamptz t = t div 1000 * 1000"

definition row_of :: "time \<Rightarrow> UsageRecord \<Rightarrow> usage_row" where
  "row_of now rec = \<lparr>row_request_id = ur_RequestID rec, row_ts = timestamptz (stamp now rec),
     row_served_model_name = ur_ServedModelName rec, row_node_id = ur_NodeID rec,
     row_deployment_id = ur_DeploymentID rec, row_api_key_id = ur_APIKeyID rec,
     row_prompt_tokens = sint (ur_PromptTokens rec),
     row_completion_tokens = sint (ur_CompletionTokens rec)\<rparr>"

definition check_constraints :: "usage_row \<Rightarrow> bool" where
  "check_constraints row \<longleftrightarrow> 0 \<le> row_prompt_tokens row \<and> 0 \<le> row_completion_tokens row"

text \<open>\<^verbatim>\<open>INSERT ... ON CONFLICT (request_id) DO NOTHING\<close>; the check constraints come first.\<close>

definition insert_usage :: "usage_row \<Rightarrow> usage_table \<Rightarrow> usage_table option" where
  "insert_usage row tbl =
     (if \<not> check_constraints row then None
      else if row_request_id row \<in> set (map row_request_id tbl) then Some tbl
      else Some (tbl @ [row]))"

text \<open>
  What happens to the statement on its way: it is answered, it never takes effect, or it takes effect
  and the answer is lost.
\<close>

datatype exec_outcome = Answered | NotExecuted | AnswerLost

definition Postgres_Insert ::
  "time \<Rightarrow> exec_outcome \<Rightarrow> UsageRecord \<Rightarrow> usage_table \<Rightarrow> usage_table \<times> store_error option" where
  "Postgres_Insert now ex rec tbl =
     (case validate rec of
        Some e \<Rightarrow> (tbl, Some e)
      | None \<Rightarrow>
          (case ex of
             NotExecuted \<Rightarrow> (tbl, Some ErrInsertUsage)
           | _ \<Rightarrow>
               (case insert_usage (row_of now rec) tbl of
                  None \<Rightarrow> (tbl, Some ErrInsertUsage)
                | Some tbl' \<Rightarrow> (tbl', if ex = Answered then None else Some ErrInsertUsage))))"

definition in_window :: "time \<Rightarrow> time \<Rightarrow> usage_row \<Rightarrow> bool" where
  "in_window from to row \<longleftrightarrow> timestamptz from \<le> row_ts row \<and> row_ts row < timestamptz to"

text \<open>
  An aggregate over some rows; \<^verbatim>\<open>SUM\<close> of \<^verbatim>\<open>BIGINT\<close> is an exact \<^verbatim>\<open>NUMERIC\<close>. Reading a number into a
  \<^verbatim>\<open>uint64\<close> is the database driver's: \<open>scan\<close> returns \<open>None\<close> where the driver reports an error.
\<close>

definition aggregate :: "(int \<Rightarrow> u64 option) \<Rightarrow> string \<Rightarrow> usage_row list \<Rightarrow> Totals option" where
  "aggregate scan key rows =
     (case (scan (int (length rows)), scan (\<Sum>r\<leftarrow>rows. row_prompt_tokens r),
            scan (\<Sum>r\<leftarrow>rows. row_completion_tokens r)) of
        (Some n, Some pt, Some ct) \<Rightarrow>
          Some \<lparr>tt_Key = key, tt_Requests = n, tt_PromptTokens = pt, tt_CompletionTokens = ct\<rparr>
      | _ \<Rightarrow> None)"

definition column_of :: "string \<Rightarrow> (usage_row \<Rightarrow> string) option" where
  "column_of column =
     (if column = ''node_id'' then Some row_node_id
      else if column = ''api_key_id'' then Some row_api_key_id
      else None)"

text \<open>
  The groups in the order of the query: most tokens first, then by the key under the database's
  collation, given by its sort keys \<open>coll\<close>.
\<close>

definition group_keys :: "(string \<Rightarrow> nat) \<Rightarrow> (usage_row \<Rightarrow> string) \<Rightarrow> usage_row list \<Rightarrow> string list" where
  "group_keys coll col rows =
     sort_key (\<lambda>k. (- (\<Sum>r\<leftarrow>filter (\<lambda>r. col r = k) rows. row_prompt_tokens r + row_completion_tokens r), coll k))
       (remdups (map col rows))"

fun collect :: "'a option list \<Rightarrow> 'a list option" where
  "collect [] = Some []"
| "collect (None # xs) = None"
| "collect (Some x # xs) = map_option ((#) x) (collect xs)"

definition groupBy ::
  "(int \<Rightarrow> u64 option) \<Rightarrow> (string \<Rightarrow> nat) \<Rightarrow> bool \<Rightarrow> string \<Rightarrow> time \<Rightarrow> time \<Rightarrow> usage_table
     \<Rightarrow> store_error + Totals list option" where
  "groupBy scan coll up column from to tbl =
     (case column_of column of
        None \<Rightarrow> Inl (ErrGroupBy column)
      | Some col \<Rightarrow>
          (if \<not> up then Inr None
           else
             (let rows = filter (in_window from to) tbl
              in Inr (collect (map (\<lambda>k. aggregate scan k (filter (\<lambda>r. col r = k) rows))
                                (group_keys coll col rows))))))"

text \<open>
  The three queries of a summary are separate statements: query \<open>i\<close> sees the table \<open>snap i\<close> and is
  answered if \<open>up i\<close>.
\<close>

definition Postgres_Summarize ::
  "(int \<Rightarrow> u64 option) \<Rightarrow> (string \<Rightarrow> nat) \<Rightarrow> (nat \<Rightarrow> bool) \<Rightarrow> (nat \<Rightarrow> usage_table) \<Rightarrow> time \<Rightarrow> time
     \<Rightarrow> store_error + Summary" where
  "Postgres_Summarize scan coll up snap from to =
     (case (if up 0 then aggregate scan [] (filter (in_window from to) (snap 0)) else None) of
        None \<Rightarrow> Inl ErrTotal
      | Some tot \<Rightarrow>
          (case groupBy scan coll (up 1) ''node_id'' from to (snap 1) of
             Inr (Some byNode) \<Rightarrow>
               (case groupBy scan coll (up 2) ''api_key_id'' from to (snap 2) of
                  Inr (Some byKey) \<Rightarrow>
                    Inr \<lparr>sm_From = from, sm_To = to, sm_Total = tot, sm_ByNode = byNode,
                         sm_ByAPIKey = byKey\<rparr>
                | _ \<Rightarrow> Inl ErrByAPIKey)
           | _ \<Rightarrow> Inl ErrByNode))"

subsection \<open>The JSONL file (jsonl.go)\<close>

text \<open>
  The file is what was appended to it: complete lines and, where a write was cut short, fragments. The
  keys of a line are those of the marshalled map.
\<close>

record jsonl_line =
  jl_request_id :: string
  jl_ts_unix_ms :: int
  jl_served_model_name :: string
  jl_node_id :: string
  jl_deployment_id :: string
  jl_api_key_id :: string
  jl_prompt_tokens :: u64
  jl_completion_tokens :: u64

datatype jsonl_chunk = Line jsonl_line | Fragment

record JSONL =
  jsonl_file :: "jsonl_chunk list"
  jsonl_seen :: "string set"

datatype file_outcome = Written | OpenFailed | WriteFailed bool

definition OpenJSONL :: "jsonl_chunk list \<Rightarrow> JSONL" where
  "OpenJSONL content = \<lparr>jsonl_file = content, jsonl_seen = {}\<rparr>"

definition line_of :: "time \<Rightarrow> UsageRecord \<Rightarrow> jsonl_line" where
  "line_of now rec = \<lparr>jl_request_id = ur_RequestID rec, jl_ts_unix_ms = unixMilli (stamp now rec),
     jl_served_model_name = ur_ServedModelName rec, jl_node_id = ur_NodeID rec,
     jl_deployment_id = ur_DeploymentID rec, jl_api_key_id = ur_APIKeyID rec,
     jl_prompt_tokens = ur_PromptTokens rec, jl_completion_tokens = ur_CompletionTokens rec\<rparr>"

definition JSONL_Insert ::
  "time \<Rightarrow> file_outcome \<Rightarrow> UsageRecord \<Rightarrow> JSONL \<Rightarrow> JSONL \<times> store_error option" where
  "JSONL_Insert now fo rec j =
     (case validate rec of
        Some e \<Rightarrow> (j, Some e)
      | None \<Rightarrow>
          if ur_RequestID rec \<in> jsonl_seen j then (j, None)
          else
            (case fo of
               OpenFailed \<Rightarrow> (j, Some ErrOpenUsageLog)
             | WriteFailed partial \<Rightarrow>
                 (if partial then j\<lparr>jsonl_file := jsonl_file j @ [Fragment]\<rparr> else j, Some ErrAppendUsage)
             | Written \<Rightarrow>
                 (j\<lparr>jsonl_file := jsonl_file j @ [Line (line_of now rec)],
                    jsonl_seen := insert (ur_RequestID rec) (jsonl_seen j)\<rparr>, None)))"

definition JSONL_Summarize :: "time \<Rightarrow> time \<Rightarrow> JSONL \<Rightarrow> store_error + Summary" where
  "JSONL_Summarize from to j = Inl ErrSummaryUnsupported"

subsection \<open>The contract of a store: one bill per request\<close>

text \<open>
  Both stores promise the gateway the same: inserting is safe to repeat. A gateway that
  retries makes a run of attempts. The interface speaks of the
  request IDs a store has billed, in order; \<open>ins\<close> is given the circumstances of the call.
\<close>

fun run_attempts ::
  "('o \<Rightarrow> UsageRecord \<Rightarrow> 's \<Rightarrow> 's \<times> store_error option) \<Rightarrow> ('o \<times> UsageRecord) list \<Rightarrow> 's
     \<Rightarrow> 's \<times> store_error option list" where
  "run_attempts ins [] s = (s, [])"
| "run_attempts ins ((x, rec) # as) s =
     (let (s1, e) = ins x rec s; (s2, es) = run_attempts ins as s1 in (s2, e # es))"

locale usage_ledger =
  fixes ins :: "'o \<Rightarrow> UsageRecord \<Rightarrow> 's \<Rightarrow> 's \<times> store_error option"
    and billed :: "'s \<Rightarrow> string list"
    and inv :: "'s \<Rightarrow> bool"
  assumes inv_ins: "inv s \<Longrightarrow> inv (fst (ins x rec s))"
    and inv_distinct: "inv s \<Longrightarrow> distinct (billed s)"
    and billed_ins: "inv s \<Longrightarrow>
      billed (fst (ins x rec s)) = billed s \<or> billed (fst (ins x rec s)) = billed s @ [ur_RequestID rec]"
    and ins_success: "inv s \<Longrightarrow> snd (ins x rec s) = None \<Longrightarrow> ur_RequestID rec \<in> set (billed (fst (ins x rec s)))"
begin

lemma run_inv: "inv s \<Longrightarrow> inv (fst (run_attempts ins as s))"
proof (induction as arbitrary: s)
  case (Cons a as)
  obtain x rec where "a = (x, rec)" by (cases a)
  with Cons.IH [OF inv_ins [OF Cons.prems, of x rec]] show ?case by (simp add: split_beta)
qed simp

lemma billed_mono: "inv s \<Longrightarrow> set (billed s) \<subseteq> set (billed (fst (run_attempts ins as s)))"
proof (induction as arbitrary: s)
  case (Cons a as)
  obtain x rec where "a = (x, rec)" by (cases a)
  with Cons.IH [OF inv_ins [OF Cons.prems, of x rec]] billed_ins [OF Cons.prems, of x rec]
  show ?case by (auto simp: split_beta)
qed simp

lemma bills_once: "inv s \<Longrightarrow> distinct (billed (fst (run_attempts ins as s)))"
  by (intro inv_distinct run_inv)

lemma success_bills:
  "inv s \<Longrightarrow> ((x, rec), None) \<in> set (zip as (snd (run_attempts ins as s))) \<Longrightarrow>
     ur_RequestID rec \<in> set (billed (fst (run_attempts ins as s)))"
proof (induction as arbitrary: s)
  case (Cons a as)
  obtain y r where a: "a = (y, r)" by (cases a)
  note inv' = inv_ins [OF Cons.prems(1), of y r]
  show ?case
    using Cons.prems(2) Cons.IH [OF inv'] ins_success [OF Cons.prems(1), of y r] billed_mono [OF inv', of as]
    by (auto simp: a split_beta)
qed simp

lemma billed_attempted:
  "inv s \<Longrightarrow> k \<in> set (billed (fst (run_attempts ins as s))) \<Longrightarrow>
     k \<in> set (billed s) \<or> (\<exists>(x, rec) \<in> set as. ur_RequestID rec = k)"
proof (induction as arbitrary: s)
  case (Cons a as)
  obtain y r where a: "a = (y, r)" by (cases a)
  show ?case
    using Cons.prems Cons.IH [OF inv_ins [OF Cons.prems(1), of y r]] billed_ins [OF Cons.prems(1), of y r]
    by (auto simp: a split_beta)
qed simp

end

abbreviation Postgres_attempt ::
  "time \<times> exec_outcome \<Rightarrow> UsageRecord \<Rightarrow> usage_table \<Rightarrow> usage_table \<times> store_error option" where
  "Postgres_attempt \<equiv> \<lambda>x. Postgres_Insert (fst x) (snd x)"

abbreviation JSONL_attempt ::
  "time \<times> file_outcome \<Rightarrow> UsageRecord \<Rightarrow> JSONL \<Rightarrow> JSONL \<times> store_error option" where
  "JSONL_attempt \<equiv> \<lambda>x. JSONL_Insert (fst x) (snd x)"

text \<open>What this process has appended to a file that held \<open>content\<close> when it was opened.\<close>

definition jsonl_billed :: "jsonl_chunk list \<Rightarrow> JSONL \<Rightarrow> string list" where
  "jsonl_billed content j = List.map_filter (\<lambda>c. case c of Line l \<Rightarrow> Some (jl_request_id l) | Fragment \<Rightarrow> None)
     (drop (length content) (jsonl_file j))"

definition jsonl_inv :: "jsonl_chunk list \<Rightarrow> JSONL \<Rightarrow> bool" where
  "jsonl_inv content j \<longleftrightarrow> length content \<le> length (jsonl_file j) \<and>
     set (jsonl_billed content j) = jsonl_seen j \<and> distinct (jsonl_billed content j)"

lemma map_filter_append: "List.map_filter f (xs @ ys) = List.map_filter f xs @ List.map_filter f ys"
  by (simp add: List.map_filter_def)

interpretation pg: usage_ledger Postgres_attempt "map row_request_id" "\<lambda>tbl. distinct (map row_request_id tbl)"
  by unfold_locales
    (auto simp: Postgres_Insert_def insert_usage_def row_of_def split: option.splits exec_outcome.splits
      if_splits)

interpretation jsonl: usage_ledger JSONL_attempt "jsonl_billed content" "jsonl_inv content" for content
  by unfold_locales
    (auto simp: JSONL_Insert_def jsonl_inv_def jsonl_billed_def line_of_def map_filter_append
      map_filter_simps split: option.splits file_outcome.splits if_splits)

lemma jsonl_inv_Open: "jsonl_inv content (OpenJSONL content)"
  by (simp add: jsonl_inv_def OpenJSONL_def jsonl_billed_def map_filter_simps)

end
