(* ===== verification/UsageProps.thy ===== *)
theory UsageProps
  imports UsageStore
begin

text \<open>
  The properties of the usage ledger: every request is billed once however often it is reported, the
  counts that cannot be stored are refused, and the figures of a summary agree with each other.
\<close>

subsection \<open>Idempotent inserts\<close>

lemma Postgres_Insert_rows:
  "\<exists>added. fst (Postgres_Insert now ex rec tbl) = tbl @ added \<and>
     (\<forall>row \<in> set added. row = row_of now rec \<and> check_constraints row)"
  by (auto simp: Postgres_Insert_def insert_usage_def split: option.split exec_outcome.split)

lemma Postgres_run_rows:
  "\<exists>added. fst (run_attempts Postgres_attempt as tbl) = tbl @ added \<and>
     (\<forall>row \<in> set added. check_constraints row \<and> (\<exists>now ex rec. ((now, ex), rec) \<in> set as \<and> row = row_of now rec))"
proof (induction as arbitrary: tbl)
  case (Cons a as)
  obtain now ex rec where a: "a = ((now, ex), rec)" by (metis prod.exhaust)
  from Postgres_Insert_rows obtain add1 where 1: "fst (Postgres_Insert now ex rec tbl) = tbl @ add1"
    "\<forall>row \<in> set add1. row = row_of now rec \<and> check_constraints row" by blast
  from Cons.IH [of "tbl @ add1"] obtain add2 where
    "fst (run_attempts Postgres_attempt as (tbl @ add1)) = (tbl @ add1) @ add2"
    "\<forall>row \<in> set add2. check_constraints row \<and> (\<exists>now ex rec. ((now, ex), rec) \<in> set as \<and> row = row_of now rec)"
    by blast
  with 1 show ?case by (intro exI [of _ "add1 @ add2"]) (auto simp: a split_beta, blast)
qed simp

text \<open>C11. A usage report may be repeated at will. Over any run of insert attempts against the database,
  with statements lost on the way in or on the way back, every request ID ends up in at most one row;
  a report that was answered without error is in the table; rows once written stay; and every new row
  is the row of one of the attempts.\<close>

theorem Postgres_bills_once:
  assumes "distinct (map row_request_id tbl)"
    and "run_attempts Postgres_attempt as tbl = (tbl', es)"
  shows "distinct (map row_request_id tbl') \<and> prefix tbl tbl' \<and>
    (\<forall>x rec. ((x, rec), None) \<in> set (zip as es) \<longrightarrow> ur_RequestID rec \<in> set (map row_request_id tbl')) \<and>
    (\<forall>row \<in> set tbl'. row \<in> set tbl \<or> (\<exists>now ex rec. ((now, ex), rec) \<in> set as \<and> row = row_of now rec))"
  using pg.bills_once [OF assms(1), of as] pg.success_bills [OF assms(1), of _ _ as]
    Postgres_run_rows [of as tbl] assms(2) by (auto, blast)

lemma distinct_set_single: "distinct xs \<Longrightarrow> set xs = {x} \<Longrightarrow> xs = [x]"
  by (cases xs; cases "tl xs") auto

definition demo_usage :: UsageRecord where
  "demo_usage = \<lparr>ur_RequestID = ''r1'', ur_Timestamp = 5 * millisecond, ur_ServedModelName = ''qwen'',
     ur_NodeID = ''n1'', ur_DeploymentID = ''d1'', ur_APIKeyID = ''k1'', ur_PromptTokens = 12,
     ur_CompletionTokens = 30\<rparr>"

theorem Postgres_bills_once_witness:
  "map row_request_id (fst (run_attempts Postgres_attempt
     [((0, AnswerLost), demo_usage), ((1, NotExecuted), demo_usage), ((2, Answered), demo_usage)] [])) = [''r1'']"
proof -
  let ?run = "run_attempts Postgres_attempt
     [((0, AnswerLost), demo_usage), ((1, NotExecuted), demo_usage), ((2, Answered), demo_usage)] []"
  have "?run = (fst ?run, snd ?run)" by (rule prod.collapse [symmetric])
  from Postgres_bills_once [OF _ this] have "distinct (map row_request_id (fst ?run))" by simp
  moreover have "set (map row_request_id (fst ?run)) = {''r1''}"
    by (simp add: Postgres_Insert_def demo_usage_def validate_def insert_usage_def row_of_def
        check_constraints_def)
  ultimately show ?thesis by (rule distinct_set_single)
qed

text \<open>The fallback file bills once per process as well: over any run of attempts after the file was
  opened, including failed opens and writes cut short, no request ID is on two of the lines this process
  appended, a report answered without error is on one of them, and what the file held before is still
  there.\<close>

theorem JSONL_bills_once:
  assumes "run_attempts JSONL_attempt as (OpenJSONL content) = (j, es)"
  shows "distinct (jsonl_billed content j) \<and>
    (\<forall>x rec. ((x, rec), None) \<in> set (zip as es) \<longrightarrow> ur_RequestID rec \<in> set (jsonl_billed content j)) \<and>
    prefix content (jsonl_file j)"
proof -
  have "\<exists>added. jsonl_file (fst (run_attempts JSONL_attempt as j0)) = jsonl_file j0 @ added" for j0
  proof (induction as arbitrary: j0)
    case (Cons a as)
    obtain x rec where a: "a = (x, rec)" by (cases a)
    have "\<exists>added. jsonl_file (fst (JSONL_Insert (fst x) (snd x) rec j0)) = jsonl_file j0 @ added"
      by (auto simp: JSONL_Insert_def split: option.split file_outcome.split)
    with Cons.IH [of "fst (JSONL_Insert (fst x) (snd x) rec j0)"] show ?case
      by (auto simp: a split_beta)
  qed simp
  then have "prefix content (jsonl_file j)"
    using assms by (metis OpenJSONL_def JSONL.select_convs(1) fst_conv prefixI)
  then show ?thesis
    using jsonl.bills_once [OF jsonl_inv_Open, of content as] assms
      jsonl.success_bills [OF jsonl_inv_Open, of _ _ as content] by auto
qed

theorem JSONL_bills_once_witness:
  "jsonl_billed [Fragment] (fst (run_attempts JSONL_attempt
     [((0, WriteFailed True), demo_usage), ((1, Written), demo_usage), ((2, Written), demo_usage)]
     (OpenJSONL [Fragment]))) = [''r1'']"
proof -
  let ?run = "run_attempts JSONL_attempt
     [((0, WriteFailed True), demo_usage), ((1, Written), demo_usage), ((2, Written), demo_usage)]
     (OpenJSONL [Fragment])"
  have "?run = (fst ?run, snd ?run)" by (rule prod.collapse [symmetric])
  from JSONL_bills_once [OF this] have "distinct (jsonl_billed [Fragment] (fst ?run))" by simp
  moreover have "set (jsonl_billed [Fragment] (fst ?run)) = {''r1''}"
    by (simp add: JSONL_Insert_def demo_usage_def validate_def OpenJSONL_def line_of_def jsonl_billed_def
        map_filter_simps)
  ultimately show ?thesis by (rule distinct_set_single)
qed

subsection \<open>Counts that do not fit\<close>

lemma sint_nonneg_iff: "0 \<le> sint (w :: u64) \<longleftrightarrow> uint w < 2 ^ 63"
proof -
  have "uint w < 2 ^ 64" using uint_lt2p [of w] by simp
  then have "odd (uint w div 2 ^ 63) \<longleftrightarrow> 2 ^ 63 \<le> uint w"
    by (cases "uint w < 2 ^ 63") (simp_all add: div_pos_pos_trivial div_pos_geq)
  then have "bit (uint w) 63 \<longleftrightarrow> 2 ^ 63 \<le> uint w" by (simp add: bit_iff_odd)
  then show ?thesis by (simp add: sint_uint not_less [symmetric])
qed

text \<open>The database holds only counts that can be billed. A count is converted to a signed 64-bit
  integer before it is stored; from two to the power of 63 on it would turn negative, and such a report
  is always refused and leaves the table alone, so no stored count is negative or differs from the one
  reported.\<close>

theorem Postgres_Insert_no_wrap:
  assumes "Postgres_Insert now ex rec tbl = (tbl', err)"
  shows "(2 ^ 63 \<le> uint (ur_PromptTokens rec) \<or> 2 ^ 63 \<le> uint (ur_CompletionTokens rec) \<longrightarrow>
       tbl' = tbl \<and> err \<noteq> None) \<and>
     (tbl' \<noteq> tbl \<longrightarrow> (\<exists>row. tbl' = tbl @ [row] \<and> row_request_id row = ur_RequestID rec \<and>
       row_prompt_tokens row = uint (ur_PromptTokens rec) \<and>
       row_completion_tokens row = uint (ur_CompletionTokens rec)))"
proof -
  have s: "sint w = uint w" if "0 \<le> sint w" for w :: u64
    using that sint_nonneg_iff [of w]
    by (simp add: sint_uint signed_take_bit_int_eq_self_iff order_trans [OF _ uint_ge_0])
  show ?thesis
  proof (cases "validate rec")
    case None
    then show ?thesis
      using assms s
      by (auto simp: Postgres_Insert_def insert_usage_def row_of_def check_constraints_def
          sint_nonneg_iff split: exec_outcome.splits if_splits)
  next
    case (Some e)
    from assms show ?thesis unfolding Postgres_Insert_def Some by auto
  qed
qed

theorem Postgres_Insert_no_wrap_witness:
  "snd (Postgres_Insert 0 Answered (demo_usage\<lparr>ur_PromptTokens := 2 ^ 63\<rparr>) []) \<noteq> None \<and>
   fst (Postgres_Insert 0 Answered demo_usage []) \<noteq> []"
proof -
  let ?r = "demo_usage\<lparr>ur_PromptTokens := 2 ^ 63\<rparr>"
  have "Postgres_Insert 0 Answered ?r [] = (fst (Postgres_Insert 0 Answered ?r []), snd (Postgres_Insert 0 Answered ?r []))"
    by simp
  from Postgres_Insert_no_wrap [OF this] show ?thesis
    by (simp add: demo_usage_def Postgres_Insert_def validate_def insert_usage_def row_of_def
        check_constraints_def)
qed

subsection \<open>Summaries\<close>

lemma sum_groups:
  "distinct ks \<Longrightarrow> col ` set rows \<subseteq> set ks \<Longrightarrow>
     (\<Sum>k\<leftarrow>ks. \<Sum>r\<leftarrow>filter (\<lambda>r. col r = k) rows. f r) = (\<Sum>r\<leftarrow>rows. f r :: int)"
proof (induction rows)
  case (Cons r rows)
  have "(\<Sum>k\<leftarrow>ks. \<Sum>r\<leftarrow>filter (\<lambda>r. col r = k) (r # rows). f r) =
      (\<Sum>k\<leftarrow>ks. (if k = col r then f r else 0) + (\<Sum>r\<leftarrow>filter (\<lambda>r. col r = k) rows. f r))"
    by (rule arg_cong [where f = sum_list]) (auto intro!: map_cong)
  also have "\<dots> = (\<Sum>k\<leftarrow>ks. if k = col r then f r else 0) + (\<Sum>r\<leftarrow>rows. f r)"
    using Cons by (simp add: sum_list_addf)
  also have "(\<Sum>k\<leftarrow>ks. if k = col r then f r else 0) = f r"
    using Cons.prems by (simp add: sum_list_distinct_conv_sum_set)
  finally show ?case by simp
qed (induction ks, auto)

lemma group_keys_props [simp]:
  "distinct (group_keys coll col rows)" "set (group_keys coll col rows) = col ` set rows"
  by (simp_all add: group_keys_def)

text \<open>The database driver reads every number an \<^verbatim>\<open>int64\<close> can hold.\<close>

definition scans_int64 :: "(int \<Rightarrow> u64 option) \<Rightarrow> bool" where
  "scans_int64 scan \<longleftrightarrow> (\<forall>n. 0 \<le> n \<and> n < 2 ^ 63 \<longrightarrow> scan n = Some (word_of_int n))"

definition billable :: "usage_table \<Rightarrow> bool" where
  "billable tbl \<longleftrightarrow> (\<forall>row \<in> set tbl. check_constraints row) \<and> int (length tbl) < 2 ^ 63 \<and>
     (\<Sum>r\<leftarrow>tbl. row_prompt_tokens r) < 2 ^ 63 \<and> (\<Sum>r\<leftarrow>tbl. row_completion_tokens r) < 2 ^ 63"

lemma sum_filter_le:
  "\<forall>r \<in> set rows. 0 \<le> f r \<Longrightarrow> (\<Sum>r\<leftarrow>filter P rows. f r) \<le> (\<Sum>r\<leftarrow>rows. f r :: int)"
  by (induction rows) auto

lemma sum_list_nonneg': "\<forall>r \<in> set rows. 0 \<le> f r \<Longrightarrow> 0 \<le> (\<Sum>r\<leftarrow>rows. f r :: int)"
  by (induction rows) auto

lemma billable_filter:
  assumes "billable tbl"
  shows "billable (filter P tbl)"
proof -
  have "(\<Sum>r\<leftarrow>filter P tbl. row_prompt_tokens r) \<le> (\<Sum>r\<leftarrow>tbl. row_prompt_tokens r)"
    and "(\<Sum>r\<leftarrow>filter P tbl. row_completion_tokens r) \<le> (\<Sum>r\<leftarrow>tbl. row_completion_tokens r)"
    using assms by (auto intro!: sum_filter_le simp: billable_def check_constraints_def)
  then show ?thesis
    using assms by (auto simp: billable_def intro: le_less_trans [OF length_filter_le])
qed

lemma uint_word_of_int_small: "0 \<le> n \<Longrightarrow> n < 2 ^ 63 \<Longrightarrow> uint (word_of_int n :: u64) = n"
  by (simp add: uint_word_of_int)

lemma aggregate_billable:
  assumes "scans_int64 scan" and "billable rows"
  shows "\<exists>t. aggregate scan key rows = Some t \<and> tt_Key t = key \<and> uint (tt_Requests t) = int (length rows) \<and>
    uint (tt_PromptTokens t) = (\<Sum>r\<leftarrow>rows. row_prompt_tokens r) \<and>
    uint (tt_CompletionTokens t) = (\<Sum>r\<leftarrow>rows. row_completion_tokens r)"
proof -
  have "0 \<le> (\<Sum>r\<leftarrow>rows. row_prompt_tokens r)" "0 \<le> (\<Sum>r\<leftarrow>rows. row_completion_tokens r)"
    using assms(2) by (auto intro!: sum_list_nonneg' simp: billable_def check_constraints_def)
  with assms show ?thesis
    by (simp add: aggregate_def scans_int64_def billable_def uint_word_of_int_small
        del: of_int_of_nat_eq)
qed

lemma collect_Some: "\<forall>x \<in> set xs. f x \<noteq> None \<Longrightarrow> collect (map f xs) = Some (map (the \<circ> f) xs)"
  by (induction xs) auto

lemma groupBy_billable:
  assumes "scans_int64 scan" and "billable tbl" and "column_of column = Some col"
    and rows_def: "rows = filter (in_window from to) tbl"
  shows "\<exists>ts. groupBy scan coll True column from to tbl = Inr (Some ts) \<and>
    map tt_Key ts = group_keys coll col rows \<and>
    (\<Sum>t\<leftarrow>ts. uint (tt_Requests t)) = int (length rows) \<and>
    (\<Sum>t\<leftarrow>ts. uint (tt_PromptTokens t)) = (\<Sum>r\<leftarrow>rows. row_prompt_tokens r) \<and>
    (\<Sum>t\<leftarrow>ts. uint (tt_CompletionTokens t)) = (\<Sum>r\<leftarrow>rows. row_completion_tokens r)"
proof -
  let ?g = "\<lambda>k. filter (\<lambda>r. col r = k) rows"
  let ?agg = "\<lambda>k. aggregate scan k (?g k)"
  let ?ks = "group_keys coll col rows"
  have agg: "\<exists>t. ?agg k = Some t \<and> tt_Key t = k \<and> uint (tt_Requests t) = int (length (?g k)) \<and>
      uint (tt_PromptTokens t) = (\<Sum>r\<leftarrow>?g k. row_prompt_tokens r) \<and>
      uint (tt_CompletionTokens t) = (\<Sum>r\<leftarrow>?g k. row_completion_tokens r)" for k
    using assms(1,2) by (auto intro!: aggregate_billable billable_filter simp: rows_def)
  then have the: "tt_Key (the (?agg k)) = k" "uint (tt_Requests (the (?agg k))) = int (length (?g k))"
    "uint (tt_PromptTokens (the (?agg k))) = (\<Sum>r\<leftarrow>?g k. row_prompt_tokens r)"
    "uint (tt_CompletionTokens (the (?agg k))) = (\<Sum>r\<leftarrow>?g k. row_completion_tokens r)" for k
    by (metis option.sel)+
  have "collect (map ?agg ?ks) = Some (map (the \<circ> ?agg) ?ks)"
    by (rule collect_Some) (metis agg option.distinct(1))
  then have "groupBy scan coll True column from to tbl = Inr (Some (map (the \<circ> ?agg) ?ks))"
    by (simp add: groupBy_def assms(3) rows_def)
  moreover have "int (length xs) = (\<Sum>x\<leftarrow>xs. 1)" for xs :: "usage_row list"
    by (induction xs) auto
  ultimately show ?thesis
    using sum_groups [of ?ks col rows] by (simp add: comp_def the)
qed


definition demo_scan :: "int \<Rightarrow> u64 option" where
  "demo_scan n = (if 0 \<le> n \<and> n < 2 ^ 63 then Some (word_of_int n) else None)"


end
