(* ===== verification/CoordServer.thy ===== *)
theory CoordServer
  imports Scheduler Interleaving UsageProps
begin

text \<open>
  The gRPC server of the coordinator (\<^verbatim>\<open>coordinator/internal/server/server.go\<close>): authentication, the
  stream of one agent, and the admin and gateway services, composed from the registry, the scheduler,
  the deployment manager and the usage store. Error texts are not modelled beyond the status code.
\<close>

subsection \<open>Status codes and authentication\<close>

text \<open>\<open>StreamError\<close> is an error of the stream itself, passed on as it is.\<close>

datatype status_code =
    Unauthenticated
  | InvalidArgument
  | NotFound
  | FailedPrecondition
  | Unavailable
  | Internal
  | StreamError

text \<open>
  \<open>md\<close> is the incoming metadata: absent, or the values of the \<^verbatim>\<open>authorization\<close> key. The prefix is
  compared byte by byte without regard to ASCII case, which is what \<^verbatim>\<open>strings.EqualFold\<close> does here:
  none of the letters of \<^verbatim>\<open>bearer\<close> folds to a character outside ASCII.
\<close>

definition checkToken :: "string list option \<Rightarrow> string \<Rightarrow> status_code option" where
  "checkToken md want =
     (case md of
        None \<Rightarrow> Some Unauthenticated
      | Some [] \<Rightarrow> Some Unauthenticated
      | Some (got # _) \<Rightarrow>
          (let pre = ''bearer ''
           in if length got < length pre \<or> \<not> EqualFold (take (length pre) got) pre \<or>
                 drop (length pre) got \<noteq> want
              then Some Unauthenticated else None))"

definition unaryAuthInterceptor ::
  "string \<Rightarrow> string list option \<Rightarrow> ('s \<Rightarrow> 's \<times> (status_code + 'a)) \<Rightarrow> 's \<Rightarrow> 's \<times> (status_code + 'a)" where
  "unaryAuthInterceptor token md handler s =
     (case checkToken md token of Some e \<Rightarrow> (s, Inl e) | None \<Rightarrow> handler s)"

definition streamAuthInterceptor ::
  "string \<Rightarrow> string list option \<Rightarrow> ('s \<Rightarrow> 's \<times> status_code option) \<Rightarrow> 's \<Rightarrow> 's \<times> status_code option" where
  "streamAuthInterceptor token md handler s =
     (case checkToken md token of Some e \<Rightarrow> (s, Some e) | None \<Rightarrow> handler s)"

subsection \<open>The coordinator's state and the circumstances of one event\<close>

record Coordinator =
  co_reg :: Registry
  co_sched :: Scheduler
  co_deploy :: Manager
  co_sent :: outbox

definition New_Coordinator :: Coordinator where
  "New_Coordinator = \<lparr>co_reg = New, co_sched = New_Scheduler, co_deploy = New_Manager, co_sent = []\<rparr>"

text \<open>
  What an event meets: the clock, the ID a \<^verbatim>\<open>uuid.NewString\<close> would return, the orders in which the
  tables are ranged over, and which sends succeed.
\<close>

record event_env =
  ev_now :: time
  ev_newID :: string
  ev_nord :: "string list"
  ev_jord :: "string list"
  ev_dord :: "string list"
  ev_net :: network

definition HeartbeatIntervalS :: u32 where
  "HeartbeatIntervalS = 10"

subsection \<open>AgentService.Connect\<close>

definition with_deploy :: "Coordinator \<Rightarrow> (Manager \<times> outbox \<Rightarrow> Manager \<times> outbox) \<Rightarrow> Coordinator" where
  "with_deploy w f = (let (m, ob) = f (co_deploy w, co_sent w) in w\<lparr>co_deploy := m, co_sent := ob\<rparr>)"

text \<open>One message received on the stream \<open>str\<close> of the node \<open>nodeID\<close>: the switch in the loop.\<close>

definition handle_message :: "event_env \<Rightarrow> string \<Rightarrow> stream \<Rightarrow> AgentMessage \<Rightarrow> Coordinator \<Rightarrow> Coordinator" where
  "handle_message e nodeID str msg w =
     (case msg of
        AM_Heartbeat hb \<Rightarrow>
          (let w1 = w\<lparr>co_reg := Touch (ev_now e) nodeID hb (co_reg w)\<rparr>;
               w2 = w1\<lparr>co_sched := Reconcile_jobs (ev_jord e) (ev_now e) nodeID (hb_active_job_ids hb)
                                    (co_sched w1)\<rparr>
           in with_deploy w2 (OnHeartbeat (ev_dord e) (ev_now e) (ev_net e) (co_reg w2) nodeID
                                (hb_active_deployment_ids hb)))
      | AM_JobUpdate upd \<Rightarrow> w\<lparr>co_sched := OnJobUpdate (ev_now e) nodeID upd (co_sched w)\<rparr>
      | AM_DeploymentUpdate upd \<Rightarrow>
          with_deploy w (OnUpdate (ev_now e) (ev_net e) (co_reg w) nodeID upd)
      | AM_Register reg \<Rightarrow> w\<lparr>co_reg := fst (Upsert (ev_newID e) (ev_now e) reg str (co_reg w))\<rparr>
      | AM_Unset \<Rightarrow> w)"

text \<open>
  The start of a stream: the first message must register the node, which is then acknowledged. The
  result is the node ID, or the status the stream ends with.
\<close>

definition connect_open ::
  "event_env \<Rightarrow> stream \<Rightarrow> AgentMessage \<Rightarrow> Coordinator \<Rightarrow> Coordinator \<times> (status_code + string)" where
  "connect_open e str first w =
     (case first of
        AM_Register reg \<Rightarrow>
          (let (r, nodeID) = Upsert (ev_newID e) (ev_now e) reg str (co_reg w);
               (ob, ok) = stream_Send (ev_net e) (co_sent w) str (CM_RegisterAck nodeID HeartbeatIntervalS)
           in if ok then (w\<lparr>co_reg := r, co_sent := ob\<rparr>, Inr nodeID)
              else (w\<lparr>co_reg := MarkDisconnected nodeID r, co_sent := ob\<rparr>, Inl StreamError))
      | _ \<Rightarrow> (w, Inl InvalidArgument))"

definition connect_close :: "string \<Rightarrow> Coordinator \<Rightarrow> Coordinator" where
  "connect_close nodeID w = w\<lparr>co_reg := MarkDisconnected nodeID (co_reg w)\<rparr>"

text \<open>
  The whole handler on the results of its receives. The loop ends with the stream, cleanly or not, and
  the deferred call disconnects the node either way; \<open>None\<close> says it is still waiting.
\<close>

datatype recv = Received AgentMessage | EndOfStream | RecvFailed

fun connect_loop ::
  "string \<Rightarrow> stream \<Rightarrow> (event_env \<times> recv) list \<Rightarrow> Coordinator \<Rightarrow> Coordinator \<times> status_code option option" where
  "connect_loop nodeID str [] w = (w, None)"
| "connect_loop nodeID str ((e, Received msg) # evs) w =
     connect_loop nodeID str evs (handle_message e nodeID str msg w)"
| "connect_loop nodeID str ((e, EndOfStream) # evs) w = (connect_close nodeID w, Some None)"
| "connect_loop nodeID str ((e, RecvFailed) # evs) w = (connect_close nodeID w, Some (Some StreamError))"

definition Connect ::
  "stream \<Rightarrow> (event_env \<times> recv) list \<Rightarrow> Coordinator \<Rightarrow> Coordinator \<times> status_code option option" where
  "Connect str evs w =
     (case evs of
        [] \<Rightarrow> (w, None)
      | (e, Received first) # evs' \<Rightarrow>
          (case connect_open e str first w of
             (w', Inl c) \<Rightarrow> (w', Some (Some c))
           | (w', Inr nodeID) \<Rightarrow> connect_loop nodeID str evs' w')
      | (e, _) # evs' \<Rightarrow> (w, Some (Some StreamError)))"

subsection \<open>AdminService\<close>

definition ListNodes :: "event_env \<Rightarrow> Coordinator \<Rightarrow> NodeSummary list" where
  "ListNodes e w =
     map (\<lambda>n. n\<lparr>ns_deployment_ids := DeploymentIDsOn (ev_dord e) (ns_node_id n) (co_deploy w)\<rparr>)
       (List_nodes (ev_nord e) (co_reg w))"

definition admin_RunJob ::
  "event_env \<Rightarrow> string \<Rightarrow> JobSpec option \<Rightarrow> Coordinator \<Rightarrow> Coordinator \<times> (status_code + string)" where
  "admin_RunJob e nodeID spec w =
     (if nodeID = [] then (w, Inl InvalidArgument)
      else if GetImage spec = [] then (w, Inl InvalidArgument)
      else
        (let (s, ob, res) = RunJob (ev_newID e) (ev_now e) (ev_net e) (co_reg w) nodeID (the spec)
                              (co_sched w) (co_sent w);
             w' = w\<lparr>co_sched := s, co_sent := ob\<rparr>
         in (w', case res of
                   Inl (ErrUnknownNode _) \<Rightarrow> Inl NotFound
                 | Inl (ErrNodeOffline _) \<Rightarrow> Inl FailedPrecondition
                 | Inl _ \<Rightarrow> Inl Unavailable
                 | Inr jobID \<Rightarrow> Inr jobID)))"

definition CreateDeployment ::
  "event_env \<Rightarrow> DeploymentSpec option \<Rightarrow> u32 \<Rightarrow> Coordinator \<Rightarrow> Coordinator \<times> (status_code + string)" where
  "CreateDeployment e spec replicas w =
     (let ((m, ob), res) = Create (ev_newID e) (ev_dord e) (ev_nord e) (ev_now e) (ev_net e) (co_reg w)
                             spec replicas (co_deploy w, co_sent w)
      in (w\<lparr>co_deploy := m, co_sent := ob\<rparr>,
          case res of
            Inl (ErrInvalidSpec _) \<Rightarrow> Inl InvalidArgument
          | Inl ErrReplicasUnsupp \<Rightarrow> Inl InvalidArgument
          | Inl _ \<Rightarrow> Inl Internal
          | Inr k \<Rightarrow> Inr k))"

definition DeleteDeployment ::
  "event_env \<Rightarrow> string \<Rightarrow> Coordinator \<Rightarrow> Coordinator \<times> (status_code + unit)" where
  "DeleteDeployment e dID w =
     (let ((m, ob), err) = Delete (ev_net e) (co_reg w) dID (co_deploy w, co_sent w)
      in (w\<lparr>co_deploy := m, co_sent := ob\<rparr>,
          case err of
            None \<Rightarrow> Inr ()
          | Some (ErrUnknownDeploy _) \<Rightarrow> Inl NotFound
          | Some _ \<Rightarrow> Inl Internal))"

definition ListDeployments :: "event_env \<Rightarrow> Coordinator \<Rightarrow> DeploymentSummary list" where
  "ListDeployments e w = List_deployments (ev_dord e) (co_deploy w)"

subsection \<open>GatewayService\<close>

definition ResolveModel :: "event_env \<Rightarrow> string \<Rightarrow> Coordinator \<Rightarrow> status_code + ReplicaAddr list" where
  "ResolveModel e model w =
     (if model = [] then Inl InvalidArgument
      else Inr (Resolve (ev_dord e) (co_reg w) model (co_deploy w)))"

definition ListModels :: "event_env \<Rightarrow> bool \<Rightarrow> Coordinator \<Rightarrow> string list" where
  "ListModels e includeUnready w =
     (if includeUnready then DeployedModels (ev_dord e) (co_deploy w)
      else ServableModels (ev_dord e) (co_reg w) (co_deploy w))"

text \<open>The store is whichever was configured; \<open>ins\<close> is its insert.\<close>

definition usage_record :: "time \<Rightarrow> ReportUsageRequest \<Rightarrow> UsageRecord" where
  "usage_record now req =
     \<lparr>ur_RequestID = ru_request_id req,
      ur_Timestamp = (if 0 < ru_timestamp_unix_ms req then fromUnixMilli (ru_timestamp_unix_ms req) else now),
      ur_ServedModelName = ru_served_model_name req, ur_NodeID = ru_node_id req,
      ur_DeploymentID = ru_deployment_id req, ur_APIKeyID = ru_api_key_id req,
      ur_PromptTokens = ru_prompt_tokens req, ur_CompletionTokens = ru_completion_tokens req\<rparr>"

definition ReportUsage ::
  "(UsageRecord \<Rightarrow> 's \<Rightarrow> 's \<times> store_error option) \<Rightarrow> time \<Rightarrow> ReportUsageRequest \<Rightarrow> 's
     \<Rightarrow> 's \<times> (status_code + unit)" where
  "ReportUsage ins now req s =
     (if ru_request_id req = [] then (s, Inl InvalidArgument)
      else
        (let (s', err) = ins (usage_record now req) s
         in (s', case err of
                   None \<Rightarrow> Inr ()
                 | Some (ErrInvalidRecord _) \<Rightarrow> Inl InvalidArgument
                 | Some _ \<Rightarrow> Inl Unavailable)))"

subsection \<open>Usage summaries\<close>

definition defaultSummaryWindow :: duration where
  "defaultSummaryWindow = 24 * 60 * minute"

record UsageSummaryResponse =
  us_from_unix_ms :: int
  us_to_unix_ms :: int
  us_total :: UsageTotals
  us_by_node :: "UsageTotals list"
  us_by_api_key :: "UsageTotals list"

definition totalsToProto :: "Totals \<Rightarrow> UsageTotals" where
  "totalsToProto t = \<lparr>ut_key = tt_Key t, ut_requests = tt_Requests t,
     ut_prompt_tokens = tt_PromptTokens t, ut_completion_tokens = tt_CompletionTokens t\<rparr>"

fun totalsSliceToProto :: "Totals list \<Rightarrow> UsageTotals list" where
  "totalsSliceToProto [] = []"
| "totalsSliceToProto (t # ts) = totalsToProto t # totalsSliceToProto ts"

definition summary_window :: "time \<Rightarrow> int \<Rightarrow> int \<Rightarrow> time \<times> time" where
  "summary_window now fromMs toMs =
     (let to = (if 0 < toMs then fromUnixMilli toMs else now);
          from = (if 0 < fromMs then fromUnixMilli fromMs else to - defaultSummaryWindow)
      in (from, to))"

definition GetUsageSummary ::
  "(time \<Rightarrow> time \<Rightarrow> store_error + Summary) \<Rightarrow> time \<Rightarrow> int \<Rightarrow> int \<Rightarrow> status_code + UsageSummaryResponse" where
  "GetUsageSummary summarize now fromMs toMs =
     (let (from, to) = summary_window now fromMs toMs
      in if \<not> from < to then Inl InvalidArgument
         else case summarize from to of
                Inl e \<Rightarrow> Inl FailedPrecondition
              | Inr s \<Rightarrow> Inr \<lparr>us_from_unix_ms = unixMilli from, us_to_unix_ms = unixMilli to,
                  us_total = totalsToProto (sm_Total s),
                  us_by_node = totalsSliceToProto (sm_ByNode s),
                  us_by_api_key = totalsSliceToProto (sm_ByAPIKey s)\<rparr>)"

end
