(* ===== verification/CoordProps.thy ===== *)
theory CoordProps
  imports CoordServer
begin

text \<open>
  The coordinator as a whole: authentication, what holds in every state its handlers and tickers can
  reach together, the end of an agent's stream, and billing through the gateway service.
\<close>

subsection \<open>Authentication\<close>

text \<open>Only callers that present the token get past the interceptor, to unary calls and streams
  alike: the handler runs exactly when the first authorization value is the word bearer, in any case, a
  blank, and the configured token byte for byte; otherwise the state is untouched and the caller gets
  \<^verbatim>\<open>Unauthenticated\<close>.\<close>

theorem auth_gate:
  "(checkToken md token = None \<longleftrightarrow>
      (\<exists>pre rest. md = Some ((pre @ token) # rest) \<and> ToLower pre = ''bearer '')) \<and>
   (checkToken md token \<noteq> None \<longrightarrow>
      unaryAuthInterceptor token md h s = (s, Inl Unauthenticated) \<and>
      streamAuthInterceptor token md h' s = (s, Some Unauthenticated)) \<and>
   (checkToken md token = None \<longrightarrow>
      unaryAuthInterceptor token md h s = h s \<and> streamAuthInterceptor token md h' s = h' s)"
proof -
  have low: "ToLower ''bearer '' = ''bearer ''" by code_simp
  have "checkToken md token = None \<longleftrightarrow> (\<exists>pre rest. md = Some ((pre @ token) # rest) \<and> ToLower pre = ''bearer '')"
  proof
    assume "checkToken md token = None"
    then obtain got rest where "md = Some (got # rest)" "ToLower (take (length ''bearer '') got) = ''bearer ''"
      and tok: "drop (length ''bearer '') got = token"
      by (auto simp: checkToken_def EqualFold_def low split: option.splits list.splits if_splits)
    then show "\<exists>pre rest. md = Some ((pre @ token) # rest) \<and> ToLower pre = ''bearer ''"
      by (intro exI [of _ "take (length ''bearer '') got"] exI [of _ rest]) (simp flip: tok)
  next
    assume "\<exists>pre rest. md = Some ((pre @ token) # rest) \<and> ToLower pre = ''bearer ''"
    then obtain pre rest where "md = Some ((pre @ token) # rest)" "ToLower pre = ''bearer ''" by blast
    moreover from this(2) have "length pre = 7" using arg_cong [of _ _ length] by (fastforce simp: ToLower_def)
    ultimately show "checkToken md token = None" by (simp add: checkToken_def EqualFold_def low)
  qed
  moreover have "checkToken md token = None \<or> checkToken md token = Some Unauthenticated"
    by (auto simp: checkToken_def split: option.split list.split)
  ultimately show ?thesis by (auto simp: unaryAuthInterceptor_def streamAuthInterceptor_def)
qed

theorem auth_gate_witness:
  "checkToken (Some [''Bearer s3'']) ''s3'' = None \<and> checkToken (Some [''Basic s3'']) ''s3'' \<noteq> None"
proof -
  have l: "ToLower ''Bearer '' = ''bearer ''" by code_simp
  have "checkToken (Some [''Bearer s3'']) ''s3'' = None"
    using auth_gate [of "Some [''Bearer s3'']" "''s3''" "\<lambda>s :: unit. (s, Inr ())" "()" "\<lambda>s. (s, None)"] l
    by (auto intro!: exI [of _ "''Bearer ''"])
  moreover have "checkToken (Some [''Basic s3'']) ''s3'' \<noteq> None"
    by (simp add: checkToken_def)
  ultimately show ?thesis by blast
qed

subsection \<open>The coordinator as a transition system\<close>

text \<open>
  The state is the coordinator with the live streams and the node each belongs to. Handlers of different
  streams and services and the two tickers take turns, event by event. IDs minted by \<^verbatim>\<open>uuid.NewString\<close>
  are fresh and not empty.
\<close>

type_synonym live = "stream \<rightharpoonup> string"

definition orders_ok :: "event_env \<Rightarrow> Coordinator \<Rightarrow> bool" where
  "orders_ok e w \<longleftrightarrow> map_order (ev_nord e) (nodes (co_reg w)) \<and> map_order (ev_jord e) (jobs (co_sched w)) \<and>
     map_order (ev_dord e) (deploy (co_deploy w))"

inductive coord_step :: "Coordinator \<times> live \<Rightarrow> Coordinator \<times> live \<Rightarrow> bool" where
  opened: "live str = None \<Longrightarrow> connect_open e str first w = (w', Inr nodeID) \<Longrightarrow>
     coord_step (w, live) (w', live(str \<mapsto> nodeID))"
| refused: "connect_open e str first w = (w', Inl c) \<Longrightarrow> coord_step (w, live) (w', live)"
| message: "live str = Some nodeID \<Longrightarrow> orders_ok e w \<Longrightarrow>
     coord_step (w, live) (handle_message e nodeID str msg w, live)"
| closed: "live str = Some nodeID \<Longrightarrow> coord_step (w, live) (connect_close nodeID w, live(str := None))"
| run_job: "ev_newID e \<noteq> [] \<Longrightarrow> ev_newID e \<notin> dom (jobs (co_sched w)) \<Longrightarrow>
     coord_step (w, live) (fst (admin_RunJob e nodeID spec w), live)"
| create: "ev_newID e \<notin> dom (deploy (co_deploy w)) \<Longrightarrow> distinct (ev_dord e) \<Longrightarrow>
     set (ev_dord e) = insert (ev_newID e) (dom (deploy (co_deploy w))) \<Longrightarrow>
     map_order (ev_nord e) (nodes (co_reg w)) \<Longrightarrow>
     coord_step (w, live) (fst (CreateDeployment e spec replicas w), live)"
| delete: "coord_step (w, live) (fst (DeleteDeployment e dID w), live)"
| reaper: "map_order ord (nodes (co_reg w)) \<Longrightarrow>
     coord_step (w, live) (w\<lparr>co_reg := reap ord now (10 * second) (co_reg w)\<rparr>, live)"
| reconciler: "orders_ok e w \<Longrightarrow> \<forall>k. map_order (dords k) (deploy (co_deploy w)) \<Longrightarrow>
     \<forall>k. map_order (nords k) (nodes (co_reg w)) \<Longrightarrow>
     coord_step (w, live)
       (with_deploy w (Reconcile (ev_dord e) dords nords (ev_now e) (ev_net e) (co_reg w)), live)"

inductive_cases coord_stepE: "coord_step s s'"

definition coord_inv :: "Coordinator \<times> live \<Rightarrow> bool" where
  "coord_inv s \<longleftrightarrow> registry_inv (co_reg (fst s)) \<and> scheduler_inv (co_sched (fst s)) \<and>
     placement_inv (co_deploy (fst s))"

text \<open>Each event is a step of at most one operation per component.\<close>

lemma co_deploy_with_deploy [simp]:
  "co_deploy (with_deploy w f) = fst (f (co_deploy w, co_sent w))"
  "co_reg (with_deploy w f) = co_reg w" "co_sched (with_deploy w f) = co_sched w"
  by (simp_all add: with_deploy_def split_beta)

lemma connect_open_parts:
  "co_sched (fst (connect_open e str first w)) = co_sched w"
  "co_deploy (fst (connect_open e str first w)) = co_deploy w"
  "registry_inv (co_reg w) \<Longrightarrow> registry_inv (co_reg (fst (connect_open e str first w)))"
  by (auto simp: connect_open_def stream_Send_def split_beta intro: inv_intros split: AgentMessage.split)

lemma handle_message_deploy:
  assumes "map_order (ev_dord e) (deploy (co_deploy w))"
  shows "co_deploy (handle_message e nodeID str msg w) = co_deploy w \<or>
    manager_step (co_deploy w) (co_deploy (handle_message e nodeID str msg w))"
  using assms
  by (cases msg) (auto simp: handle_message_def intro: manager_step.heartbeat manager_step.update)

lemma handle_message_inv:
  "registry_inv (co_reg w) \<Longrightarrow> registry_inv (co_reg (handle_message e nodeID str msg w))"
  "scheduler_inv (co_sched w) \<Longrightarrow> scheduler_inv (co_sched (handle_message e nodeID str msg w))"
  by (cases msg; auto simp: handle_message_def intro: inv_intros)+

lemma admin_RunJob_parts:
  "co_reg (fst (admin_RunJob e nodeID spec w)) = co_reg w"
  "co_deploy (fst (admin_RunJob e nodeID spec w)) = co_deploy w"
  "scheduler_inv (co_sched w) \<Longrightarrow> ev_newID e \<noteq> [] \<Longrightarrow>
     scheduler_inv (co_sched (fst (admin_RunJob e nodeID spec w)))"
  by (auto simp: admin_RunJob_def split_beta intro: inv_intros)

lemma deployment_rpc_parts:
  "co_reg (fst (CreateDeployment e spec replicas w)) = co_reg w"
  "co_sched (fst (CreateDeployment e spec replicas w)) = co_sched w"
  "co_deploy (fst (CreateDeployment e spec replicas w)) =
     fst (fst (Create (ev_newID e) (ev_dord e) (ev_nord e) (ev_now e) (ev_net e) (co_reg w) spec replicas
       (co_deploy w, co_sent w)))"
  "co_reg (fst (DeleteDeployment e dID w)) = co_reg w"
  "co_sched (fst (DeleteDeployment e dID w)) = co_sched w"
  "co_deploy (fst (DeleteDeployment e dID w)) =
     fst (fst (Delete (ev_net e) (co_reg w) dID (co_deploy w, co_sent w)))"
  by (simp_all add: CreateDeployment_def DeleteDeployment_def split_beta)

lemmas coord_parts = connect_open_parts admin_RunJob_parts deployment_rpc_parts handle_message_inv

lemma placement_step: "placement_inv m \<Longrightarrow> m' = m \<or> manager_step m m' \<Longrightarrow> placement_inv m'"
  by (auto intro: placement.inv_step)

lemma coord_inv_step:
  assumes "coord_inv s" and "coord_step s s'"
  shows "coord_inv s'"
  using assms(2,1)
proof (cases rule: coord_step.cases)
  case (opened live str e first w w' nodeID)
  then show ?thesis
    using assms(1) connect_open_parts(1,2) [of e str first w]
      connect_open_parts(3) [of w e str first] by (simp add: coord_inv_def)
next
  case (refused e str first w w' c live)
  then show ?thesis
    using assms(1) connect_open_parts(1,2) [of e str first w]
      connect_open_parts(3) [of w e str first] by (simp add: coord_inv_def)
next
  case (message live str nodeID e w msg)
  then show ?thesis
    using assms(1) placement_step [OF _ handle_message_deploy [of e w nodeID str msg]]
    by (simp add: coord_inv_def handle_message_inv orders_ok_def)
next
  case (closed live str nodeID w)
  then show ?thesis using assms(1) by (auto simp: coord_inv_def connect_close_def intro: inv_intros)
next
  case (run_job e w live nodeID spec)
  then show ?thesis using assms(1) by (simp add: coord_inv_def coord_parts)
next
  case (create e w live spec replicas)
  then have "directory_valid (ev_nord e) (co_reg w)"
    using assms(1) by (simp add: coord_inv_def directory_validI)
  then show ?thesis
    using assms(1) create manager_step.create [of "ev_newID e" "co_deploy w" "ev_dord e" "ev_nord e" "co_reg w"]
    by (auto simp: coord_inv_def coord_parts intro: placement_step)
next
  case (delete w live e dID)
  then show ?thesis
    using assms(1) manager_step.delete by (auto simp: coord_inv_def coord_parts intro: placement_step)
next
  case (reaper ord w live now)
  then show ?thesis using assms(1) by (auto simp: coord_inv_def intro: inv_intros)
next
  case (reconciler e w dords nords live)
  then have "\<forall>k. directory_valid (nords k) (co_reg w)"
    using assms(1) by (simp add: coord_inv_def directory_validI)
  then have "manager_step (co_deploy w)
      (fst (Reconcile (ev_dord e) dords nords (ev_now e) (ev_net e) (co_reg w) (co_deploy w, co_sent w)))"
    using reconciler by (intro manager_step.reconcile) (simp_all add: orders_ok_def)
  then show ?thesis
    using assms(1) reconciler by (auto simp: coord_inv_def intro: placement_step)
qed

interpretation coordinator: inductive_invariant "\<lambda>s. s = (New_Coordinator, Map.empty)" coord_step coord_inv
proof unfold_locales
  show "coord_inv s" if "s = (New_Coordinator, Map.empty)" for s
    using that placement.inv_init registry_inv_New scheduler_inv_New
    by (simp add: coord_inv_def New_Coordinator_def)
qed (rule coord_inv_step)

subsection \<open>What holds in every reachable state\<close>

definition demo_env :: event_env where
  "demo_env = \<lparr>ev_now = 0, ev_newID = ''n1'', ev_nord = [], ev_jord = [], ev_dord = [], ev_net = \<lambda>_ _ _. True\<rparr>"

definition demo_connected :: Coordinator where
  "demo_connected = fst (connect_open demo_env 7 (AM_Register demo_register) New_Coordinator)"

definition demo_served :: Coordinator where
  "demo_served = fst (CreateDeployment
     (demo_env\<lparr>ev_newID := ''d1'', ev_nord := [''n1''], ev_dord := [''d1'']\<rparr>) (Some demo_spec) 1 demo_connected)"

lemma demo_connected_open:
  "connect_open demo_env 7 (AM_Register demo_register) New_Coordinator = (demo_connected, Inr ''n1'')"
  by (simp add: demo_connected_def connect_open_def demo_env_def New_Coordinator_def Upsert_def
      demo_register_def stream_Send_def)

lemma demo_connected_parts:
  "co_reg demo_connected = demo_registry" "co_deploy demo_connected = New_Manager"
  "co_sched demo_connected = New_Scheduler"
  by (simp_all add: demo_connected_def connect_open_def demo_env_def New_Coordinator_def Upsert_def
      demo_register_def stream_Send_def demo_registry_def)

lemma reachable_demo_connected:
  "reachable (\<lambda>s. s = (New_Coordinator, Map.empty)) coord_step (demo_connected, [7 \<mapsto> ''n1''])"
  using coord_step.opened [OF _ demo_connected_open, of Map.empty]
  by (auto intro: reachable.intros)

lemma reachable_demo_served:
  "reachable (\<lambda>s. s = (New_Coordinator, Map.empty)) coord_step (demo_served, [7 \<mapsto> ''n1''])"
proof (rule reachable.reach_step [OF reachable_demo_connected])
  show "coord_step (demo_connected, [7 \<mapsto> ''n1'']) (demo_served, [7 \<mapsto> ''n1''])"
    unfolding demo_served_def
    by (rule coord_step.create)
      (simp_all add: demo_connected_parts New_Manager_def map_order_demo_registry)
qed

lemma deploy_demo_served: "host_of (co_deploy demo_served) ''d1'' = Some ''n1''"
proof -
  have "co_deploy demo_served = fst (fst (Create ''d1'' [''d1''] [''n1''] 0 (\<lambda>_ _ _. True) demo_registry
      (Some demo_spec) 1 (New_Manager, co_sent demo_connected)))"
    by (simp add: demo_served_def deployment_rpc_parts demo_connected_parts demo_env_def)
  then show ?thesis
    by (simp add: Create_def demo_spec_def requiredRunner_def GetNative_def place_def
        selectNode_def Snapshot_demo Get_demo_registry demo_gpu_def demo_system_def occupied_def
        map_filter_simps New_Manager_def stream_Send_def set_replica_def new_replica_def host_of_def)
qed



subsection \<open>The end of a stream\<close>

lemma handle_message_keeps_node:
  "Get k (co_reg w) \<noteq> None \<Longrightarrow> Get k (co_reg (handle_message e nodeID str msg w)) \<noteq> None"
  by (cases msg) (auto simp: handle_message_def Get_def Touch_def Upsert_def split: option.splits)

lemma connect_loop_offline:
  assumes "Get nodeID (co_reg w) \<noteq> None" and "connect_loop nodeID str evs w = (w', Some c)"
  shows "\<exists>n. Get nodeID (co_reg w') = Some n \<and> node_Status n = NODE_STATUS_OFFLINE \<and> node_Send n = None"
  using assms
proof (induction nodeID str evs w rule: connect_loop.induct)
  case (2 nodeID str e msg evs w)
  then show ?case using handle_message_keeps_node by simp
qed (auto simp: connect_close_def Get_MarkDisconnected)

text \<open>Whenever the handler of an agent's stream ends after a valid registration, for whatever
  reason and after whatever messages, the node it served is known, \<^verbatim>\<open>OFFLINE\<close>, and has no stream.\<close>

theorem Connect_ends_offline:
  assumes "Connect str ((e, Received (AM_Register reg)) # evs) w = (w', Some c)"
  shows "\<exists>n. Get (if rg_node_id reg = [] then ev_newID e else rg_node_id reg) (co_reg w') = Some n \<and>
    node_Status n = NODE_STATUS_OFFLINE \<and> node_Send n = None"
proof -
  let ?k = "if rg_node_id reg = [] then ev_newID e else rg_node_id reg"
  obtain w1 r where o: "connect_open e str (AM_Register reg) w = (w1, r)" by fastforce
  show ?thesis
  proof (cases r)
    case (Inl x)
    with o assms show ?thesis
      by (auto simp: Connect_def connect_open_def Upsert_def stream_Send_def Get_MarkDisconnected Get_def
          MarkDisconnected_def split: if_splits)
  next
    case (Inr k)
    with o have "k = ?k" "Get ?k (co_reg w1) \<noteq> None"
      by (auto simp: connect_open_def Upsert_def stream_Send_def Get_def split: if_splits)
    with connect_loop_offline [of k w1 str evs w' c] assms o Inr show ?thesis
      by (simp add: Connect_def)
  qed
qed

theorem Connect_ends_offline_witness:
  "\<exists>n. Get ''n1'' (co_reg (fst (Connect 7 [(demo_env, Received (AM_Register demo_register)),
      (demo_env, Received (AM_Heartbeat demo_heartbeat)), (demo_env, EndOfStream)] New_Coordinator))) = Some n \<and>
    node_Status n = NODE_STATUS_OFFLINE"
proof -
  let ?c = "Connect 7 [(demo_env, Received (AM_Register demo_register)),
      (demo_env, Received (AM_Heartbeat demo_heartbeat)), (demo_env, EndOfStream)] New_Coordinator"
  have "?c = (fst ?c, Some None)" by (simp add: Connect_def demo_connected_open)
  from Connect_ends_offline [OF this] show ?thesis
    by (auto simp: demo_register_def demo_env_def)
qed

text \<open>The end of an old stream is not told apart from the end of the current one. When an agent
  has reconnected, so that its node is bound to a new stream, and only then the handler of its previous
  stream ends, the deferred disconnect unbinds the new stream; from the next heartbeat on the node is
  \<^verbatim>\<open>ONLINE\<close> but cannot be sent anything, and every job for it is refused although its stream is live.\<close>

theorem stale_stream_end_strands_node:
  assumes "connect_open e str (AM_Register reg) w = (w1, Inr k)" and "k \<noteq> []"
  shows "let w2 = handle_message e' k str (AM_Heartbeat hb) (connect_close k w1) in
    (\<exists>n. Get k (co_reg w1) = Some n \<and> node_Send n = Some str) \<and>
    (\<exists>n. Get k (co_reg w2) = Some n \<and> node_Status n = NODE_STATUS_ONLINE \<and> node_Send n = None) \<and>
    (GetImage spec \<noteq> [] \<longrightarrow> snd (admin_RunJob e'' k spec w2) = Inl FailedPrecondition)"
proof -
  from assms(1) obtain n where n: "Get k (co_reg w1) = Some n" "node_Send n = Some str"
    by (auto simp: connect_open_def Upsert_def stream_Send_def Get_def split: if_splits)
  let ?w2 = "handle_message e' k str (AM_Heartbeat hb) (connect_close k w1)"
  have "\<exists>n. Get k (co_reg ?w2) = Some n \<and> node_Status n = NODE_STATUS_ONLINE \<and> node_Send n = None"
    using n by (simp add: handle_message_def connect_close_def Get_Touch Get_MarkDisconnected)
  then show ?thesis using n assms(2) by (auto simp: admin_RunJob_def RunJob_def)
qed

theorem stale_stream_end_strands_node_witness:
  "\<exists>n. Get ''n1'' (co_reg (handle_message demo_env ''n1'' 8 (AM_Heartbeat demo_heartbeat)
       (connect_close ''n1'' (fst (connect_open demo_env 8
          (AM_Register (demo_register\<lparr>rg_node_id := ''n1''\<rparr>)) demo_connected))))) = Some n \<and>
     node_Status n = NODE_STATUS_ONLINE \<and> node_Send n = None"
proof -
  let ?o = "connect_open demo_env 8 (AM_Register (demo_register\<lparr>rg_node_id := ''n1''\<rparr>)) demo_connected"
  have "?o = (fst ?o, Inr ''n1'')"
    by (simp add: connect_open_def Upsert_def stream_Send_def demo_env_def)
  from stale_stream_end_strands_node [OF this, of demo_env demo_heartbeat None] show ?thesis by simp
qed

subsection \<open>Billing through the services\<close>

text \<open>The gateway service bills what it acknowledges. A usage report is refused as invalid exactly
  when it names no request or no node, and then nothing is stored; if it is acknowledged, the request
  is in the ledger, which never holds a request twice; and a report that could not be stored is answered
  \<^verbatim>\<open>Unavailable\<close>, so that it can be repeated.\<close>

theorem ReportUsage_bills:
  assumes "distinct (map row_request_id tbl)"
    and "ReportUsage (Postgres_Insert now' ex) now req tbl = (tbl', res)"
  shows "distinct (map row_request_id tbl') \<and> prefix tbl tbl' \<and>
    (res = Inl InvalidArgument \<longleftrightarrow> ru_request_id req = [] \<or> ru_node_id req = []) \<and>
    (res = Inl InvalidArgument \<longrightarrow> tbl' = tbl) \<and>
    (res = Inr () \<longrightarrow> ru_request_id req \<in> set (map row_request_id tbl')) \<and>
    res \<in> {Inr (), Inl InvalidArgument, Inl Unavailable}"
proof (cases "ru_request_id req = []")
  case True
  then show ?thesis using assms by (auto simp: ReportUsage_def)
next
  case False
  let ?rec = "usage_record now req"
  obtain err where ins: "Postgres_Insert now' ex ?rec tbl = (tbl', err)"
    and res: "res = (case err of None \<Rightarrow> Inr () | Some (ErrInvalidRecord _) \<Rightarrow> Inl InvalidArgument
                     | Some _ \<Rightarrow> Inl Unavailable)"
    using False assms(2)
    by (cases "Postgres_Insert now' ex ?rec tbl") (auto simp: ReportUsage_def)
  have "distinct (map row_request_id tbl')"
    using pg.inv_ins [OF assms(1), of "(now', ex)" ?rec] ins by simp
  moreover have "err = None \<Longrightarrow> ru_request_id req \<in> set (map row_request_id tbl')"
    using pg.ins_success [OF assms(1), of "(now', ex)" ?rec] ins by (simp add: usage_record_def)
  moreover have "prefix tbl tbl'" using Postgres_Insert_rows [of now' ex ?rec tbl] ins by auto
  moreover have "(\<exists>m. err = Some (ErrInvalidRecord m)) \<longleftrightarrow> ru_node_id req = []"
    and "ru_node_id req = [] \<Longrightarrow> tbl' = tbl"
    using ins False
    by (auto simp: Postgres_Insert_def validate_def usage_record_def
        split: exec_outcome.splits option.splits if_splits)
  ultimately show ?thesis
    using False by (cases err rule: option.exhaust; cases "the err") (auto simp: res)
qed

definition demo_report :: ReportUsageRequest where
  "demo_report = \<lparr>ru_served_model_name = ''qwen'', ru_node_id = ''n1'', ru_deployment_id = ''d1'',
     ru_api_key_id = ''k1'', ru_prompt_tokens = 12, ru_completion_tokens = 30, ru_timestamp_unix_ms = 5,
     ru_request_id = ''r1''\<rparr>"

theorem ReportUsage_bills_witness:
  "''r1'' \<in> set (map row_request_id (fst (ReportUsage (Postgres_Insert 0 Answered) 0 demo_report [])))"
proof -
  let ?r = "ReportUsage (Postgres_Insert 0 Answered) 0 demo_report []"
  have "snd ?r = Inr ()"
    by (simp add: ReportUsage_def usage_record_def demo_report_def Postgres_Insert_def validate_def
        insert_usage_def row_of_def check_constraints_def)
  then have "?r = (fst ?r, Inr ())" by (metis prod.collapse)
  from ReportUsage_bills [OF _ this] show ?thesis by (simp add: demo_report_def)
qed

text \<open>A request for a summary: the window it stands for, and when it is refused.\<close>

lemma GetUsageSummary_window:
  "GetUsageSummary summarize now fromMs toMs = Inl InvalidArgument \<longleftrightarrow>
     \<not> fst (summary_window now fromMs toMs) < snd (summary_window now fromMs toMs)"
  "fromMs \<le> 0 \<Longrightarrow> fst (summary_window now fromMs toMs) = snd (summary_window now fromMs toMs) - 24 * 60 * minute"
  by (auto simp: GetUsageSummary_def summary_window_def defaultSummaryWindow_def split: sum.split)

lemma totalsSliceToProto_map: "totalsSliceToProto ts = map totalsToProto ts"
  by (induction ts) simp_all

end
