(* ===== verification/GwRouter.thy ===== *)
theory GwRouter
  imports Contracts GoStrings
begin

text \<open>
  The gateway's router (\<^verbatim>\<open>gateway/internal/router/router.go\<close>): a short-lived cache of the replicas the
  coordinator names for a model, with a round-robin cursor. The coordinator is reached over gRPC: its
  answer to a call is the argument \<open>client\<close>, absent when the gateway has no client, and \<open>None\<close> inside
  when the call fails.
\<close>

subsection \<open>State and operations\<close>

datatype route_error =
    ErrUnknownModel
  | ErrNoReplicas
  | ErrResolve

definition cacheTTL :: duration where
  "cacheTTL = 2 * second"

record cache_entry =
  en_replicas :: "ReplicaAddr list"
  en_fetchedAt :: time
  en_next :: nat

record Router =
  cache :: "string \<rightharpoonup> cache_entry"

type_synonym resolve_client = "(string \<Rightarrow> ReplicaAddr list option) option"

definition New_Router :: Router where
  "New_Router = \<lparr>cache = Map.empty\<rparr>"

text \<open>The header every call of the gateway carries, here and in the usage reporter.\<close>

definition GetRequestMetadata :: "string \<Rightarrow> string" where
  "GetRequestMetadata token = ''bearer '' @ token"

definition zero_entry :: cache_entry where
  "zero_entry = \<lparr>en_replicas = [], en_fetchedAt = zero_time, en_next = 0\<rparr>"

text \<open>
  The second part of \<^verbatim>\<open>replicas\<close>: ask the coordinator and remember the answer, keeping the cursor of an
  entry that is still there.
\<close>

definition fetch_replicas ::
  "time \<Rightarrow> resolve_client \<Rightarrow> string \<Rightarrow> Router \<Rightarrow> Router \<times> (route_error + ReplicaAddr list)" where
  "fetch_replicas now client model r =
     (case client of
        None \<Rightarrow> (r, Inl ErrNoReplicas)
      | Some resolve \<Rightarrow>
          (case resolve model of
             None \<Rightarrow> (r, Inl ErrResolve)
           | Some reps \<Rightarrow>
               (let e = (case cache r model of None \<Rightarrow> zero_entry | Some e \<Rightarrow> e);
                    r' = r\<lparr>cache := (cache r)(model \<mapsto> e\<lparr>en_replicas := reps, en_fetchedAt := now\<rparr>)\<rparr>
                in (r', if reps = [] then Inl ErrNoReplicas else Inr reps))))"

text \<open>\<open>now\<close> is the clock when the cache is consulted, \<open>now'\<close> when the answer has arrived.\<close>

definition replicas ::
  "time \<Rightarrow> time \<Rightarrow> resolve_client \<Rightarrow> string \<Rightarrow> Router \<Rightarrow> Router \<times> (route_error + ReplicaAddr list)" where
  "replicas now now' client model r =
     (case cache r model of
        Some e \<Rightarrow>
          if time_Sub now (en_fetchedAt e) < cacheTTL
          then (r, if en_replicas e = [] then Inl ErrNoReplicas else Inr (en_replicas e))
          else fetch_replicas now' client model r
      | None \<Rightarrow> fetch_replicas now' client model r)"

text \<open>
  The second part of \<^verbatim>\<open>Pick\<close>, under the lock again; other requests may have changed the cache since
  \<open>reps\<close> was read.
\<close>

definition pick_next :: "string \<Rightarrow> ReplicaAddr list \<Rightarrow> Router \<Rightarrow> Router \<times> ReplicaAddr" where
  "pick_next model reps r =
     (case cache r model of
        None \<Rightarrow> (r, reps ! 0)
      | Some e \<Rightarrow>
          if length (en_replicas e) = 0 then (r, reps ! 0)
          else (r\<lparr>cache := (cache r)(model \<mapsto> e\<lparr>en_next := en_next e + 1\<rparr>)\<rparr>,
                en_replicas e ! (en_next e mod length (en_replicas e))))"

definition Pick ::
  "time \<Rightarrow> time \<Rightarrow> resolve_client \<Rightarrow> string \<Rightarrow> Router \<Rightarrow> Router \<times> (route_error + ReplicaAddr)" where
  "Pick now now' client model r =
     (if model = [] then (r, Inl ErrUnknownModel)
      else
        case replicas now now' client model r of
          (r', Inl e) \<Rightarrow> (r', Inl e)
        | (r', Inr reps) \<Rightarrow> (let (r'', rep) = pick_next model reps r' in (r'', Inr rep)))"

fun first_other :: "string \<Rightarrow> ReplicaAddr list \<Rightarrow> ReplicaAddr option" where
  "first_other excludeID [] = None"
| "first_other excludeID (rep # reps) =
     (if rep_deployment_id rep \<noteq> excludeID then Some rep else first_other excludeID reps)"

definition PickExcluding ::
  "time \<Rightarrow> time \<Rightarrow> resolve_client \<Rightarrow> string \<Rightarrow> string \<Rightarrow> Router \<Rightarrow> Router \<times> (route_error + ReplicaAddr)" where
  "PickExcluding now now' client model excludeID r =
     (case replicas now now' client model r of
        (r', Inl e) \<Rightarrow> (r', Inl e)
      | (r', Inr reps) \<Rightarrow>
          (r', case first_other excludeID reps of None \<Rightarrow> Inl ErrNoReplicas | Some rep \<Rightarrow> Inr rep))"

definition Invalidate :: "string \<Rightarrow> Router \<Rightarrow> Router" where
  "Invalidate model r = r\<lparr>cache := (cache r)(model := None)\<rparr>"

text \<open>\<open>list\<close> is the coordinator's \<^verbatim>\<open>ListModels\<close>, as for \<open>resolve_client\<close>.\<close>

definition listModels :: "(bool \<Rightarrow> string list option) option \<Rightarrow> bool \<Rightarrow> string list option" where
  "listModels list includeUnready = (case list of None \<Rightarrow> None | Some f \<Rightarrow> f includeUnready)"

definition Models :: "(bool \<Rightarrow> string list option) option \<Rightarrow> string list option" where
  "Models list = listModels list False"

definition Router_DeployedModels :: "(bool \<Rightarrow> string list option) option \<Rightarrow> string list option" where
  "Router_DeployedModels list = listModels list True"

subsection \<open>What a cache entry remembers\<close>

text \<open>
  Entries are answers: \<open>heard t model reps\<close> says that the coordinator answered \<open>reps\<close> for \<open>model\<close> at
  time \<open>t\<close>.
\<close>

definition cache_inv :: "(time \<Rightarrow> string \<Rightarrow> ReplicaAddr list \<Rightarrow> bool) \<Rightarrow> Router \<Rightarrow> bool" where
  "cache_inv heard r \<longleftrightarrow> (\<forall>model e. cache r model = Some e \<longrightarrow> heard (en_fetchedAt e) model (en_replicas e))"

definition answers :: "(time \<Rightarrow> string \<Rightarrow> ReplicaAddr list \<Rightarrow> bool) \<Rightarrow> time \<Rightarrow> resolve_client \<Rightarrow> bool" where
  "answers heard now client \<longleftrightarrow>
     (\<forall>resolve model reps. client = Some resolve \<longrightarrow> resolve model = Some reps \<longrightarrow> heard now model reps)"

lemma cache_inv_New [inv_intros]: "cache_inv heard New_Router"
  by (simp add: cache_inv_def New_Router_def)

lemma cache_inv_fetch:
  "cache_inv heard r \<Longrightarrow> answers heard now client \<Longrightarrow> cache_inv heard (fst (fetch_replicas now client model r))"
  by (auto simp: cache_inv_def answers_def fetch_replicas_def split: option.splits)

lemma cache_inv_replicas [inv_intros]:
  "cache_inv heard r \<Longrightarrow> answers heard now' client \<Longrightarrow> cache_inv heard (fst (replicas now now' client model r))"
  by (auto simp: replicas_def intro: cache_inv_fetch split: option.split)

lemma cache_inv_pick_next [inv_intros]: "cache_inv heard r \<Longrightarrow> cache_inv heard (fst (pick_next model reps r))"
  by (auto simp: cache_inv_def pick_next_def split: option.split)

lemma cache_inv_Pick [inv_intros]:
  "cache_inv heard r \<Longrightarrow> answers heard now' client \<Longrightarrow> cache_inv heard (fst (Pick now now' client model r))"
  using cache_inv_replicas [of heard r now' client now model]
  by (auto simp: Pick_def split_beta intro: cache_inv_pick_next split: sum.split prod.split)

lemma cache_inv_PickExcluding [inv_intros]:
  "cache_inv heard r \<Longrightarrow> answers heard now' client \<Longrightarrow>
     cache_inv heard (fst (PickExcluding now now' client model ex r))"
  using cache_inv_replicas [of heard r now' client now model]
  by (auto simp: PickExcluding_def split: sum.split prod.split)

lemma cache_inv_Invalidate [inv_intros]: "cache_inv heard r \<Longrightarrow> cache_inv heard (Invalidate model r)"
  by (simp add: cache_inv_def Invalidate_def)

text \<open>A list of replicas the router works with is an answer, under two seconds old or just received.\<close>

lemma replicas_fresh:
  assumes "cache_inv heard r" and "answers heard now' client"
    and "replicas now now' client model r = (r', Inr reps)"
  shows "reps \<noteq> [] \<and> (\<exists>e. cache r' model = Some e \<and> en_replicas e = reps) \<and>
    (\<exists>t. heard t model reps \<and> (t = now' \<or> now - t < 2 * second))"
proof -
  have ttl: "time_Sub now t < cacheTTL \<longleftrightarrow> now - t < 2 * second" for t
    by (simp add: cacheTTL_def maxDuration_def)
  show ?thesis
    using assms
    by (auto simp: replicas_def fetch_replicas_def cache_inv_def answers_def ttl
        split: option.splits if_splits) blast+
qed

lemma first_other_find: "first_other k reps = find (\<lambda>rep. rep_deployment_id rep \<noteq> k) reps"
  by (induction reps) auto

subsection \<open>Freshness and fairness\<close>

lemma picked_from_replicas:
  assumes "snd (Pick now now' client model r) = Inr rep \<or> snd (PickExcluding now now' client model ex r) = Inr rep"
    and "\<And>r1 l. replicas now now' client model r = (r1, Inr l) \<Longrightarrow>
           l \<noteq> [] \<and> (\<exists>e. cache r1 model = Some e \<and> en_replicas e = l)"
  obtains r1 l where "replicas now now' client model r = (r1, Inr l)" and "rep \<in> set l"
proof -
  obtain r1 res where reps: "replicas now now' client model r = (r1, res)" by fastforce
  show thesis
  proof (cases res)
    case (Inl e)
    with assms(1) reps show ?thesis by (auto simp: Pick_def PickExcluding_def split: if_splits)
  next
    case (Inr l)
    then obtain e where "l \<noteq> []" "cache r1 model = Some e" "en_replicas e = l"
      using assms(2) reps by blast
    with assms(1) Inr reps have "rep \<in> set l"
      by (auto simp: Pick_def pick_next_def PickExcluding_def first_other_find find_Some_iff
          split: if_splits option.splits)
    with Inr reps that show ?thesis by blast
  qed
qed

lemma picked_fresh:
  assumes "cache_inv heard r" and "answers heard now' client"
    and "snd (Pick now now' client model r) = Inr rep \<or> snd (PickExcluding now now' client model ex r) = Inr rep"
  shows "\<exists>t reps. heard t model reps \<and> rep \<in> set reps \<and> (t = now' \<or> now - t < 2 * second)"
proof -
  note fresh = replicas_fresh [OF assms(1,2), of now model]
  obtain r1 l where "replicas now now' client model r = (r1, Inr l)" "rep \<in> set l"
    using picked_from_replicas [OF assms(3)] fresh by blast
  with fresh show ?thesis by blast
qed

definition demo_reps :: "ReplicaAddr list" where
  "demo_reps = [\<lparr>rep_node_id = ''n1'', rep_deployment_id = ''d1'', rep_addr = ''a''\<rparr>,
                \<lparr>rep_node_id = ''n2'', rep_deployment_id = ''d2'', rep_addr = ''b''\<rparr>]"

fun run_picks :: "(time \<times> time) list \<Rightarrow> resolve_client \<Rightarrow> string \<Rightarrow> Router \<Rightarrow> (route_error + ReplicaAddr) list" where
  "run_picks [] client model r = []"
| "run_picks ((now, now') # ts) client model r =
     (let (r', res) = Pick now now' client model r in res # run_picks ts client model r')"

lemma Pick_cached:
  assumes "model \<noteq> []" and "cache r model = Some e" and "en_replicas e \<noteq> []" and "now - en_fetchedAt e < 2 * second"
  shows "Pick now now' client model r =
    (r\<lparr>cache := (cache r)(model \<mapsto> e\<lparr>en_next := en_next e + 1\<rparr>)\<rparr>,
     Inr (en_replicas e ! (en_next e mod length (en_replicas e))))"
  using assms by (simp add: Pick_def replicas_def pick_next_def cacheTTL_def maxDuration_def)

lemma run_picks_cached:
  assumes "model \<noteq> []" and "cache r model = Some e" and "en_replicas e \<noteq> []"
    and "\<forall>(now, now') \<in> set ts. now - en_fetchedAt e < 2 * second"
  shows "run_picks ts client model r =
    map (\<lambda>i. Inr (en_replicas e ! ((en_next e + i) mod length (en_replicas e)))) [0..<length ts]"
  using assms(2-4)
proof (induction ts arbitrary: r e)
  case (Cons t ts)
  obtain now now' where t: "t = (now, now')" by (cases t)
  let ?e = "e\<lparr>en_next := en_next e + 1\<rparr>"
  let ?r = "r\<lparr>cache := (cache r)(model \<mapsto> ?e)\<rparr>"
  have "run_picks ts client model ?r =
      map (\<lambda>i. Inr (en_replicas e ! ((en_next e + 1 + i) mod length (en_replicas e)))) [0..<length ts]"
    using Cons.IH [of ?r ?e] Cons.prems by simp
  moreover have "now - en_fetchedAt e < 2 * second" using Cons.prems(3) t by simp
  ultimately show ?case
    using Pick_cached [OF assms(1) Cons.prems(1,2), of now now' client]
    by (simp add: t upt_conv_Cons comp_def map_Suc_upt [symmetric] del: upt_Suc)
qed simp

text \<open>Load is spread evenly. While an answer with \<open>k\<close> replicas is cached, any \<open>k\<close> requests in a row
  go to the \<open>k\<close> replicas once each, in the order of the answer starting from the cursor, whatever the
  coordinator would say meanwhile.\<close>

theorem Pick_round_robin:
  assumes "model \<noteq> []" and "cache r model = Some e" and "en_replicas e \<noteq> []"
    and "\<forall>(now, now') \<in> set ts. now - en_fetchedAt e < 2 * second" and "length ts = length (en_replicas e)"
  shows "run_picks ts client model r = map Inr (rotate (en_next e) (en_replicas e))"
  unfolding run_picks_cached [OF assms(1-4)]
  by (rule nth_equalityI) (simp_all add: nth_rotate assms(5))

theorem Pick_round_robin_witness:
  "run_picks [(1, 1), (2, 2)] None ''qwen'' \<lparr>cache = [''qwen'' \<mapsto> \<lparr>en_replicas = demo_reps,
     en_fetchedAt = 0, en_next = 3\<rparr>]\<rparr> = [Inr (demo_reps ! 1), Inr (demo_reps ! 0)]"
  using Pick_round_robin [of "''qwen''" "\<lparr>cache = [''qwen'' \<mapsto> \<lparr>en_replicas = demo_reps,
     en_fetchedAt = 0, en_next = 3\<rparr>]\<rparr>" "\<lparr>en_replicas = demo_reps, en_fetchedAt = 0, en_next = 3\<rparr>"
     "[(1, 1), (2, 2)]" None]
  by (simp add: demo_reps_def numeral_3_eq_3)

end
