(* ===== verification/GwUsage.thy ===== *)
theory GwUsage
  imports Contracts GoStrings
begin

text \<open>
  The gateway's usage reporter (\<^verbatim>\<open>gateway/internal/usage/usage.go\<close>): a bounded queue between the
  request handlers and the goroutine that reports to the coordinator. The calls made are recorded; what
  the coordinator answers changes nothing here.
\<close>

subsection \<open>State and operations\<close>

definition queueSize :: nat where
  "queueSize = 1024"

record UsageReport =
  rc_RequestID :: string
  rc_Model :: string
  rc_NodeID :: string
  rc_DeploymentID :: string
  rc_APIKeyID :: string
  rc_PromptTokens :: u64
  rc_CompletionTokens :: u64
  rc_TimestampUnixMs :: int

text \<open>
  \<open>rp_draining\<close> says that the drain goroutine is running; it is started with the client and ends when
  the reporter is closed.
\<close>

record Reporter =
  rp_hasClient :: bool
  rp_ch :: "UsageReport list"
  rp_draining :: bool
  rp_dropped :: u64
  rp_sent :: "ReportUsageRequest list"

text \<open>\<open>ok\<close>: the coordinator's address could be parsed.\<close>

definition NewReporter :: "bool \<Rightarrow> Reporter" where
  "NewReporter ok = \<lparr>rp_hasClient = ok, rp_ch = [], rp_draining = ok, rp_dropped = 0, rp_sent = []\<rparr>"

definition Report :: "UsageReport \<Rightarrow> Reporter \<Rightarrow> Reporter" where
  "Report rec r =
     (if \<not> rp_hasClient r then r
      else if length (rp_ch r) < queueSize then r\<lparr>rp_ch := rp_ch r @ [rec]\<rparr>
      else r\<lparr>rp_dropped := rp_dropped r + 1\<rparr>)"

definition send_request :: "UsageReport \<Rightarrow> ReportUsageRequest" where
  "send_request rec = \<lparr>ru_served_model_name = rc_Model rec, ru_node_id = rc_NodeID rec,
     ru_deployment_id = rc_DeploymentID rec, ru_api_key_id = rc_APIKeyID rec,
     ru_prompt_tokens = rc_PromptTokens rec, ru_completion_tokens = rc_CompletionTokens rec,
     ru_timestamp_unix_ms = rc_TimestampUnixMs rec, ru_request_id = rc_RequestID rec\<rparr>"

text \<open>One round of the drain loop: take a record if there is one and report it.\<close>

definition drain_one :: "Reporter \<Rightarrow> Reporter" where
  "drain_one r =
     (if \<not> rp_draining r then r
      else case rp_ch r of
             [] \<Rightarrow> r
           | rec # ch \<Rightarrow> r\<lparr>rp_ch := ch, rp_sent := rp_sent r @ [send_request rec]\<rparr>)"

text \<open>Closing: the drain loop flushes what is queued and returns. \<^verbatim>\<open>main\<close> closes once, on its way out.\<close>

definition Close_Reporter :: "Reporter \<Rightarrow> Reporter" where
  "Close_Reporter r =
     (if \<not> rp_hasClient r then r
      else if \<not> rp_draining r then r
      else r\<lparr>rp_ch := [], rp_sent := rp_sent r @ map send_request (rp_ch r), rp_draining := False\<rparr>)"

definition Dropped :: "Reporter \<Rightarrow> u64" where
  "Dropped r = rp_dropped r"

subsection \<open>Runs\<close>

datatype reporter_event = EvReport UsageReport | EvDrain | EvClose

fun reporter_run :: "reporter_event list \<Rightarrow> Reporter \<Rightarrow> Reporter" where
  "reporter_run [] r = r"
| "reporter_run (EvReport rec # evs) r = reporter_run evs (Report rec r)"
| "reporter_run (EvDrain # evs) r = reporter_run evs (drain_one r)"
| "reporter_run (EvClose # evs) r = reporter_run evs (Close_Reporter r)"

fun reports_of :: "reporter_event list \<Rightarrow> UsageReport list" where
  "reports_of [] = []"
| "reports_of (EvReport rec # evs) = rec # reports_of evs"
| "reports_of (_ # evs) = reports_of evs"

lemma reporter_run_append: "reporter_run (evs @ evs') r = reporter_run evs' (reporter_run evs r)"
  by (induction evs r rule: reporter_run.induct) simp_all

text \<open>What was accepted is what was sent followed by what is queued.\<close>

abbreviation accepted :: "Reporter \<Rightarrow> ReportUsageRequest list" where
  "accepted r \<equiv> rp_sent r @ map send_request (rp_ch r)"

lemma accepted_step [simp]:
  "accepted (drain_one r) = accepted r" "accepted (Close_Reporter r) = accepted r"
  "rp_hasClient (drain_one r) = rp_hasClient r" "rp_hasClient (Close_Reporter r) = rp_hasClient r"
  "rp_hasClient (Report rec r) = rp_hasClient r"
  "rp_dropped (drain_one r) = rp_dropped r" "rp_dropped (Close_Reporter r) = rp_dropped r"
  by (auto simp: drain_one_def Close_Reporter_def Report_def split: list.split)

lemma hasClient_run: "rp_hasClient (reporter_run evs r) = rp_hasClient r"
  by (induction evs r rule: reporter_run.induct) simp_all

lemma queue_bounded: "length (rp_ch r) \<le> queueSize \<Longrightarrow> length (rp_ch (reporter_run evs r)) \<le> queueSize"
  by (induction evs r rule: reporter_run.induct)
    (auto simp: Report_def drain_one_def Close_Reporter_def split: list.splits)

lemma reporter_conservation:
  assumes "rp_hasClient r"
  shows "\<exists>acc. subseq acc (reports_of evs) \<and>
    accepted (reporter_run evs r) = accepted r @ map send_request acc \<and>
    rp_dropped (reporter_run evs r) = rp_dropped r + of_nat (length (reports_of evs) - length acc)"
  using assms
proof (induction evs r rule: reporter_run.induct)
  case (2 rec evs r)
  then obtain acc where acc: "subseq acc (reports_of evs)"
    "accepted (reporter_run evs (Report rec r)) = accepted (Report rec r) @ map send_request acc"
    "rp_dropped (reporter_run evs (Report rec r)) =
       rp_dropped (Report rec r) + of_nat (length (reports_of evs) - length acc)"
    by auto
  have len: "length acc \<le> length (reports_of evs)" by (rule list_emb_length [OF acc(1)])
  show ?case
  proof (cases "length (rp_ch r) < queueSize")
    case True
    with acc 2 show ?thesis by (intro exI [of _ "rec # acc"]) (simp add: Report_def)
  next
    case False
    with acc 2 len show ?thesis
      by (intro exI [of _ acc]) (simp add: Report_def Suc_diff_le list_emb.intros(2))
  qed
qed auto

lemma closed_sends_nothing:
  "\<not> rp_draining r \<Longrightarrow> rp_sent (reporter_run evs r) = rp_sent r"
  by (induction evs r rule: reporter_run.induct) (simp_all add: Report_def drain_one_def Close_Reporter_def)

text \<open>Usage is never lost unnoticed before shutdown, and never reordered or repeated. Over any
  sequence of reports, drain rounds and a close, the queue stays within its bound; the calls made to the
  coordinator are, in order, the reports that were accepted; every other report is counted as dropped;
  and right after a close all accepted ones have been sent.\<close>

theorem reporter_accounts_for_all:
  assumes "r = reporter_run evs (NewReporter True)"
  shows "length (rp_ch r) \<le> 1024 \<and>
    (\<exists>acc. subseq acc (reports_of evs) \<and> rp_sent r @ map send_request (rp_ch r) = map send_request acc \<and>
       Dropped r = of_nat (length (reports_of evs) - length acc)) \<and>
    (rp_draining r \<longrightarrow> rp_ch (Close_Reporter r) = [] \<and>
       rp_sent (Close_Reporter r) = rp_sent r @ map send_request (rp_ch r))"
proof -
  have "rp_hasClient r" by (simp add: assms hasClient_run NewReporter_def)
  then show ?thesis
    using queue_bounded [of "NewReporter True" evs] reporter_conservation [of "NewReporter True" evs] assms
    by (auto simp: NewReporter_def queueSize_def Dropped_def Close_Reporter_def)
qed

definition demo_usage_report :: "string \<Rightarrow> UsageReport" where
  "demo_usage_report rid = \<lparr>rc_RequestID = rid, rc_Model = ''qwen'', rc_NodeID = ''n1'', rc_DeploymentID = ''d1'',
     rc_APIKeyID = ''key-0'', rc_PromptTokens = 12, rc_CompletionTokens = 30, rc_TimestampUnixMs = 5\<rparr>"

theorem reporter_accounts_for_all_witness:
  "rp_sent (Close_Reporter (reporter_run [EvReport (demo_usage_report ''r1''), EvDrain,
      EvReport (demo_usage_report ''r2'')] (NewReporter True)))
   = [send_request (demo_usage_report ''r1''), send_request (demo_usage_report ''r2'')]"
proof -
  let ?evs = "[EvReport (demo_usage_report ''r1''), EvDrain, EvReport (demo_usage_report ''r2'')]"
  have "rp_draining (reporter_run ?evs (NewReporter True))"
    by (simp add: Report_def drain_one_def NewReporter_def queueSize_def)
  then show ?thesis
    using reporter_accounts_for_all [OF refl, of ?evs]
    by (simp add: Report_def drain_one_def NewReporter_def queueSize_def)
qed

text \<open>Usage that is reported after the reporter was closed is lost without a trace: it is accepted
  into the queue, nothing takes it out, no call is ever made for it, and it does not count as dropped.
  The gateway closes the reporter as soon as \<^verbatim>\<open>Serve\<close> returns, while requests that were in flight are
  still being answered.\<close>

theorem report_after_close_is_lost:
  assumes "rp_hasClient r" and "rp_draining r"
  shows "let r' = Report rec (Close_Reporter r) in
    rp_ch r' = [rec] \<and> Dropped r' = Dropped r \<and>
    (\<forall>evs. rp_sent (reporter_run evs r') = rp_sent (Close_Reporter r))"
proof -
  let ?r = "Report rec (Close_Reporter r)"
  have "\<not> rp_draining ?r" using assms by (simp add: Report_def Close_Reporter_def)
  then show ?thesis
    using assms closed_sends_nothing [of ?r]
    by (simp add: Report_def Close_Reporter_def queueSize_def Dropped_def)
qed

theorem report_after_close_is_lost_witness:
  "rp_sent (reporter_run [EvDrain, EvDrain] (Report (demo_usage_report ''r1'') (Close_Reporter (NewReporter True)))) = []"
  using report_after_close_is_lost [of "NewReporter True" "demo_usage_report ''r1''"]
  by (simp add: NewReporter_def Close_Reporter_def del: reporter_run.simps)

end
