(* ===== verification/GwProxy.thy ===== *)
theory GwProxy
  imports GwRouter GwUsage "HOL-Library.AList"
begin

text \<open>
  The gateway's HTTP front door (\<^verbatim>\<open>gateway/internal/proxy/proxy.go\<close>): API keys, the OpenAI endpoints,
  one retry on another replica, and the capture of token usage from the response as it passes. Decoding
  JSON and the exchange with a replica are arguments: the theorems hold whatever they do.
\<close>

subsection \<open>API keys\<close>

definition maxRequestBody :: nat where
  "maxRequestBody = 8 * 2 ^ 20"

text \<open>The value of the environment variable to the table of keys; \<open>n\<close> counts the non-empty ones.\<close>

fun keys_loop :: "string list \<Rightarrow> nat \<Rightarrow> (string \<times> string) list \<Rightarrow> (string \<times> string) list" where
  "keys_loop [] n out = out"
| "keys_loop (k # ks) n out =
     (let k' = TrimSpace k
      in if k' \<noteq> [] then keys_loop ks (n + 1) (AList.update k' (''key-'' @ itoa n) out)
         else keys_loop ks n out)"

definition KeysFromEnv :: "string \<Rightarrow> (string \<times> string) list" where
  "KeysFromEnv env = keys_loop (Split (CHR '','') env) 0 []"

subsection \<open>Replies\<close>

datatype reply =
    Status nat string
  | ModelList "string list"
  | Proxied ReplicaAddr
  | ConnectionAborted

text \<open>\<open>auth\<close> is the value of the Authorization header, empty when there is none.\<close>

definition withAuth :: "(string \<times> string) list \<Rightarrow> string \<Rightarrow> (string \<Rightarrow> 's \<Rightarrow> 's \<times> reply) \<Rightarrow> 's \<Rightarrow> 's \<times> reply" where
  "withAuth keys auth next s =
     (if length keys = 0 then next ''anonymous'' s
      else
        (let pre = ''Bearer ''
         in if length auth \<le> length pre \<or> \<not> EqualFold (take (length pre) auth) pre
            then (s, Status 401 ''missing bearer token'')
            else case map_of keys (drop (length pre) auth) of
                   None \<Rightarrow> (s, Status 401 ''invalid API key'')
                 | Some keyID \<Rightarrow> next keyID s))"

definition handleModels :: "(bool \<Rightarrow> string list option) option \<Rightarrow> reply" where
  "handleModels list =
     (case Models list of None \<Rightarrow> Status 503 ''coordinator unavailable'' | Some names \<Rightarrow> ModelList names)"

subsection \<open>Usage capture\<close>

record tokenUsage =
  tu_PromptTokens :: u64
  tu_CompletionTokens :: u64

text \<open>
  The usage block of a JSON text: \<open>None\<close> when it cannot be decoded, \<open>Some None\<close> when it has no such
  block.
\<close>

type_synonym usage_decoder = "string \<Rightarrow> tokenUsage option option"

fun scanSSE :: "usage_decoder \<Rightarrow> string list \<Rightarrow> tokenUsage option \<Rightarrow> tokenUsage option" where
  "scanSSE decode [] got = got"
| "scanSSE decode (line # lines) got =
     (if \<not> HasPrefix line ''data: '' then scanSSE decode lines got
      else
        (let payload = TrimPrefix line ''data: ''
         in if payload = ''[DONE]'' then got
            else case decode payload of
                   None \<Rightarrow> scanSSE decode lines got
                 | Some None \<Rightarrow> scanSSE decode lines got
                 | Some (Some u) \<Rightarrow> scanSSE decode lines (Some u)))"

definition scanJSON :: "usage_decoder \<Rightarrow> string \<Rightarrow> tokenUsage option" where
  "scanJSON decode body = (case decode body of None \<Rightarrow> None | Some u \<Rightarrow> u)"

text \<open>\<open>seen\<close> is as much of the response as was parsed when the handler stopped waiting for it.\<close>

definition capture :: "usage_decoder \<Rightarrow> usage_decoder \<Rightarrow> bool \<Rightarrow> string \<Rightarrow> tokenUsage option" where
  "capture unmarshal decodeFirst stream seen =
     (if stream then scanSSE unmarshal (scan_lines (2 ^ 20) seen) None else scanJSON decodeFirst seen)"

subsection \<open>Forwarding\<close>

text \<open>
  The exchange with a replica. The address may not parse; the replica may fail before it has sent its
  response headers; the response may be passed on to the end; or copying it to the client may break off,
  in which case \<^verbatim>\<open>httputil.ReverseProxy\<close> panics with \<^verbatim>\<open>http.ErrAbortHandler\<close> and the handler ends there.
\<close>

datatype exchange = BadAddress | NoResponse | Complete string | BrokenOff string

datatype forwarded = NotForwarded | Forwarded "UsageReport option" | Panicked

record request_env =
  rq_requestID :: string
  rq_keyID :: string
  rq_model :: string
  rq_stream :: bool
  rq_unmarshal :: usage_decoder
  rq_decodeFirst :: usage_decoder
  rq_exchange :: "nat \<Rightarrow> ReplicaAddr \<Rightarrow> exchange"
  rq_unixMs :: "nat \<Rightarrow> int"

text \<open>\<open>attempt\<close> numbers the two calls of the handler.\<close>

definition forward :: "request_env \<Rightarrow> nat \<Rightarrow> ReplicaAddr \<Rightarrow> forwarded" where
  "forward q attempt replica =
     (case rq_exchange q attempt replica of
        BadAddress \<Rightarrow> NotForwarded
      | NoResponse \<Rightarrow> NotForwarded
      | BrokenOff seen \<Rightarrow> Panicked
      | Complete seen \<Rightarrow>
          Forwarded
            (map_option (\<lambda>u. \<lparr>rc_RequestID = rq_requestID q, rc_Model = rq_model q,
                rc_NodeID = rep_node_id replica, rc_DeploymentID = rep_deployment_id replica,
                rc_APIKeyID = rq_keyID q, rc_PromptTokens = tu_PromptTokens u,
                rc_CompletionTokens = tu_CompletionTokens u, rc_TimestampUnixMs = rq_unixMs q attempt\<rparr>)
              (capture (rq_unmarshal q) (rq_decodeFirst q) (rq_stream q) seen)))"

definition routingError :: "(bool \<Rightarrow> string list option) option \<Rightarrow> string \<Rightarrow> route_error \<Rightarrow> reply" where
  "routingError list model err =
     (if err = ErrNoReplicas
      then case Router_DeployedModels list of
             Some names \<Rightarrow> if model \<in> set names then Status 503 ''no ready replica''
                           else Status 404 ''model_not_found''
           | None \<Rightarrow> Status 404 ''model_not_found''
      else Status 503 ''could not route request'')"

subsection \<open>The inference handler\<close>

text \<open>
  What the handler meets: the body as it arrives (\<open>None\<close> for a read error), the decoding of model and
  stream flag, the clocks and the coordinator at the two lookups, and the request environment, whose
  model and flag are those decoded.
\<close>

record inference_env =
  in_body :: "string option"
  in_peek :: "string \<Rightarrow> (string \<times> bool) option"
  in_list :: "(bool \<Rightarrow> string list option) option"
  in_pick :: "time \<times> time \<times> resolve_client"
  in_retry :: "time \<times> time \<times> resolve_client"
  in_request :: request_env

definition peeked :: "inference_env \<Rightarrow> (string \<times> bool) option" where
  "peeked e = Option.bind (in_body e) (\<lambda>body. in_peek e (take maxRequestBody body))"

definition deliver :: "ReplicaAddr \<Rightarrow> UsageReport option \<Rightarrow> Router \<Rightarrow> Reporter \<Rightarrow> (Router \<times> Reporter) \<times> reply" where
  "deliver replica report r rp =
     ((r, case report of None \<Rightarrow> rp | Some rec \<Rightarrow> Report rec rp), Proxied replica)"

definition handleInference :: "inference_env \<Rightarrow> string \<Rightarrow> Router \<times> Reporter \<Rightarrow> (Router \<times> Reporter) \<times> reply" where
  "handleInference e keyID s =
     (let (r, rp) = s
      in case peeked e of
           None \<Rightarrow> (s, Status 400 ''malformed'')
         | Some (model, stream) \<Rightarrow>
             if model = [] then (s, Status 400 ''model is required'')
             else
               (let q = (in_request e)\<lparr>rq_model := model, rq_stream := stream, rq_keyID := keyID\<rparr>;
                    (now, now', client) = in_pick e
                in case Pick now now' client model r of
                     (r1, Inl err) \<Rightarrow> ((r1, rp), routingError (in_list e) model err)
                   | (r1, Inr replica) \<Rightarrow>
                       (case forward q 0 replica of
                          Panicked \<Rightarrow> ((r1, rp), ConnectionAborted)
                        | Forwarded report \<Rightarrow> deliver replica report r1 rp
                        | NotForwarded \<Rightarrow>
                            (let r2 = Invalidate model r1;
                                 (now2, now2', client2) = in_retry e
                             in case PickExcluding now2 now2' client2 model (rep_deployment_id replica) r2 of
                                  (r3, Inl err) \<Rightarrow> ((r3, rp), Status 502 ''no reachable replica'')
                                | (r3, Inr alt) \<Rightarrow>
                                    (case forward q 1 alt of
                                       Panicked \<Rightarrow> ((r3, rp), ConnectionAborted)
                                     | Forwarded report \<Rightarrow> deliver alt report r3 rp
                                     | NotForwarded \<Rightarrow> ((r3, rp), Status 502 ''no reachable replica''))))))"

subsection \<open>The routes\<close>

definition gateway_handler ::
  "(string \<times> string) list \<Rightarrow> string \<Rightarrow> string \<Rightarrow> string \<Rightarrow> inference_env \<Rightarrow> Router \<times> Reporter
     \<Rightarrow> (Router \<times> Reporter) \<times> reply" where
  "gateway_handler keys meth path auth e s =
     (if (meth = ''GET'' \<or> meth = ''HEAD'') \<and> path = ''/health'' then (s, Status 200 ''ok'')
      else if (meth = ''GET'' \<or> meth = ''HEAD'') \<and> path = ''/v1/models''
      then withAuth keys auth (\<lambda>keyID s. (s, handleModels (in_list e))) s
      else if meth = ''POST'' \<and> (path = ''/v1/chat/completions'' \<or> path = ''/v1/completions'')
      then withAuth keys auth (handleInference e) s
      else if path \<in> {''/health'', ''/v1/models'', ''/v1/chat/completions'', ''/v1/completions''}
      then (s, Status 405 ''Method Not Allowed'')
      else (s, Status 404 ''page not found''))"

end
