(* ===== verification/GwProps.thy ===== *)
theory GwProps
  imports GwProxy
begin

text \<open>
  The properties of the gateway: who is let in, where a request may be served, and that it is reported
  for billing at most once, by the replica that served it.
\<close>

subsection \<open>Keys\<close>

lemma map_of_keys_loop:
  assumes "distinct ks" and "\<forall>k \<in> set ks. TrimSpace k = k \<and> k \<noteq> []"
  shows "map_of (keys_loop ks n out) k =
    (case find (\<lambda>i. ks ! i = k) [0..<length ks] of Some i \<Rightarrow> Some (''key-'' @ itoa (n + i)) | None \<Rightarrow> map_of out k)"
  using assms
proof (induction ks arbitrary: n out)
  case (Cons k0 ks)
  have "find (\<lambda>i. (k0 # ks) ! i = k) [0..<length (k0 # ks)] =
      (if k0 = k then Some 0 else map_option Suc (find (\<lambda>i. ks ! i = k) [0..<length ks]))"
  proof -
    have "find (\<lambda>i. (k0 # ks) ! i = k) (map Suc xs) = map_option Suc (find (\<lambda>i. ks ! i = k) xs)" for xs
      by (induction xs) auto
    then show ?thesis by (simp add: upt_conv_Cons map_Suc_upt [symmetric] del: upt_Suc)
  qed
  moreover have "find (\<lambda>i. ks ! i = k) [0..<length ks] = None" if "k0 = k"
    using Cons.prems(1) that by (auto simp: find_None_iff)
  ultimately show ?case
    using Cons.IH [of "n + 1" "AList.update k0 (''key-'' @ itoa n) out"] Cons.prems
    by (auto simp: update_conv' split: option.split)
qed simp

lemma find_index: "distinct ks \<Longrightarrow> i < length ks \<Longrightarrow> find (\<lambda>j. ks ! j = ks ! i) [0..<length ks] = Some i"
  by (auto simp: find_Some_iff nth_eq_iff_index_eq intro!: exI [of _ i])



subsection \<open>Where a request is served\<close>

lemma Invalidate_fetches:
  "replicas now now' client model (Invalidate model r) = fetch_replicas now' client model (Invalidate model r)"
  by (simp add: replicas_def Invalidate_def)

lemma fetch_heard:
  "answers heard now client \<Longrightarrow> fetch_replicas now client model r = (r', Inr reps) \<Longrightarrow> heard now model reps"
  by (auto simp: fetch_replicas_def answers_def split: option.splits if_splits)

lemma handleInference_served:
  assumes "handleInference e keyID (r, rp) = ((r', rp'), Proxied replica)"
    and "in_pick e = (now, now', client)" and "in_retry e = (now2, now2', client2)"
  obtains model stream first r1 where "peeked e = Some (model, stream)" and "model \<noteq> []"
    and "Pick now now' client model r = (r1, Inr first)" and "replica = first" and "r' = r1"
  | model stream first r1 where "peeked e = Some (model, stream)" and "model \<noteq> []"
    and "Pick now now' client model r = (r1, Inr first)"
    and "forward ((in_request e)\<lparr>rq_model := model, rq_stream := stream, rq_keyID := keyID\<rparr>) 0 first = NotForwarded"
    and "PickExcluding now2 now2' client2 model (rep_deployment_id first) (Invalidate model r1) = (r', Inr replica)"
  using assms
  by (auto simp: handleInference_def deliver_def routingError_def
      split: option.splits prod.splits if_splits sum.splits forwarded.splits)


definition demo_request :: request_env where
  "demo_request = \<lparr>rq_requestID = ''req-1'', rq_keyID = [], rq_model = [], rq_stream = False,
     rq_unmarshal = \<lambda>_. None,
     rq_decodeFirst = \<lambda>_. Some (Some \<lparr>tu_PromptTokens = 12, tu_CompletionTokens = 30\<rparr>),
     rq_exchange = \<lambda>n rep. if rep_deployment_id rep = ''d1'' then NoResponse else Complete ''body'',
     rq_unixMs = \<lambda>_. 5\<rparr>"

text \<open>A request whose first replica is dead.\<close>

definition demo_inference :: inference_env where
  "demo_inference = \<lparr>in_body = Some ''body'', in_peek = \<lambda>_. Some (''qwen'', False), in_list = None,
     in_pick = (1, 2, Some (\<lambda>_. Some demo_reps)), in_retry = (3, 4, Some (\<lambda>_. Some demo_reps)),
     in_request = demo_request\<rparr>"

lemma demo_inference_runs:
  "\<exists>r' rp'. handleInference demo_inference ''key-0'' (New_Router, NewReporter True) =
     ((r', rp'), Proxied (demo_reps ! 1))"
  by (simp add: handleInference_def peeked_def demo_inference_def Pick_def replicas_def fetch_replicas_def
      New_Router_def demo_reps_def pick_next_def forward_def demo_request_def PickExcluding_def Invalidate_def
      deliver_def zero_entry_def)


subsection \<open>Billing\<close>

lemma forward_report:
  "forward q n replica = Forwarded (Some rec) \<Longrightarrow>
     rc_RequestID rec = rq_requestID q \<and> rc_Model rec = rq_model q \<and> rc_APIKeyID rec = rq_keyID q \<and>
     rc_NodeID rec = rep_node_id replica \<and> rc_DeploymentID rec = rep_deployment_id replica"
  by (auto simp: forward_def split: exchange.splits)

lemma handleInference_reports:
  assumes "handleInference e keyID (r, rp) = ((r', rp'), reply)"
  shows "rp' = rp \<or>
    (\<exists>rec replica stream. rp' = Report rec rp \<and> reply = Proxied replica \<and>
       peeked e = Some (rc_Model rec, stream) \<and> rc_RequestID rec = rq_requestID (in_request e) \<and>
       rc_APIKeyID rec = keyID \<and> rc_NodeID rec = rep_node_id replica \<and>
       rc_DeploymentID rec = rep_deployment_id replica)"
proof (cases "peeked e")
  case (Some ms)
  obtain model stream where ms: "ms = (model, stream)" by (cases ms)
  let ?q = "(in_request e)\<lparr>rq_model := model, rq_stream := stream, rq_keyID := keyID\<rparr>"
  have "rp' = rp \<or> (\<exists>n rec replica. forward ?q n replica = Forwarded (Some rec) \<and> rp' = Report rec rp \<and>
      reply = Proxied replica)"
    using assms Some ms
    by (auto simp: handleInference_def deliver_def
        split: prod.splits if_splits sum.splits forwarded.splits option.splits)
  with forward_report [of ?q] Some ms show ?thesis by fastforce
next
  case None
  with assms show ?thesis by (simp add: handleInference_def)
qed

text \<open>C26. One inference request is reported for billing at most once. Whatever the replicas do, and
  whether or not it is retried, the handler hands the reporter either nothing or one record; that record
  carries the ID of the request, the model it asked for, the key of the caller, and the node and
  deployment of the replica whose answer the client received.\<close>

theorem inference_reported_at_most_once:
  assumes "handleInference e keyID (r, rp) = ((r', rp'), reply)"
  shows "rp' = rp \<or>
    (\<exists>rec replica stream. rp' = Report rec rp \<and> reply = Proxied replica \<and>
       peeked e = Some (rc_Model rec, stream) \<and> rc_RequestID rec = rq_requestID (in_request e) \<and>
       rc_APIKeyID rec = keyID \<and> rc_NodeID rec = rep_node_id replica \<and>
       rc_DeploymentID rec = rep_deployment_id replica)"
  by (rule handleInference_reports [OF assms])

theorem inference_reported_at_most_once_witness:
  "\<exists>rec. snd (fst (handleInference demo_inference ''key-0'' (New_Router, NewReporter True))) =
     Report rec (NewReporter True) \<and> rc_RequestID rec = ''req-1'' \<and> rc_NodeID rec = ''n2''"
proof -
  obtain r' rp' where run: "handleInference demo_inference ''key-0'' (New_Router, NewReporter True) =
     ((r', rp'), Proxied (demo_reps ! 1))" using demo_inference_runs by blast
  have "rp' \<noteq> NewReporter True"
    using run
    by (auto simp: handleInference_def peeked_def demo_inference_def Pick_def replicas_def fetch_replicas_def
      New_Router_def demo_reps_def pick_next_def forward_def demo_request_def PickExcluding_def Invalidate_def
      deliver_def zero_entry_def capture_def scanJSON_def Report_def NewReporter_def queueSize_def)
  with inference_reported_at_most_once [OF run] run show ?thesis
    by (auto simp: demo_inference_def demo_request_def demo_reps_def)
qed

text \<open>A response that breaks off is not billed at all: when copying the answer to the client fails
  after the replica has responded, the handler is aborted before it reports, even if the usage block had
  already gone past.\<close>

theorem broken_off_response_unbilled:
  assumes "peeked e = Some (model, stream)" and "model \<noteq> []" and "in_pick e = (now, now', client)"
    and "Pick now now' client model r = (r1, Inr replica)"
    and "rq_exchange (in_request e) 0 replica = BrokenOff seen"
  shows "handleInference e keyID (r, rp) = ((r1, rp), ConnectionAborted)"
  using assms by (simp add: handleInference_def forward_def)

theorem broken_off_response_unbilled_witness:
  "\<exists>r1. handleInference (demo_inference\<lparr>in_request := demo_request\<lparr>rq_exchange := \<lambda>n rep. BrokenOff ''body''\<rparr>\<rparr>)
     ''key-0'' (New_Router, NewReporter True) = ((r1, NewReporter True), ConnectionAborted)"
proof -
  let ?e = "demo_inference\<lparr>in_request := demo_request\<lparr>rq_exchange := \<lambda>n rep. BrokenOff ''body''\<rparr>\<rparr>"
  obtain r1 where "Pick 1 2 (Some (\<lambda>_. Some demo_reps)) ''qwen'' New_Router = (r1, Inr (demo_reps ! 0))"
    by (simp add: Pick_def replicas_def fetch_replicas_def New_Router_def demo_reps_def pick_next_def zero_entry_def)
  from broken_off_response_unbilled [OF _ _ _ this, of ?e False "''body''" "''key-0''" "NewReporter True"]
  show ?thesis by (simp add: demo_inference_def peeked_def)
qed

subsection \<open>Error replies\<close>

text \<open>The status a client sees when a request cannot be routed. A model that the coordinator still
  lists as deployed is answered 503 while it has no ready replica, and a failing lookup is answered 503
  too; 404 is sent exactly when there is no replica and the list of deployed models does not show the
  model, which includes the case that the list could not be fetched.\<close>

theorem routing_status_exact:
  assumes "peeked e = Some (model, stream)" and "model \<noteq> []" and "in_pick e = (now, now', client)"
    and "Pick now now' client model r = (r1, Inl err)"
  shows "\<exists>code why. handleInference e keyID (r, rp) = ((r1, rp), Status code why) \<and> code \<in> {404, 503} \<and>
    (code = 404 \<longleftrightarrow> err = ErrNoReplicas \<and>
       (\<forall>names. Router_DeployedModels (in_list e) = Some names \<longrightarrow> model \<notin> set names))"
  using assms
  by (cases "Router_DeployedModels (in_list e)") (auto simp: handleInference_def routingError_def)

theorem routing_status_exact_witness:
  "snd (handleInference (demo_inference\<lparr>in_pick := (1, 2, None)\<rparr>) ''key-0'' (New_Router, NewReporter True))
     = Status 404 ''model_not_found''"
proof -
  let ?e = "demo_inference\<lparr>in_pick := (1, 2, None)\<rparr>"
  have "Pick 1 2 None ''qwen'' New_Router = (New_Router, Inl ErrNoReplicas)"
    by (simp add: Pick_def replicas_def fetch_replicas_def New_Router_def)
  from routing_status_exact [OF _ _ _ this, of ?e False "''key-0''" "NewReporter True"]
  have "\<exists>why. handleInference ?e ''key-0'' (New_Router, NewReporter True) = ((New_Router, NewReporter True), Status 404 why)"
    by (auto simp: demo_inference_def peeked_def Router_DeployedModels_def listModels_def)
  then show ?thesis
    by (auto simp: handleInference_def demo_inference_def peeked_def Pick_def replicas_def fetch_replicas_def
        New_Router_def routingError_def Router_DeployedModels_def listModels_def)
qed

end
