(* ===== verification/AgentRunner.thy ===== *)
theory AgentRunner
  imports Scheduler GoStrings
begin

text \<open>
  One-shot jobs on the agent (\<^verbatim>\<open>agent/internal/runner\<close>): a job driven from image pull to its terminal
  update by the Docker runner. The Docker daemon's answers are an argument. Error texts are reduced to
  their fixed part.
\<close>

subsection \<open>Updates and API calls\<close>

record RunnerUpdate =
  ru_State :: JobState
  ru_LogChunk :: string
  ru_ExitCode :: u32
  ru_Err :: string

definition job_update :: "JobState \<Rightarrow> RunnerUpdate" where
  "job_update st = \<lparr>ru_State = st, ru_LogChunk = [], ru_ExitCode = 0, ru_Err = []\<rparr>"

record HostConfig =
  hc_Memory :: u64
  hc_gpus_all :: bool

record ContainerConfig =
  cc_Image :: string
  cc_Cmd :: "string list"
  cc_Env :: "string list"
  cc_Host :: HostConfig
  cc_Name :: string

datatype docker_call = ContainerCreate ContainerConfig | ContainerStart string | ContainerRemove string

subsection \<open>Pulling the image\<close>

text \<open>
  The progress stream of a pull: messages with a status and an error, then the end of the stream, or a
  decoding error.
\<close>

datatype pull_stream = PullMsg string string pull_stream | PullEOF | PullBroken

fun pull_loop :: "string set \<Rightarrow> pull_stream \<Rightarrow> string list \<times> bool" where
  "pull_loop seen PullEOF = ([], True)"
| "pull_loop seen PullBroken = ([], False)"
| "pull_loop seen (PullMsg status err rest) =
     (if err \<noteq> [] then ([], False)
      else if status \<noteq> [] \<and> status \<notin> seen
      then (let (out, ok) = pull_loop (insert status seen) rest in ((status @ [CHR 0x0A]) # out, ok))
      else pull_loop seen rest)"

definition pull :: "pull_stream option \<Rightarrow> string list \<times> bool" where
  "pull s = (case s of None \<Rightarrow> ([], False) | Some rc \<Rightarrow> pull_loop {} rc)"

subsection \<open>Creating the container\<close>

text \<open>
  \<^verbatim>\<open>int64(mb) * 1024 * 1024\<close> wraps at 64 bits. The environment is the entries of the map, sorted; \<open>eord\<close>
  is the order it is ranged over.
\<close>

definition container_config :: "string list \<Rightarrow> JobSpec \<Rightarrow> ContainerConfig" where
  "container_config eord spec =
     \<lparr>cc_Image = js_image spec, cc_Cmd = js_command spec,
      cc_Env = sort (List.map_filter (\<lambda>k. map_option (\<lambda>v. k @ ''='' @ v) (js_env spec k)) eord),
      cc_Host = \<lparr>hc_Memory = js_memory_limit_mb spec * 1024 * 1024, hc_gpus_all = js_gpu spec\<rparr>,
      cc_Name = ''gridlink-job-'' @ js_job_id spec\<rparr>"

subsection \<open>Coalescing logs\<close>

datatype log_event = LogWrite string | LogTick

text \<open>One flush: the buffered text, if there is any.\<close>

definition flush :: "string \<Rightarrow> string list" where
  "flush buf = (if buf \<noteq> [] then [buf] else [])"

fun coalesce :: "string \<Rightarrow> log_event list \<Rightarrow> string list" where
  "coalesce buf [] = flush buf"
| "coalesce buf (LogWrite s # evs) = coalesce (buf @ s) evs"
| "coalesce buf (LogTick # evs) = flush buf @ coalesce [] evs"

fun written :: "log_event list \<Rightarrow> string" where
  "written [] = []"
| "written (LogWrite s # evs) = s @ written evs"
| "written (LogTick # evs) = written evs"

subsection \<open>A whole job\<close>

datatype ctx_state = CtxAlive | CtxCancelled | CtxDeadlineExceeded

definition terminalForCtx :: "ctx_state \<Rightarrow> string \<Rightarrow> RunnerUpdate" where
  "terminalForCtx ctx err =
     (case ctx of
        CtxDeadlineExceeded \<Rightarrow> (job_update JOB_STATE_FAILED)\<lparr>ru_Err := ''job timed out''\<rparr>
      | CtxCancelled \<Rightarrow> job_update JOB_STATE_CANCELLED
      | CtxAlive \<Rightarrow> (job_update JOB_STATE_FAILED)\<lparr>ru_Err := err\<rparr>)"

datatype wait_result = WaitCtxDone | WaitError | WaitExited "string option" u64

text \<open>
  \<open>dk_ctx\<close> is the state of the job's context when something fails; \<open>dk_logs\<close> is what is copied from the
  container's log stream, between the ticks of the coalescer (nothing if the stream cannot be opened).
\<close>

record docker_env =
  dk_pull :: "pull_stream option"
  dk_eord :: "string list"
  dk_create :: "string option"
  dk_start :: bool
  dk_logs :: "log_event list"
  dk_wait :: wait_result
  dk_ctx :: ctx_state

definition exit_update :: "string option \<Rightarrow> u64 \<Rightarrow> RunnerUpdate" where
  "exit_update err status =
     (case err of
        Some msg \<Rightarrow> (job_update JOB_STATE_FAILED)\<lparr>ru_Err := msg\<rparr>
      | None \<Rightarrow>
          if status = 0 then job_update JOB_STATE_SUCCEEDED
          else (job_update JOB_STATE_FAILED)\<lparr>ru_ExitCode := ucast status,
                  ru_Err := ''container exited with code''\<rparr>)"

definition docker_run :: "JobSpec \<Rightarrow> docker_env \<Rightarrow> RunnerUpdate list \<times> docker_call list" where
  "docker_run spec e =
     (let pending = job_update JOB_STATE_PENDING;
          running = job_update JOB_STATE_RUNNING;
          (statuses, pulled) = pull (dk_pull e);
          us1 = pending # map (\<lambda>s. pending\<lparr>ru_LogChunk := s\<rparr>) statuses
      in if \<not> pulled then (us1 @ [terminalForCtx (dk_ctx e) ''pull''], [])
         else
           (let cfg = container_config (dk_eord e) spec
            in case dk_create e of
                 None \<Rightarrow> (us1 @ [terminalForCtx (dk_ctx e) ''create container''], [ContainerCreate cfg])
               | Some cid \<Rightarrow>
                   if \<not> dk_start e
                   then (us1 @ [terminalForCtx (dk_ctx e) ''start container''],
                         [ContainerCreate cfg, ContainerStart cid, ContainerRemove cid])
                   else
                     (us1 @ running # map (\<lambda>s. running\<lparr>ru_LogChunk := s\<rparr>) (coalesce [] (dk_logs e)) @
                        [case dk_wait e of
                           WaitCtxDone \<Rightarrow> terminalForCtx (dk_ctx e) ''context done''
                         | WaitError \<Rightarrow> terminalForCtx (dk_ctx e) ''wait for container''
                         | WaitExited err status \<Rightarrow> exit_update err status],
                      [ContainerCreate cfg, ContainerStart cid, ContainerRemove cid])))"

definition DockerRunner_Run :: "JobSpec \<Rightarrow> docker_env \<Rightarrow> (RunnerUpdate list \<times> docker_call list) option" where
  "DockerRunner_Run spec e = (if js_image spec = [] then None else Some (docker_run spec e))"

subsection \<open>The contract of the update stream\<close>

abbreviation job_terminal :: "RunnerUpdate \<Rightarrow> bool" where
  "job_terminal u \<equiv> isTerminal (ru_State u)"

lemma terminalForCtx_terminal [simp]: "job_terminal (terminalForCtx ctx err)"
  by (cases ctx) (simp_all add: terminalForCtx_def job_update_def)

lemma exit_update_terminal [simp]: "job_terminal (exit_update err status)"
  by (cases err) (simp_all add: exit_update_def job_update_def)

interpretation docker: update_stream "\<lambda>e. fst (docker_run spec e)" job_terminal for spec
proof unfold_locales
  fix e
  have "\<exists>us u. fst (docker_run spec e) = us @ [u] \<and> job_terminal u \<and>
      set us \<subseteq> {v. ru_State v = JOB_STATE_PENDING \<or> ru_State v = JOB_STATE_RUNNING}"
    by (auto simp: docker_run_def split_beta job_update_def split: option.split wait_result.split)
  then show "\<exists>us u. fst (docker_run spec e) = us @ [u] \<and> job_terminal u \<and> (\<forall>x \<in> set us. \<not> job_terminal x)"
    by fastforce
qed

subsection \<open>What a job leaves behind\<close>

lemma coalesce_complete: "concat (coalesce buf evs) = buf @ written evs"
  by (induction buf evs rule: coalesce.induct) (auto simp: flush_def)

lemma coalesce_nonempty: "[] \<notin> set (coalesce buf evs)"
  by (induction buf evs rule: coalesce.induct) (auto simp: flush_def)

lemma pull_loop_fresh: "pull_loop seen s = (out, ok) \<Longrightarrow> distinct out \<and> (\<forall>o' \<in> set out. \<exists>st. o' = st @ [CHR 0x0A] \<and> st \<notin> seen)"
  by (induction seen s arbitrary: out ok rule: pull_loop.induct)
    (fastforce split: if_splits prod.splits)+

lemma docker_outcome:
  "ru_State (last (fst (docker_run spec e))) = JOB_STATE_SUCCEEDED \<longleftrightarrow>
     snd (pull (dk_pull e)) \<and> dk_create e \<noteq> None \<and> dk_start e \<and> dk_wait e = WaitExited None 0"
proof -
  have "ru_State (terminalForCtx c m) \<noteq> JOB_STATE_SUCCEEDED" for c m
    by (cases c; simp add: terminalForCtx_def job_update_def)
  moreover have "ru_State (exit_update err st) = JOB_STATE_SUCCEEDED \<longleftrightarrow> err = None \<and> st = 0" for err st
    by (cases err; simp add: exit_update_def job_update_def)
  ultimately show ?thesis
    by (auto simp: docker_run_def split_beta split: option.splits wait_result.splits)
qed

text \<open>C20. A job always ends properly. Whatever the Docker daemon does, the runner's stream carries exactly
  one terminal update and it is the last; the state is \<^verbatim>\<open>SUCCEEDED\<close> exactly when the container ran and
  exited with status zero; every container that was created is removed as the very last call; and once
  the container has started, the log chunks put together are exactly what its log stream delivered, in order.\<close>

theorem docker_job_contract:
  assumes "docker_run spec e = (us, calls)"
  shows "filter job_terminal us = [last us] \<and>
    (ru_State (last us) = JOB_STATE_SUCCEEDED \<longleftrightarrow>
       snd (pull (dk_pull e)) \<and> dk_create e \<noteq> None \<and> dk_start e \<and> dk_wait e = WaitExited None 0) \<and>
    (\<forall>cid. snd (pull (dk_pull e)) \<and> dk_create e = Some cid \<longrightarrow> last calls = ContainerRemove cid) \<and>
    (snd (pull (dk_pull e)) \<and> dk_create e \<noteq> None \<and> dk_start e \<longrightarrow>
       concat (map ru_LogChunk (filter (\<lambda>u. ru_State u = JOB_STATE_RUNNING) us)) = written (dk_logs e))"
proof -
  have "ru_State (terminalForCtx c m) \<noteq> JOB_STATE_RUNNING" for c m
    by (cases c; simp add: terminalForCtx_def job_update_def)
  moreover have "ru_State (exit_update err st) \<noteq> JOB_STATE_RUNNING" for err st
    by (cases err; simp add: exit_update_def job_update_def)
  ultimately show ?thesis
    using docker.filter_terminal [of spec e] docker_outcome [of spec e] unfolding assms fst_conv
    using assms
    by (auto simp: docker_run_def split_beta job_update_def filter_map comp_def coalesce_complete
        split: option.splits wait_result.splits if_splits)
qed

definition demo_docker :: docker_env where
  "demo_docker = \<lparr>dk_pull = Some (PullMsg ''Pulling'' [] (PullMsg ''Pulling'' [] PullEOF)), dk_eord = [],
     dk_create = Some ''c1'', dk_start = True, dk_logs = [LogWrite ''a'', LogWrite ''b'', LogTick, LogWrite ''c''],
     dk_wait = WaitExited None 0, dk_ctx = CtxAlive\<rparr>"

theorem docker_job_contract_witness:
  "ru_State (last (fst (docker_run demo_jobspec demo_docker))) = JOB_STATE_SUCCEEDED \<and>
   last (snd (docker_run demo_jobspec demo_docker)) = ContainerRemove ''c1''"
proof -
  have "docker_run demo_jobspec demo_docker =
      (fst (docker_run demo_jobspec demo_docker), snd (docker_run demo_jobspec demo_docker))" by simp
  from docker_job_contract [OF this] show ?thesis by (simp add: demo_docker_def pull_def)
qed

text \<open>The memory limit a container gets: exact up to the largest signed 64-bit size, then it wraps.\<close>

lemma memory_limit_exact:
  assumes "unat (js_memory_limit_mb spec) < 2 ^ 44"
  shows "unat (hc_Memory (cc_Host (container_config eord spec))) = unat (js_memory_limit_mb spec) * 2 ^ 20"
proof -
  let ?mb = "js_memory_limit_mb spec"
  have "unat ?mb * 1048576 < 2 ^ 64" using assms by simp
  then have "unat (?mb * 1048576) = unat ?mb * 1048576"
    by (subst unat_mult_lem [THEN iffD1]) simp_all
  then show ?thesis by (simp add: container_config_def mult.assoc)
qed

text \<open>A job's memory limit reaches Docker exactly while it is below two to the power of 44 megabytes;
  at that value the multiplication by the size of a megabyte wraps to zero, which Docker takes as no
  limit.\<close>

theorem job_memory_limit:
  "(unat (js_memory_limit_mb spec) < 2 ^ 44 \<longrightarrow>
      unat (hc_Memory (cc_Host (container_config eord spec))) = unat (js_memory_limit_mb spec) * 2 ^ 20) \<and>
   (js_memory_limit_mb spec = 2 ^ 44 \<longrightarrow> hc_Memory (cc_Host (container_config eord spec)) = 0)"
  using memory_limit_exact [of spec eord] by (simp add: container_config_def)

theorem job_memory_limit_witness:
  "unat (hc_Memory (cc_Host (container_config [] (demo_jobspec\<lparr>js_memory_limit_mb := 512\<rparr>)))) = 512 * 2 ^ 20"
  using job_memory_limit [of "demo_jobspec\<lparr>js_memory_limit_mb := 512\<rparr>" "[]"] by simp

end
