(* ===== verification/AgentDownload.thy ===== *)
theory AgentDownload
  imports Contracts GoStrings
begin

text \<open>
  Fetching model weights on the agent (\<^verbatim>\<open>agent/internal/deploy/download.go\<close>). Files are addressed by the
  components of an absolute path, as \<^verbatim>\<open>filepath.Join\<close> leaves them; the file system maps such paths to
  contents. The digest is an argument \<open>sha\<close> (the lower-case hexadecimal SHA-256 of a content), and so is
  what the download meets on the way.
\<close>

subsection \<open>Paths\<close>

definition clean_step :: "string list \<Rightarrow> string \<Rightarrow> string list" where
  "clean_step acc seg =
     (if seg = [] \<or> seg = ''.'' then acc
      else if seg = ''..'' then butlast acc
      else acc @ [seg])"

definition path_Join :: "string list \<Rightarrow> string \<Rightarrow> string list" where
  "path_Join dir name = foldl clean_step dir (Split (CHR ''/'') name)"

lemma path_Join_bare:
  "CHR ''/'' \<notin> set name \<Longrightarrow> name \<noteq> [] \<Longrightarrow> name \<noteq> ''.'' \<Longrightarrow> name \<noteq> ''..'' \<Longrightarrow> path_Join dir name = dir @ [name]"
  by (simp add: path_Join_def Split_no_sep clean_step_def)

subsection \<open>The download URL\<close>

record modelSpec =
  ms_ModelRef :: string
  ms_ModelFile :: string
  ms_Revision :: string
  ms_SHA256 :: string

definition unescaped :: "char \<Rightarrow> bool" where
  "unescaped c \<longleftrightarrow>
     (let n = of_char c :: nat in (48 \<le> n \<and> n \<le> 57) \<or> (65 \<le> n \<and> n \<le> 90) \<or> (97 \<le> n \<and> n \<le> 122)) \<or>
     c \<in> set ''-_.~$&+=:@''"

definition hex_digit :: "nat \<Rightarrow> char" where
  "hex_digit d = (if d < 10 then char_of (48 + d) else char_of (55 + d))"

definition PathEscape :: "string \<Rightarrow> string" where
  "PathEscape s = concat (map (\<lambda>c. if unescaped c then [c]
     else [CHR ''%'', hex_digit (of_char c div 16), hex_digit (of_char c mod 16)]) s)"

fun contains_dotdot :: "string \<Rightarrow> bool" where
  "contains_dotdot (a # b # cs) = (a = CHR ''.'' \<and> b = CHR ''.'' \<or> contains_dotdot (b # cs))"
| "contains_dotdot _ = False"

definition trim_slashes :: "string \<Rightarrow> string" where
  "trim_slashes s = rev (dropWhile (\<lambda>c. c = CHR ''/'') (rev s))"

definition modelURL :: "string \<Rightarrow> string \<Rightarrow> string \<Rightarrow> string \<Rightarrow> string option" where
  "modelURL base modelRef modelFile revision =
     (if modelRef = [] \<or> modelFile = [] then None
      else if CHR ''/'' \<in> set modelFile \<or> CHR 0x5C \<in> set modelFile \<or> modelFile = ''.'' \<or> modelFile = ''..''
      then None
      else if contains_dotdot modelRef then None
      else
        (let rev = (if revision = [] then ''main'' else revision)
         in Some (trim_slashes base @ ''/'' @ modelRef @ ''/resolve/'' @ PathEscape rev @ ''/'' @
                  PathEscape modelFile)))"

subsection \<open>The cache\<close>

definition safe_Replace :: "string \<Rightarrow> string" where
  "safe_Replace = map (\<lambda>c. if c \<in> {CHR ''/'', CHR 0x5C, CHR '':''} then CHR ''_'' else c)"

definition cacheName :: "modelSpec \<Rightarrow> string" where
  "cacheName spec =
     (let rev = (if ms_Revision spec = [] then ''main'' else ms_Revision spec)
      in safe_Replace (ms_ModelRef spec) @ ''@'' @ safe_Replace rev @ ''_'' @ ms_ModelFile spec)"

type_synonym fs = "string list \<rightharpoonup> string"

datatype download_error =
    ErrModelDir
  | ErrModelURL
  | ErrFetch
  | ErrStatus
  | ErrTempFile
  | ErrCopy
  | ErrSha256Mismatch
  | ErrInstall

text \<open>
  What the download meets: whether the directory can be made and cached files be read, the response, and
  whether the temporary file can be made, closed and renamed.
\<close>

datatype response = FetchFails | NotOK | Body string | BodyCutShort

record download_env =
  de_mkdir :: bool
  de_readable :: "string list \<Rightarrow> bool"
  de_response :: response
  de_tempfile :: bool
  de_close :: bool
  de_rename :: bool

definition hfBaseURL :: string where
  "hfBaseURL = ''https://huggingface.co''"

text \<open>
  The second half: fetch into a temporary file, which is gone again at the end unless it was renamed,
  and install it once the digest matches.
\<close>

definition fetch_model ::
  "(string \<Rightarrow> string) \<Rightarrow> download_env \<Rightarrow> string list \<Rightarrow> modelSpec \<Rightarrow> fs \<Rightarrow> fs \<times> (download_error + string list)" where
  "fetch_model sha e dest spec fs =
     (case modelURL hfBaseURL (ms_ModelRef spec) (ms_ModelFile spec) (ms_Revision spec) of
        None \<Rightarrow> (fs, Inl ErrModelURL)
      | Some src \<Rightarrow>
          (case de_response e of
             FetchFails \<Rightarrow> (fs, Inl ErrFetch)
           | NotOK \<Rightarrow> (fs, Inl ErrStatus)
           | BodyCutShort \<Rightarrow> (fs, Inl (if de_tempfile e then ErrCopy else ErrTempFile))
           | Body content \<Rightarrow>
               if \<not> de_tempfile e then (fs, Inl ErrTempFile)
               else if \<not> de_close e then (fs, Inl ErrTempFile)
               else if ms_SHA256 spec \<noteq> [] \<and> sha content \<noteq> ToLower (ms_SHA256 spec)
               then (fs, Inl ErrSha256Mismatch)
               else if \<not> de_rename e then (fs, Inl ErrInstall)
               else (fs(dest \<mapsto> content), Inr dest)))"

definition downloadModel ::
  "(string \<Rightarrow> string) \<Rightarrow> download_env \<Rightarrow> string list \<Rightarrow> modelSpec \<Rightarrow> fs \<Rightarrow> fs \<times> (download_error + string list)" where
  "downloadModel sha e dir spec fs =
     (if \<not> de_mkdir e then (fs, Inl ErrModelDir)
      else
        (let dest = path_Join dir (cacheName spec)
         in case fs dest of
              None \<Rightarrow> fetch_model sha e dest spec fs
            | Some cached \<Rightarrow>
                if ms_SHA256 spec = [] then (fs, Inr dest)
                else if de_readable e dest \<and> sha cached = ToLower (ms_SHA256 spec) then (fs, Inr dest)
                else fetch_model sha e dest spec (fs(dest := None))))"

subsection \<open>Progress\<close>

record progressWriter =
  pw_total :: int
  pw_written :: int
  pw_lastPct :: u32
  pw_lastReport :: time

definition pw_Write :: "time \<Rightarrow> nat \<Rightarrow> progressWriter \<Rightarrow> progressWriter \<times> u32 option" where
  "pw_Write now n p =
     (let p1 = p\<lparr>pw_written := pw_written p + int n\<rparr>
      in if pw_total p1 \<le> 0 then (p1, None)
         else
           (let pct0 = word_of_int (pw_written p1 * 100 div pw_total p1) :: u32;
                pct = (if 100 < pct0 then 100 else pct0)
            in if pct \<noteq> pw_lastPct p1 \<and> second \<le> time_Sub now (pw_lastReport p1)
               then (p1\<lparr>pw_lastPct := pct, pw_lastReport := now\<rparr>, Some pct)
               else (p1, None)))"

fun pw_run :: "(time \<times> nat) list \<Rightarrow> progressWriter \<Rightarrow> (time \<times> u32) list" where
  "pw_run [] p = []"
| "pw_run ((now, n) # ws) p =
     (case pw_Write now n p of
        (p', None) \<Rightarrow> pw_run ws p'
      | (p', Some pct) \<Rightarrow> (now, pct) # pw_run ws p')"

subsection \<open>What the cache guarantees\<close>

lemma fetch_model_cases:
  assumes "fetch_model sha e dest spec fs = (fs', res)"
  shows "fs' = fs \<and> (\<exists>err. res = Inl err) \<or>
    (\<exists>content src. modelURL hfBaseURL (ms_ModelRef spec) (ms_ModelFile spec) (ms_Revision spec) = Some src \<and>
       de_response e = Body content \<and> fs' = fs(dest \<mapsto> content) \<and> res = Inr dest \<and>
       (ms_SHA256 spec = [] \<or> sha content = ToLower (ms_SHA256 spec)))"
  using assms by (auto simp: fetch_model_def split: option.splits response.splits if_splits)


definition demo_model :: modelSpec where
  "demo_model = \<lparr>ms_ModelRef = ''org/m'', ms_ModelFile = ''q.gguf'', ms_Revision = [], ms_SHA256 = ''AB''\<rparr>"

definition demo_download :: download_env where
  "demo_download = \<lparr>de_mkdir = True, de_readable = \<lambda>_. True, de_response = Body ''weights'', de_tempfile = True,
     de_close = True, de_rename = True\<rparr>"

lemma demo_model_url: "modelURL hfBaseURL ''org/m'' ''q.gguf'' [] \<noteq> None"
  by (simp add: modelURL_def)


subsection \<open>Names outside the cache\<close>

lemma foldl_clean_up: "foldl clean_step acc (replicate n ''..'') = take (length acc - n) acc"
proof (induction n arbitrary: acc)
  case (Suc n)
  have "foldl clean_step acc (replicate (Suc n) ''..'') = foldl clean_step (butlast acc) (replicate n ''..'')"
    by (simp add: clean_step_def)
  also have "\<dots> = take (length acc - Suc n) acc" by (simp add: Suc.IH butlast_conv_take min_def)
  finally show ?case .
qed simp

lemma foldl_clean_names:
  "\<forall>seg \<in> set segs. seg \<noteq> [] \<and> seg \<noteq> ''.'' \<and> seg \<noteq> ''..'' \<Longrightarrow> foldl clean_step acc segs = acc @ segs"
  by (induction segs arbitrary: acc) (auto simp: clean_step_def)

definition climbing_spec :: "nat \<Rightarrow> string list \<Rightarrow> string \<Rightarrow> modelSpec" where
  "climbing_spec depth target digest = \<lparr>ms_ModelRef = ''r'',
     ms_ModelFile = Join (CHR ''/'') (''x'' # replicate (Suc depth) ''..'' @ target), ms_Revision = [],
     ms_SHA256 = digest\<rparr>"

lemma Join_prepend: "p @ Join sep (x # xs) = Join sep ((p @ x) # xs)"
  by (cases xs) simp_all

lemma climbing_path:
  assumes "\<forall>seg \<in> set target. seg \<noteq> [] \<and> seg \<noteq> ''.'' \<and> seg \<noteq> ''..'' \<and> CHR ''/'' \<notin> set seg"
  shows "path_Join dir (cacheName (climbing_spec (length dir) target digest)) = target"
proof -
  let ?segs = "replicate (Suc (length dir)) ''..'' @ target"
  have safe: "safe_Replace ''r'' = ''r''" "safe_Replace ''main'' = ''main''"
    by (simp_all add: safe_Replace_def)
  then have "cacheName (climbing_spec (length dir) target digest) = Join (CHR ''/'') (''r@main_x'' # ?segs)"
    using Join_prepend [of "''r@main_''" "CHR ''/''" "''x''" ?segs]
    by (simp add: cacheName_def climbing_spec_def del: replicate_Suc Join.simps)
  moreover have "Split (CHR ''/'') (Join (CHR ''/'') (''r@main_x'' # ?segs)) = ''r@main_x'' # ?segs"
    using assms by (intro Split_Join) (auto simp del: replicate_Suc)
  moreover have "clean_step dir ''r@main_x'' = dir @ [''r@main_x'']" by (simp add: clean_step_def)
  ultimately have "path_Join dir (cacheName (climbing_spec (length dir) target digest)) =
      foldl clean_step (foldl clean_step (dir @ [''r@main_x'']) (replicate (Suc (length dir)) ''..'')) target"
    by (simp only: path_Join_def foldl_append foldl.simps)
  also have "\<dots> = target" using assms by (simp add: foldl_clean_up foldl_clean_names del: replicate_Suc)
  finally show ?thesis .
qed

lemma climbing_url: "modelURL base ''r'' (ms_ModelFile (climbing_spec depth target digest)) [] = None"
  by (simp add: climbing_spec_def modelURL_def)

text \<open>The rejection of file names with path separators comes too late. For every file of the machine
  there is a deployment spec, whose model file name climbs out of the cache directory, such that fetching
  it deletes that file if a digest is given that the file does not have, and hands the file to the
  engine as the model if none is given; only after the deletion is the name refused.\<close>

theorem traversal_reaches_any_file:
  assumes "\<forall>seg \<in> set target. seg \<noteq> [] \<and> seg \<noteq> ''.'' \<and> seg \<noteq> ''..'' \<and> CHR ''/'' \<notin> set seg"
    and "fs target = Some secret" and "de_mkdir e"
  shows "(digest \<noteq> [] \<and> sha secret \<noteq> ToLower digest \<longrightarrow>
      downloadModel sha e dir (climbing_spec (length dir) target digest) fs = (fs(target := None), Inl ErrModelURL)) \<and>
    downloadModel sha e dir (climbing_spec (length dir) target []) fs = (fs, Inr target)"
proof -
  have d: "ms_SHA256 (climbing_spec n t d) = d" "ms_ModelRef (climbing_spec n t d) = ''r''"
    "ms_Revision (climbing_spec n t d) = []" for n t d
    by (simp_all add: climbing_spec_def)
  show ?thesis
    using assms(2,3) by (simp add: downloadModel_def climbing_path [OF assms(1)] fetch_model_def climbing_url d)
qed

theorem traversal_reaches_any_file_witness:
  "fst (downloadModel (\<lambda>c. ''00'') demo_download [''home'', ''u'', ''models'']
      (climbing_spec 3 [''home'', ''u'', ''key''] ''ab'') [[''home'', ''u'', ''key''] \<mapsto> ''s'']) [''home'', ''u'', ''key''] = None"
proof -
  have low: "ToLower ''ab'' = ''ab''" by code_simp
  show ?thesis
    using traversal_reaches_any_file [of "[''home'', ''u'', ''key'']" "[[''home'', ''u'', ''key''] \<mapsto> ''s'']"
        "''s''" demo_download "''ab''" "\<lambda>c. ''00''" "[''home'', ''u'', ''models'']"]
    by (simp add: demo_download_def low numeral_3_eq_3)
qed

text \<open>
  Nor does the name of a cache entry determine the model: the separators may also occur in the parts.
\<close>

lemma cacheName_collision:
  "cacheName \<lparr>ms_ModelRef = ref, ms_ModelFile = ''b_c'', ms_Revision = ''a'', ms_SHA256 = d\<rparr> =
   cacheName \<lparr>ms_ModelRef = ref, ms_ModelFile = ''c'', ms_Revision = ''a_b'', ms_SHA256 = d'\<rparr>"
  by (simp add: cacheName_def safe_Replace_def)

subsection \<open>Progress reports\<close>

definition pw_ok :: "progressWriter \<Rightarrow> bool" where
  "pw_ok p \<longleftrightarrow> 0 < pw_total p \<and> 0 \<le> pw_written p \<and> int (unat (pw_lastPct p)) \<le> pw_written p * 100 div pw_total p"

lemma pw_Write_ok:
  assumes "pw_ok p" and "pw_written p + int n \<le> pw_total p" and "pw_Write now n p = (p', r)"
  shows "pw_ok p' \<and> pw_total p' = pw_total p \<and> pw_written p' = pw_written p + int n \<and>
    (case r of
       None \<Rightarrow> pw_lastPct p' = pw_lastPct p \<and> pw_lastReport p' = pw_lastReport p
     | Some pct \<Rightarrow> pct = pw_lastPct p' \<and> pw_lastPct p < pct \<and> pct \<le> 100 \<and>
         pw_lastReport p' = now \<and> second \<le> now - pw_lastReport p)"
proof -
  let ?w = "pw_written p + int n"
  let ?q = "?w * 100 div pw_total p"
  have tot: "0 < pw_total p" using assms(1) by (simp add: pw_ok_def)
  have "?q \<le> pw_total p * 100 div pw_total p" using assms(2) tot by (intro zdiv_mono1) auto
  then have q: "0 \<le> ?q" "?q \<le> 100"
    using assms(1) by (auto simp: pw_ok_def pos_imp_zdiv_nonneg_iff)
  have mono: "pw_written p * 100 div pw_total p \<le> ?q" using tot by (intro zdiv_mono1) auto
  have un: "int (unat (word_of_int ?q :: u32)) = ?q"
    using q by (simp add: unat_eq_nat_uint uint_word_of_int)
  then have "uint (word_of_int ?q :: u32) \<le> 100" using q(2) by simp
  then have le: "(word_of_int ?q :: u32) \<le> 100" by (simp add: word_le_def)
  have "pw_lastPct p \<le> word_of_int ?q"
    using assms(1) mono un by (simp add: pw_ok_def word_le_def)
  then have lt: "pw_lastPct p < word_of_int ?q" if "word_of_int ?q \<noteq> pw_lastPct p"
    using that by simp
  have sub: "second \<le> time_Sub now t \<longleftrightarrow> second \<le> now - t" for t
    by (auto simp: time_Sub_def maxDuration_def minDuration_def)
  show ?thesis
    using assms tot le lt un mono
    by (auto simp: pw_Write_def pw_ok_def not_less sub split: if_splits)
qed

lemma pw_run_reports:
  assumes "pw_ok p" and "pw_written p + (\<Sum>(now, n)\<leftarrow>ws. int n) \<le> pw_total p"
  shows "sorted_wrt (\<lambda>(t, a) (t', b). a < b \<and> second \<le> t' - t) (pw_run ws p) \<and>
    (\<forall>(t, a) \<in> set (pw_run ws p). pw_lastPct p < a \<and> a \<le> 100 \<and> second \<le> t - pw_lastReport p)"
  using assms
proof (induction ws arbitrary: p)
  case (Cons w ws)
  obtain now n where w: "w = (now, n)" by (cases w)
  obtain p' r where wr: "pw_Write now n p = (p', r)" by fastforce
  have "0 \<le> (\<Sum>(now, n)\<leftarrow>ws. int n)" by (induction ws) auto
  then have fit: "pw_written p + int n \<le> pw_total p" using Cons.prems(2) w by simp
  note step = pw_Write_ok [OF Cons.prems(1) fit wr]
  have ih: "sorted_wrt (\<lambda>(t, a) (t', b). a < b \<and> second \<le> t' - t) (pw_run ws p')"
    "\<forall>(t, a) \<in> set (pw_run ws p'). pw_lastPct p' < a \<and> a \<le> 100 \<and> second \<le> t - pw_lastReport p'"
    using Cons.IH [of p'] Cons.prems(2) step w by auto
  show ?case
  proof (cases r)
    case None
    with ih step show ?thesis by (simp add: w wr)
  next
    case (Some pct)
    with ih step show ?thesis by (fastforce simp: w wr)
  qed
qed simp

text \<open>Download progress is well behaved. For a body no longer than announced, written in chunks of any
  size at any times, the reported percentages rise strictly, lie between 1 and 100, and any two reports
  are at least a second apart.\<close>

theorem progress_reports_rise:
  assumes "0 < len" and "(\<Sum>(now, n)\<leftarrow>ws. int n) \<le> len"
    and "reports = pw_run ws \<lparr>pw_total = len, pw_written = 0, pw_lastPct = 0, pw_lastReport = zero_time\<rparr>"
  shows "sorted_wrt (\<lambda>(t, a) (t', b). a < b \<and> second \<le> t' - t) reports \<and>
    (\<forall>(t, a) \<in> set reports. 0 < a \<and> a \<le> 100)"
  using pw_run_reports [of "\<lparr>pw_total = len, pw_written = 0, pw_lastPct = 0, pw_lastReport = zero_time\<rparr>" ws]
    assms by (fastforce simp: pw_ok_def)

theorem progress_reports_rise_witness:
  "pw_run [(0, 10), (1, 20), (2 * second, 70)] \<lparr>pw_total = 100, pw_written = 0, pw_lastPct = 0,
     pw_lastReport = zero_time\<rparr> = [(0, 10), (2 * second, 100)] \<and> (10 :: u32) < 100"
proof -
  let ?r = "pw_run [(0, 10), (1, 20), (2 * second, 70)] \<lparr>pw_total = 100, pw_written = 0, pw_lastPct = 0,
     pw_lastReport = zero_time\<rparr>"
  have r: "?r = [(0, 10), (2 * second, 100)]"
    by (simp add: pw_Write_def time_Sub_def maxDuration_def minDuration_def zero_time_def)
  have "sorted_wrt (\<lambda>(t, a) (t', b). a < b \<and> second \<le> t' - t) ?r"
    by (rule conjunct1 [OF progress_reports_rise [OF _ _ refl]]) simp_all
  with r show ?thesis by simp
qed

end
