(* ===== verification/AgentNative.thy ===== *)
theory AgentNative
  imports AgentDownload
begin

text \<open>
  Long-lived deployments on the agent (\<^verbatim>\<open>agent/internal/deploy\<close>): one native deployment from download to
  its terminal update, the lines it reads from the engine process, and the command it runs. What the
  operating system and the engine do is an argument. Error texts are reduced to their fixed part.
\<close>

subsection \<open>Lines from the engine\<close>

definition enginePortPrefix :: string where
  "enginePortPrefix = ''GRIDLINK_ENGINE_LISTENING ''"

fun find_listening :: "string list \<Rightarrow> string option" where
  "find_listening [] = None"
| "find_listening (line # lines) =
     (if HasPrefix line enginePortPrefix then Some (TrimSpace (TrimPrefix line enginePortPrefix))
      else find_listening lines)"

text \<open>
  Which of the three things \<^verbatim>\<open>readEngineAddr\<close> waits for comes first: the reader's verdict on the engine's
  standard output, the timeout, or the end of the context. A default \<^verbatim>\<open>bufio.Scanner\<close> takes lines below
  64 KiB.
\<close>

datatype addr_wait = StdoutRead string | StartTimeout | CtxDone

definition readEngineAddr :: "addr_wait \<Rightarrow> string option" where
  "readEngineAddr w =
     (case w of
        StdoutRead stdout \<Rightarrow>
          (case find_listening (scan_lines (64 * 1024) stdout) of
             None \<Rightarrow> None
           | Some addr \<Rightarrow> if addr = [] then None else Some addr)
      | _ \<Rightarrow> None)"

text \<open>The polls of \<^verbatim>\<open>waitReady\<close> before its context ends: no answer, or a status and a body.\<close>

type_synonym poll = "(nat \<times> string) option"

fun waitReady :: "string \<Rightarrow> poll list \<Rightarrow> bool" where
  "waitReady modelName [] = False"
| "waitReady modelName (None # polls) = waitReady modelName polls"
| "waitReady modelName (Some (status, body) # polls) =
     (if status = 200 \<and> Contains (take 4096 body) modelName then True else waitReady modelName polls)"

definition portOf :: "string \<Rightarrow> u32" where
  "portOf addr =
     (case after_last (CHR '':'') addr of
        None \<Rightarrow> 0
      | Some rest \<Rightarrow> (case sscanf_uint32 rest of None \<Rightarrow> 0 | Some p \<Rightarrow> p))"

text \<open>The last lines of the engine's error output.\<close>

definition tail_consume :: "nat \<Rightarrow> string list \<Rightarrow> string \<Rightarrow> string list" where
  "tail_consume n lines stderr =
     foldl (\<lambda>ls l. let ls' = ls @ [l] in if n < length ls' then drop (length ls' - n) ls' else ls')
       lines (scan_lines (1024 * 1024) stderr)"

fun tail_String :: "string list \<Rightarrow> string" where
  "tail_String [] = []"
| "tail_String [l] = l"
| "tail_String (l # m # ls) = l @ '' | '' @ tail_String (m # ls)"

subsection \<open>The command\<close>

definition engine_args :: "string \<Rightarrow> string \<Rightarrow> string \<Rightarrow> string \<Rightarrow> u32 \<Rightarrow> string list" where
  "engine_args agentBin modelPath servedModelName bindHost contextLength =
     (let bind = (if bindHost = [] then ''127.0.0.1'' else bindHost);
          args = [agentBin, ''engine'', ''-model'', modelPath, ''-served-model-name'', servedModelName,
                  ''-addr'', JoinHostPort bind ''0'']
      in if 0 < contextLength then args @ [''-context-length'', itoa (unat contextLength)] else args)"

text \<open>On macOS the command is wrapped unless the profile cannot be written; elsewhere it is left alone.\<close>

definition sandboxCommand :: "string option \<Rightarrow> string list \<Rightarrow> string list" where
  "sandboxCommand profile cmd =
     (case profile of None \<Rightarrow> cmd | Some path \<Rightarrow> [''/usr/bin/sandbox-exec'', ''-f'', path] @ cmd)"

subsection \<open>A whole deployment\<close>

record DeployUpdate =
  up_State :: DeploymentState
  up_HostPort :: u32
  up_Err :: string
  up_Progress :: u32

definition state_update :: "DeploymentState \<Rightarrow> DeployUpdate" where
  "state_update st = \<lparr>up_State = st, up_HostPort = 0, up_Err = [], up_Progress = 0\<rparr>"

definition failed :: "string \<Rightarrow> DeployUpdate" where
  "failed err = (state_update DEPLOYMENT_STATE_FAILED)\<lparr>up_Err := err\<rparr>"

text \<open>
  What one deployment meets: the result of the download with the progress it reported, the pipes and the
  start of the process, the wait for its address, the readiness polls, and whether the context has been
  cancelled when the download fails, when the polls end and when the process ends. The updates are those
  given to \<^verbatim>\<open>send\<close>, which lets go of one only after the client's forwarding goroutine has left the
  channel of eight full for a second.
\<close>

record native_env =
  nv_progress :: "u32 list"
  nv_download :: "download_error + string list"
  nv_stopped_download :: bool
  nv_stdout :: bool
  nv_stderr :: bool
  nv_start :: bool
  nv_addr :: addr_wait
  nv_polls :: "poll list"
  nv_stopped_ready :: bool
  nv_stopped_exit :: bool

text \<open>From the start of the engine on.\<close>

definition native_serve :: "DeploymentSpec \<Rightarrow> native_env \<Rightarrow> DeployUpdate list" where
  "native_serve spec e =
     (let stopped = state_update DEPLOYMENT_STATE_STOPPED
      in if \<not> nv_stdout e then [failed ''engine stdout'']
         else if \<not> nv_stderr e then [failed ''engine stderr'']
         else if \<not> nv_start e then [failed ''start engine'']
         else
           (case readEngineAddr (nv_addr e) of
              None \<Rightarrow> [failed ''engine never reported a port'']
            | Some addr \<Rightarrow>
                if \<not> waitReady (spec_served_model_name spec) (nv_polls e)
                then [if nv_stopped_ready e then stopped else failed ''engine never became ready'']
                else [(state_update DEPLOYMENT_STATE_READY)\<lparr>up_HostPort := portOf addr\<rparr>,
                      if nv_stopped_exit e then stopped else failed ''engine exited unexpectedly'']))"

definition native_run :: "DeploymentSpec \<Rightarrow> native_env \<Rightarrow> DeployUpdate list" where
  "native_run spec e =
     (let pulling = state_update DEPLOYMENT_STATE_PULLING
      in pulling # map (\<lambda>pct. pulling\<lparr>up_Progress := pct\<rparr>) (nv_progress e) @
         (case nv_download e of
            Inl err \<Rightarrow> [if nv_stopped_download e then state_update DEPLOYMENT_STATE_STOPPED
                        else failed ''fetch weights'']
          | Inr modelPath \<Rightarrow> state_update DEPLOYMENT_STATE_LOADING # native_serve spec e))"

definition Start :: "DeploymentSpec \<Rightarrow> native_env \<Rightarrow> DeployUpdate list option" where
  "Start spec e =
     (case GetNative (Some spec) of
        None \<Rightarrow> None
      | Some native \<Rightarrow> if ne_model_file native = [] then None else Some (native_run spec e))"

subsection \<open>The contract of the update stream\<close>

abbreviation deploy_terminal :: "DeployUpdate \<Rightarrow> bool" where
  "deploy_terminal u \<equiv> up_State u = DEPLOYMENT_STATE_FAILED \<or> up_State u = DEPLOYMENT_STATE_STOPPED"

lemma failed_State [simp]: "up_State (failed err) = DEPLOYMENT_STATE_FAILED"
  by (simp add: failed_def state_update_def)

lemma state_update_State [simp]: "up_State (state_update st) = st"
  by (simp add: state_update_def)

lemma native_serve_shape:
  obtains u where "native_serve spec e = [u]" and "deploy_terminal u"
  | addr u where "native_serve spec e = [(state_update DEPLOYMENT_STATE_READY)\<lparr>up_HostPort := portOf addr\<rparr>, u]"
      and "deploy_terminal u" and "readEngineAddr (nv_addr e) = Some addr"
      and "waitReady (spec_served_model_name spec) (nv_polls e)"
proof -
  have "(\<exists>u. native_serve spec e = [u] \<and> deploy_terminal u) \<or>
    (\<exists>addr u. native_serve spec e = [(state_update DEPLOYMENT_STATE_READY)\<lparr>up_HostPort := portOf addr\<rparr>, u] \<and>
       deploy_terminal u \<and> readEngineAddr (nv_addr e) = Some addr \<and>
       waitReady (spec_served_model_name spec) (nv_polls e))"
    by (auto simp: native_serve_def split: option.split)
  then show thesis using that by blast
qed

lemma native_run_shape:
  obtains ps u where "native_run spec e = ps @ [u]" and "deploy_terminal u" and "ps \<noteq> []"
      and "\<forall>p \<in> set ps. up_State p = DEPLOYMENT_STATE_PULLING"
  | ps where "native_run spec e = ps @ state_update DEPLOYMENT_STATE_LOADING # native_serve spec e"
      and "ps \<noteq> []" and "\<forall>p \<in> set ps. up_State p = DEPLOYMENT_STATE_PULLING"
      and "\<exists>path. nv_download e = Inr path"
proof (cases "nv_download e")
  case (Inl err)
  then show ?thesis by (intro that(1)) (auto simp: native_run_def)
next
  case (Inr p)
  then show ?thesis by (intro that(2)) (auto simp: native_run_def)
qed

interpretation native: update_stream "native_run spec" deploy_terminal for spec
proof unfold_locales
  fix e
  show "\<exists>us u. native_run spec e = us @ [u] \<and> deploy_terminal u \<and> (\<forall>x \<in> set us. \<not> deploy_terminal x)"
  proof (cases rule: native_run_shape [of spec e])
    case (1 ps u)
    then show ?thesis by (intro exI [of _ ps] exI [of _ u]) auto
  next
    case (2 ps)
    let ?l = "state_update DEPLOYMENT_STATE_LOADING"
    show ?thesis
    proof (cases rule: native_serve_shape [of spec e])
      case (1 u)
      with 2 show ?thesis by (intro exI [of _ "ps @ [?l]"] exI [of _ u]) auto
    next
      case (2 addr u)
      with \<open>native_run spec e = _\<close> \<open>\<forall>p \<in> set ps. _\<close> show ?thesis
        by (intro exI [of _ "ps @ [?l, (state_update DEPLOYMENT_STATE_READY)\<lparr>up_HostPort := portOf addr\<rparr>]"]
            exI [of _ u]) auto
    qed
  qed
qed

subsection \<open>The life of a deployment\<close>

lemma sorted_pulling: "\<forall>p \<in> set ps. up_State p = DEPLOYMENT_STATE_PULLING \<Longrightarrow> sorted (map up_State ps)"
  by (induction ps) auto

lemma native_body:
  "sorted (map up_State (butlast (native_run spec e))) \<and>
   (\<forall>u \<in> set (native_run spec e). up_State u = DEPLOYMENT_STATE_READY \<longrightarrow>
      (\<exists>addr path. u = (state_update DEPLOYMENT_STATE_READY)\<lparr>up_HostPort := portOf addr\<rparr> \<and>
         readEngineAddr (nv_addr e) = Some addr \<and> nv_download e = Inr path \<and>
         waitReady (spec_served_model_name spec) (nv_polls e)))"
proof (cases rule: native_run_shape [of spec e])
  case (1 ps u)
  then show ?thesis by (auto simp: sorted_pulling)
next
  case (2 ps)
  have "sorted (map up_State ps)" by (rule sorted_pulling [OF 2(3)])
  with 2 show ?thesis
    by (cases rule: native_serve_shape [of spec e])
      (auto simp: butlast_append sorted_append DeploymentState_order)
qed


definition demo_native :: native_env where
  "demo_native = \<lparr>nv_progress = [50, 100], nv_download = Inr [''m''], nv_stopped_download = False, nv_stdout = True,
     nv_stderr = True, nv_start = True, nv_addr = StdoutRead ''GRIDLINK_ENGINE_LISTENING 10.0.0.5:8080'',
     nv_polls = [None, Some (200, ''qwen'')], nv_stopped_ready = False, nv_stopped_exit = True\<rparr>"

definition demo_native_spec :: DeploymentSpec where
  "demo_native_spec = \<lparr>spec_deployment_id = ''d1'', spec_served_model_name = ''qwen'', spec_min_vram_mb = 0,
     spec_engine = None\<rparr>"

lemma demo_native_addr: "readEngineAddr (nv_addr demo_native) = Some ''10.0.0.5:8080''"
  by (simp add: readEngineAddr_def demo_native_def scan_lines_def raw_lines_def enginePortPrefix_def
      HasPrefix_def TrimPrefix_def TrimSpace_def is_space_def dropCR_def)

lemma demo_native_ready: "waitReady ''qwen'' (nv_polls demo_native)"
  by (simp add: demo_native_def HasPrefix_def)


text \<open>A deployment that is stopped while its engine is starting up is reported \<^verbatim>\<open>FAILED\<close>, not
  \<^verbatim>\<open>STOPPED\<close>: once the process is running and until it has announced its address, the end of the context
  is handled like an engine that never came up.\<close>

theorem stop_during_start_reports_failure:
  assumes "nv_download e = Inr path" and "nv_addr e = CtxDone"
  shows "up_State (last (native_run spec e)) = DEPLOYMENT_STATE_FAILED"
  using assms by (simp add: native_run_def native_serve_def readEngineAddr_def)

theorem stop_during_start_reports_failure_witness:
  "up_State (last (native_run demo_native_spec (demo_native\<lparr>nv_addr := CtxDone\<rparr>))) = DEPLOYMENT_STATE_FAILED"
  by (rule stop_during_start_reports_failure) (simp_all add: demo_native_def)

subsection \<open>Ports and tails\<close>

lemma no_colon_itoa: "CHR '':'' \<notin> set (itoa n)"
  using itoa_digits [of "CHR '':''" n] by (auto simp: is_digit_def)

lemma after_last_JoinHostPort: "CHR '':'' \<notin> set port \<Longrightarrow> after_last (CHR '':'') (JoinHostPort host port) = Some port"
  using after_last_append [of "CHR '':''" port "''['' @ host @ '']''"] after_last_append [of "CHR '':''" port host]
  by (simp add: JoinHostPort_def)

lemma portOf_JoinHostPort: "n < 2 ^ 32 \<Longrightarrow> portOf (JoinHostPort host (itoa n)) = of_nat n"
  by (simp add: portOf_def after_last_JoinHostPort no_colon_itoa sscanf_itoa)

lemma tail_consume_bound:
  "length lines \<le> n \<Longrightarrow> length (tail_consume n lines stderr) \<le> n"
proof -
  assume "length lines \<le> n"
  moreover have "length (foldl (\<lambda>ls l. let ls' = ls @ [l] in if n < length ls' then drop (length ls' - n) ls' else ls')
      lines xs) \<le> n" if "length lines \<le> n" for xs
    using that by (induction xs arbitrary: lines) auto
  ultimately show ?thesis by (simp add: tail_consume_def)
qed

end
