(* ===== verification/AgentClient.thy ===== *)
theory AgentClient
  imports AgentRunner AgentNative
begin

text \<open>
  The agent's side of the control stream (\<^verbatim>\<open>agent/internal/client/client.go\<close>): one session after another
  over a single stream, the tables of running jobs and deployments that outlive sessions, the bounded
  outbound queue with its single writer, the persisted node ID and the reconnect backoff.
\<close>

subsection \<open>State\<close>

definition outboundBufferSize :: nat where
  "outboundBufferSize = 32"

record ClientConfig =
  cfg_GPU :: "GpuInfo option"
  cfg_System :: "SystemInfo option"
  cfg_Runner :: bool
  cfg_Deployments :: bool
  cfg_DataPlaneAddr :: string
  cfg_hostname :: string

text \<open>
  The tables map an ID to whether its context has been cancelled. The running goroutines are listed by
  ID. A session has its outbound channel, which the rest of the client sees once it is published, and
  the frames its writer has sent.
\<close>

record Client =
  cl_jobs :: "string \<rightharpoonup> bool"
  cl_deployments :: "string \<rightharpoonup> bool"
  cl_running_jobs :: "string list"
  cl_running_deployments :: "string list"
  cl_chan :: "AgentMessage list"
  cl_published :: bool
  cl_frames :: "AgentMessage list"

definition New_Client :: Client where
  "New_Client = \<lparr>cl_jobs = Map.empty, cl_deployments = Map.empty, cl_running_jobs = [],
     cl_running_deployments = [], cl_chan = [], cl_published = False, cl_frames = []\<rparr>"

subsection \<open>Emitting\<close>

text \<open>A non-blocking send on the published channel.\<close>

definition emit_message :: "AgentMessage \<Rightarrow> Client \<Rightarrow> Client" where
  "emit_message msg c =
     (if \<not> cl_published c then c
      else if length (cl_chan c) < outboundBufferSize then c\<lparr>cl_chan := cl_chan c @ [msg]\<rparr>
      else c)"

definition emit :: "JobUpdate \<Rightarrow> Client \<Rightarrow> Client" where
  "emit u = emit_message (AM_JobUpdate u)"

definition emitDeployment :: "DeploymentUpdate \<Rightarrow> Client \<Rightarrow> Client" where
  "emitDeployment u = emit_message (AM_DeploymentUpdate u)"

subsection \<open>Jobs\<close>

definition startJob :: "ClientConfig \<Rightarrow> JobSpec option \<Rightarrow> Client \<Rightarrow> Client" where
  "startJob cfg spec c =
     (case spec of
        None \<Rightarrow> c
      | Some s \<Rightarrow>
          (let jid = js_job_id s
           in if \<not> cfg_Runner cfg
              then emit \<lparr>ju_job_id = jid, ju_state = JOB_STATE_FAILED, ju_log_chunk = [], ju_exit_code = 0,
                         ju_error = ''node has no container runtime''\<rparr> c
              else if jid \<in> dom (cl_jobs c) then c
              else c\<lparr>cl_jobs := (cl_jobs c)(jid \<mapsto> False), cl_running_jobs := jid # cl_running_jobs c\<rparr>))"

definition job_message :: "string \<Rightarrow> RunnerUpdate \<Rightarrow> JobUpdate" where
  "job_message jid u = \<lparr>ju_job_id = jid, ju_state = ru_State u, ju_log_chunk = ru_LogChunk u,
     ju_exit_code = ru_ExitCode u, ju_error = ru_Err u\<rparr>"

definition cancelJob :: "string \<Rightarrow> Client \<Rightarrow> Client" where
  "cancelJob jid c =
     (if jid \<in> dom (cl_jobs c) then c\<lparr>cl_jobs := (cl_jobs c)(jid \<mapsto> True)\<rparr> else c)"

text \<open>The end of \<^verbatim>\<open>runJob\<close>: the goroutine is gone and its table entry with it.\<close>

definition removeJob :: "string \<Rightarrow> Client \<Rightarrow> Client" where
  "removeJob jid c = c\<lparr>cl_jobs := (cl_jobs c)(jid := None), cl_running_jobs := remove1 jid (cl_running_jobs c)\<rparr>"

text \<open>The messages \<^verbatim>\<open>runJob\<close> emits: the runner's refusal, or its updates.\<close>

definition runJob :: "JobSpec \<Rightarrow> docker_env \<Rightarrow> JobUpdate list" where
  "runJob spec e =
     (case DockerRunner_Run spec e of
        None \<Rightarrow> [\<lparr>ju_job_id = js_job_id spec, ju_state = JOB_STATE_FAILED, ju_log_chunk = [], ju_exit_code = 0,
                  ju_error = ''job spec has no image''\<rparr>]
      | Some (us, calls) \<Rightarrow> map (job_message (js_job_id spec)) us)"

subsection \<open>Deployments\<close>

definition startDeployment :: "ClientConfig \<Rightarrow> DeploymentSpec option \<Rightarrow> Client \<Rightarrow> Client" where
  "startDeployment cfg spec c =
     (case spec of
        None \<Rightarrow> c
      | Some s \<Rightarrow>
          (let dID = spec_deployment_id s
           in if \<not> cfg_Deployments cfg
              then emitDeployment \<lparr>du_deployment_id = dID, du_state = DEPLOYMENT_STATE_FAILED, du_host_port = 0,
                     du_error = ''node has no deployment engine'', du_progress_percent = 0\<rparr> c
              else if dID \<in> dom (cl_deployments c) then c
              else c\<lparr>cl_deployments := (cl_deployments c)(dID \<mapsto> False),
                     cl_running_deployments := dID # cl_running_deployments c\<rparr>))"

definition deployment_message :: "string \<Rightarrow> DeployUpdate \<Rightarrow> DeploymentUpdate" where
  "deployment_message dID u = \<lparr>du_deployment_id = dID, du_state = up_State u, du_host_port = up_HostPort u,
     du_error = up_Err u, du_progress_percent = up_Progress u\<rparr>"

definition runDeployment :: "DeploymentSpec \<Rightarrow> native_env \<Rightarrow> DeploymentUpdate list" where
  "runDeployment spec e =
     (case Start spec e of
        None \<Rightarrow> [\<lparr>du_deployment_id = spec_deployment_id spec, du_state = DEPLOYMENT_STATE_FAILED, du_host_port = 0,
                  du_error = ''engine failed to start deployment'', du_progress_percent = 0\<rparr>]
      | Some us \<Rightarrow> map (deployment_message (spec_deployment_id spec)) us)"

definition stopDeployment :: "string \<Rightarrow> Client \<Rightarrow> Client" where
  "stopDeployment dID c =
     (if dID \<in> dom (cl_deployments c) then c\<lparr>cl_deployments := (cl_deployments c)(dID \<mapsto> True)\<rparr> else c)"

definition removeDeployment :: "string \<Rightarrow> Client \<Rightarrow> Client" where
  "removeDeployment dID c = c\<lparr>cl_deployments := (cl_deployments c)(dID := None),
     cl_running_deployments := remove1 dID (cl_running_deployments c)\<rparr>"

subsection \<open>Heartbeats and the receive loop\<close>

definition activeJobIDs :: "string list \<Rightarrow> Client \<Rightarrow> string list" where
  "activeJobIDs ord c = filter (\<lambda>k. k \<in> dom (cl_jobs c)) ord"

definition activeDeploymentIDs :: "string list \<Rightarrow> Client \<Rightarrow> string list" where
  "activeDeploymentIDs ord c = filter (\<lambda>k. k \<in> dom (cl_deployments c)) ord"

text \<open>The heartbeat of one tick; the goroutine waits for room in the channel before it puts it there.\<close>

definition heartbeat :: "ClientConfig \<Rightarrow> GpuUtilization option \<Rightarrow> string list \<Rightarrow> string list \<Rightarrow> Client \<Rightarrow> Heartbeat" where
  "heartbeat cfg util jord dord c =
     \<lparr>hb_gpu_utilization = util, hb_active_job_ids = activeJobIDs jord c,
      hb_active_deployment_ids = activeDeploymentIDs dord c, hb_data_plane_addr = cfg_DataPlaneAddr cfg\<rparr>"

definition dispatch :: "ClientConfig \<Rightarrow> CoordinatorMessage \<Rightarrow> Client \<Rightarrow> Client" where
  "dispatch cfg msg c =
     (case msg of
        CM_RunJob spec \<Rightarrow> startJob cfg spec c
      | CM_CancelJob jid \<Rightarrow> cancelJob jid c
      | CM_StartDeployment spec \<Rightarrow> startDeployment cfg spec c
      | CM_StopDeployment dID \<Rightarrow> stopDeployment dID c
      | _ \<Rightarrow> c)"

subsection \<open>Sessions\<close>

definition register_message :: "ClientConfig \<Rightarrow> string \<Rightarrow> Register" where
  "register_message cfg nodeID = \<lparr>rg_node_id = nodeID, rg_hostname = cfg_hostname cfg, rg_agent_version = ''phase1'',
     rg_gpu = cfg_GPU cfg, rg_system = cfg_System cfg\<rparr>"

text \<open>A new stream: its channel holds the Register frame and is not published yet.\<close>

definition session_start :: "ClientConfig \<Rightarrow> string \<Rightarrow> Client \<Rightarrow> Client" where
  "session_start cfg nodeID c =
     c\<lparr>cl_chan := [AM_Register (register_message cfg nodeID)], cl_published := False, cl_frames := []\<rparr>"

definition session_publish :: "Client \<Rightarrow> Client" where
  "session_publish c = c\<lparr>cl_published := True\<rparr>"

definition session_end :: "Client \<Rightarrow> Client" where
  "session_end c = c\<lparr>cl_published := False, cl_chan := []\<rparr>"

definition writer_send :: "Client \<Rightarrow> Client" where
  "writer_send c =
     (case cl_chan c of [] \<Rightarrow> c | msg # rest \<Rightarrow> c\<lparr>cl_chan := rest, cl_frames := cl_frames c @ [msg]\<rparr>)"

subsection \<open>The node ID file\<close>

definition readNodeID :: "string option \<Rightarrow> string" where
  "readNodeID file = (case file of None \<Rightarrow> [] | Some b \<Rightarrow> TrimSpace b)"

definition writeNodeID :: "string \<Rightarrow> string" where
  "writeNodeID nodeID = nodeID @ [CHR 0x0A]"

text \<open>What is done with the ID in the acknowledgement; \<open>ok\<close> says that the file could be written.\<close>

definition keep_node_id :: "bool \<Rightarrow> string \<Rightarrow> string \<Rightarrow> string option \<Rightarrow> string option \<times> string" where
  "keep_node_id ok ackID nodeID file =
     (if ackID \<noteq> [] \<and> ackID \<noteq> nodeID then (if ok then Some (writeNodeID ackID) else file, ackID)
      else (file, nodeID))"

subsection \<open>Backoff\<close>

definition backoffBase :: duration where
  "backoffBase = second"

definition backoffCap :: duration where
  "backoffCap = 60 * second"

text \<open>\<open>rnd\<close> is what \<^verbatim>\<open>rand.Int63n\<close> returned: at most half the current step.\<close>

definition backoff_next :: "int \<Rightarrow> duration \<Rightarrow> duration \<times> duration" where
  "backoff_next rnd cur0 =
     (let cur = (if cur0 < backoffBase then backoffBase else cur0);
          half = cur div 2;
          wait = half + rnd;
          cur' = (if cur < backoffCap then (if backoffCap < cur * 2 then backoffCap else cur * 2) else cur)
      in (wait, cur'))"

end
