(* ===== verification/AgentProps.thy ===== *)
theory AgentProps
  imports AgentClient
begin

text \<open>
  The properties of the agent's client: what a session sends and in which order, one instance per ID,
  the reconnect schedule, and the persisted identity.
\<close>

subsection \<open>The client as a transition system\<close>

text \<open>
  The session goroutines (writer, heartbeats, receive loop), the sessions following each other and the
  goroutines of the running work take turns. Commands arrive and heartbeats start only after the
  acknowledgement, when the channel has been published.
\<close>

inductive client_step :: "ClientConfig \<Rightarrow> Client \<Rightarrow> Client \<Rightarrow> bool" for cfg where
  connect: "\<not> cl_published c \<Longrightarrow> client_step cfg c (session_start cfg nodeID c)"
| acked: "cl_frames c \<noteq> [] \<Longrightarrow> client_step cfg c (session_publish c)"
| ended: "client_step cfg c (session_end c)"
| writes: "client_step cfg c (writer_send c)"
| tick: "cl_published c \<Longrightarrow> length (cl_chan c) < outboundBufferSize \<Longrightarrow>
    client_step cfg c (c\<lparr>cl_chan := cl_chan c @ [AM_Heartbeat (heartbeat cfg util jord dord c)]\<rparr>)"
| command: "cl_published c \<Longrightarrow> client_step cfg c (dispatch cfg msg c)"
| job_update: "jid \<in> set (cl_running_jobs c) \<Longrightarrow> client_step cfg c (emit (job_message jid u) c)"
| job_done: "jid \<in> set (cl_running_jobs c) \<Longrightarrow> client_step cfg c (removeJob jid c)"
| deployment_update: "dID \<in> set (cl_running_deployments c) \<Longrightarrow>
    client_step cfg c (emitDeployment (deployment_message dID u) c)"
| deployment_done: "dID \<in> set (cl_running_deployments c) \<Longrightarrow> client_step cfg c (removeDeployment dID c)"

inductive_cases client_stepE: "client_step cfg c c'"

fun is_register :: "AgentMessage \<Rightarrow> bool" where
  "is_register (AM_Register _) = True"
| "is_register _ = False"

definition register_first :: "AgentMessage list \<Rightarrow> bool" where
  "register_first ms \<longleftrightarrow> (\<exists>m rest. ms = m # rest \<and> is_register m \<and> (\<forall>x \<in> set rest. \<not> is_register x))"

definition session_ok :: "Client \<Rightarrow> bool" where
  "session_ok c \<longleftrightarrow> length (cl_chan c) \<le> outboundBufferSize \<and>
     (register_first (cl_frames c @ cl_chan c) \<or> cl_frames c @ cl_chan c = [] \<and> \<not> cl_published c)"

definition tables_ok :: "Client \<Rightarrow> bool" where
  "tables_ok c \<longleftrightarrow> distinct (cl_running_jobs c) \<and> set (cl_running_jobs c) = dom (cl_jobs c) \<and>
     distinct (cl_running_deployments c) \<and> set (cl_running_deployments c) = dom (cl_deployments c)"

definition client_inv :: "Client \<Rightarrow> bool" where
  "client_inv c \<longleftrightarrow> session_ok c \<and> tables_ok c"

lemma register_first_append [simp]:
  "register_first ms \<Longrightarrow> \<not> is_register m \<Longrightarrow> register_first (ms @ [m])"
  by (auto simp: register_first_def)

lemma session_ok_append:
  "session_ok c \<Longrightarrow> cl_published c \<Longrightarrow> length (cl_chan c) < outboundBufferSize \<Longrightarrow> \<not> is_register m \<Longrightarrow>
     session_ok (c\<lparr>cl_chan := cl_chan c @ [m]\<rparr>)"
  using register_first_append [of "cl_frames c @ cl_chan c" m] by (auto simp: session_ok_def)

lemma emit_message_inv:
  "client_inv c \<Longrightarrow> \<not> is_register m \<Longrightarrow> client_inv (emit_message m c)"
  using session_ok_append [of c m] by (auto simp: client_inv_def emit_message_def tables_ok_def)

lemma emit_inv [inv_intros]:
  "client_inv c \<Longrightarrow> client_inv (emit u c)" "client_inv c \<Longrightarrow> client_inv (emitDeployment d c)"
  by (simp_all add: emit_def emitDeployment_def emit_message_inv)

lemma start_inv [inv_intros]:
  assumes "client_inv c"
  shows "client_inv (startJob cfg js c)" "client_inv (startDeployment cfg ds c)"
  using assms emit_inv [OF assms]
  by (auto simp: startJob_def startDeployment_def client_inv_def tables_ok_def session_ok_def Let_def
      split: option.split)

lemma cancel_inv [inv_intros]:
  assumes "client_inv c"
  shows "client_inv (cancelJob jid c)" "client_inv (stopDeployment dID c)"
    "client_inv (removeJob jid c)" "client_inv (removeDeployment dID c)"
  using assms
  by (auto simp: cancelJob_def stopDeployment_def removeJob_def removeDeployment_def client_inv_def
      tables_ok_def session_ok_def dest: domI)

lemma dispatch_inv [inv_intros]: "client_inv c \<Longrightarrow> client_inv (dispatch cfg msg c)"
  by (auto simp: dispatch_def intro: inv_intros split: CoordinatorMessage.split)

lemma session_inv:
  "client_inv c \<Longrightarrow> client_inv (session_start cfg nodeID c)"
  "client_inv c \<Longrightarrow> cl_frames c \<noteq> [] \<Longrightarrow> client_inv (session_publish c)"
  "client_inv c \<Longrightarrow> client_inv (writer_send c)"
  by (auto simp: client_inv_def session_ok_def tables_ok_def session_start_def session_publish_def
      writer_send_def register_first_def outboundBufferSize_def split: list.split)

lemma register_first_prefix: "register_first (ms @ ns) \<Longrightarrow> register_first ms \<or> ms = []"
  by (cases ms) (auto simp: register_first_def)

lemma session_end_inv: "client_inv c \<Longrightarrow> client_inv (session_end c)"
  using register_first_prefix [of "cl_frames c" "cl_chan c"]
  by (auto simp: client_inv_def session_ok_def tables_ok_def session_end_def)

lemma tick_inv:
  "client_inv c \<Longrightarrow> cl_published c \<Longrightarrow> length (cl_chan c) < outboundBufferSize \<Longrightarrow>
     client_inv (c\<lparr>cl_chan := cl_chan c @ [AM_Heartbeat hb]\<rparr>)"
  using session_ok_append [of c "AM_Heartbeat hb"] by (simp add: client_inv_def tables_ok_def)

lemma client_inv_step: "client_inv c \<Longrightarrow> client_step cfg c c' \<Longrightarrow> client_inv c'"
  by (erule client_stepE) (auto intro: inv_intros session_inv session_end_inv tick_inv)

interpretation client: inductive_invariant "\<lambda>c. c = New_Client" "client_step cfg" client_inv for cfg
proof unfold_locales
  show "client_inv c" if "c = New_Client" for c
    using that by (simp add: client_inv_def session_ok_def tables_ok_def New_Client_def)
qed (rule client_inv_step)

subsection \<open>What a session sends\<close>

lemma set_active:
  "set (cl_running_jobs c) \<subseteq> set ord \<Longrightarrow> tables_ok c \<Longrightarrow> set (activeJobIDs ord c) = set (cl_running_jobs c)"
  "set (cl_running_deployments c) \<subseteq> set ord \<Longrightarrow> tables_ok c \<Longrightarrow>
     set (activeDeploymentIDs ord c) = set (cl_running_deployments c)"
  by (auto simp: activeJobIDs_def activeDeploymentIDs_def tables_ok_def)

definition demo_cfg :: ClientConfig where
  "demo_cfg = \<lparr>cfg_GPU = None, cfg_System = None, cfg_Runner = True, cfg_Deployments = True,
     cfg_DataPlaneAddr = ''100.64.0.1'', cfg_hostname = ''rig''\<rparr>"

definition demo_session :: Client where
  "demo_session = session_publish (writer_send (session_start demo_cfg ''n1'' New_Client))"

lemma demo_session_reachable: "reachable (\<lambda>c. c = New_Client) (client_step demo_cfg) demo_session"
proof -
  let ?c1 = "session_start demo_cfg ''n1'' New_Client" and ?R = "reachable (\<lambda>c. c = New_Client) (client_step demo_cfg)"
  have "?R ?c1"
    by (rule reach_step, rule reach_init, rule refl, rule client_step.connect) (simp add: New_Client_def)
  then have "?R (writer_send ?c1)"
    by (rule reach_step) (rule client_step.writes)
  then show ?thesis
    unfolding demo_session_def
    by (rule reach_step) (rule client_step.acked, simp add: writer_send_def session_start_def)
qed

definition demo_job :: JobSpec where
  "demo_job = \<lparr>js_job_id = ''j1'', js_image = ''busybox'', js_command = [], js_env = Map.empty, js_gpu = False, js_memory_limit_mb = 0, js_timeout_s = 0\<rparr>"

definition demo_busy :: Client where
  "demo_busy = dispatch demo_cfg (CM_RunJob (Some demo_job)) demo_session"

text \<open>C18. In every reachable state of the agent's client, whatever the interleaving of its goroutines,
  reconnects and coordinator commands: the frames a session has sent, followed by those waiting in its
  channel, start with a Register and contain no second one (or nothing has been sent and nothing is
  published), the channel holds at most 32 messages, and at most one instance per job and per deployment
  ID is running. The next heartbeat names exactly the running jobs and deployments.\<close>

theorem client_sessions_well_formed:
  assumes "reachable (\<lambda>c. c = New_Client) (client_step cfg) c"
    and "set (cl_running_jobs c) \<subseteq> set jord" "set (cl_running_deployments c) \<subseteq> set dord"
  shows "(register_first (cl_frames c @ cl_chan c) \<or> cl_frames c @ cl_chan c = [] \<and> \<not> cl_published c) \<and>
         length (cl_chan c) \<le> 32 \<and>
         distinct (cl_running_jobs c) \<and> distinct (cl_running_deployments c) \<and>
         set (hb_active_job_ids (heartbeat cfg util jord dord c)) = set (cl_running_jobs c) \<and>
         set (hb_active_deployment_ids (heartbeat cfg util jord dord c)) = set (cl_running_deployments c)"
  using client.reachable_inv [OF assms(1)] assms(2,3)
  by (simp add: client_inv_def session_ok_def tables_ok_def outboundBufferSize_def heartbeat_def
      set_active [unfolded tables_ok_def])

theorem client_sessions_well_formed_witness:
  "cl_running_jobs demo_busy = [''j1''] \<and>
   set (hb_active_job_ids (heartbeat demo_cfg None [''j1''] [] demo_busy)) = {''j1''}"
proof -
  have busy: "cl_running_jobs demo_busy = [''j1'']" "cl_running_deployments demo_busy = []"
    by (simp_all add: demo_busy_def demo_session_def dispatch_def startJob_def demo_cfg_def demo_job_def
        session_publish_def writer_send_def session_start_def New_Client_def)
  have "reachable (\<lambda>c. c = New_Client) (client_step demo_cfg) demo_busy"
    unfolding demo_busy_def
    by (rule reach_step [OF demo_session_reachable client_step.command])
      (simp add: demo_session_def session_publish_def)
  from client_sessions_well_formed [OF this, of "[''j1'']" "[]" None] busy show ?thesis
    by simp
qed

subsection \<open>The reconnect schedule\<close>

lemma backoff_next_bounds:
  assumes "second \<le> cur" "0 \<le> rnd" "rnd \<le> cur div 2"
  shows "cur div 2 \<le> fst (backoff_next rnd cur)" "fst (backoff_next rnd cur) \<le> cur"
    "cur \<le> 60 * second \<Longrightarrow> snd (backoff_next rnd cur) = min (60 * second) (2 * cur)"
  using assms by (auto simp: backoff_next_def Let_def backoffBase_def backoffCap_def)

subsection \<open>The persisted identity\<close>

text \<open>
  Consecutive sessions of one agent. Every session reads the file again, so a restart of the agent
  changes nothing; the coordinator may have restarted too, so every session meets some registry.
\<close>

fun session_ids :: "ClientConfig \<Rightarrow> string option \<Rightarrow> (Registry \<times> string \<times> time \<times> stream \<times> bool) list \<Rightarrow> string list" where
  "session_ids cfg file [] = []"
| "session_ids cfg file ((r, newID, now, send, writable) # rest) =
     (let nodeID = readNodeID file;
          (r', ackID) = Upsert newID now (register_message cfg nodeID) send r;
          (file', _) = keep_node_id writable ackID nodeID file
      in ackID # session_ids cfg file' rest)"

lemma TrimSpace_newline: "TrimSpace s = s \<Longrightarrow> TrimSpace (writeNodeID s) = s"
proof -
  assume s: "TrimSpace s = s"
  have lead: "dropWhile is_space s = s"
  proof (rule ccontr)
    assume "dropWhile is_space s \<noteq> s"
    then have "length (dropWhile is_space s) < length s"
      by (cases s) (auto simp: less_Suc_eq_le length_dropWhile_le split: if_splits)
    moreover have "length (TrimSpace s) \<le> length (dropWhile is_space s)"
      unfolding TrimSpace_def by (metis length_dropWhile_le length_rev)
    ultimately show False using s by simp
  qed
  show ?thesis
    using s lead by (cases s) (auto simp: TrimSpace_def writeNodeID_def is_space_def dropWhile_append)
qed

lemma session_ids_stable:
  assumes "readNodeID file = nid" "nid \<noteq> []"
  shows "session_ids cfg file ss = replicate (length ss) nid"
  using assms
  by (induction ss)
    (auto simp: Upsert_def register_message_def keep_node_id_def Let_def)

text \<open>An agent keeps its node ID. When the first session can write the file (or the file already
  holds an ID), every later session registers under the ID of the first one: across reconnects, agent
  restarts and coordinators that have forgotten it, and whatever IDs they would have assigned.\<close>

theorem node_identity_stable:
  assumes "readNodeID file \<noteq> [] \<or> writable \<and> newID \<noteq> [] \<and> TrimSpace newID = newID"
  shows "\<exists>nid. nid \<noteq> [] \<and>
           session_ids cfg file ((r, newID, now, send, writable) # ss) = replicate (Suc (length ss)) nid"
proof (cases "readNodeID file = []")
  case True
  with assms have new: "newID \<noteq> []" "TrimSpace newID = newID" writable by auto
  then have "readNodeID (Some (writeNodeID newID)) = newID"
    by (simp add: readNodeID_def TrimSpace_newline)
  note session_ids_stable [OF this new(1), of cfg ss]
  with new True show ?thesis
    by (intro exI [of _ newID]) (simp add: Upsert_def register_message_def keep_node_id_def)
next
  case False
  then show ?thesis
    using session_ids_stable [of "file" "readNodeID file" cfg "(r, newID, now, send, writable) # ss"]
    by (intro exI [of _ "readNodeID file"]) simp
qed

theorem node_identity_stable_witness:
  "\<exists>nid. nid \<noteq> [] \<and> session_ids demo_cfg None [(New, ''a1'', 0, 0, True), (New, ''b2'', 9, 1, True)] = [nid, nid]"
  using node_identity_stable [of None True "''a1''" demo_cfg New 0 0 "[(New, ''b2'', 9, 1, True)]"]
  by (simp add: numeral_2_eq_2 TrimSpace_def is_space_def)

end
