(* ===== verification/EndToEnd.thy ===== *)
theory EndToEnd
  imports CoordProps GwProps AgentProps RoutingProps UsageProps
begin

text \<open>
  Properties that span the agent, the coordinator and the gateway: what the coordinator records of a
  job, where the gateway is sent for a deployment, what ends up on the bill, and a deployment that the
  two sides of a reconnect lose between them.
\<close>

subsection \<open>Jobs\<close>

text \<open>The coordinator takes the messages of a job one by one, each at its own time.\<close>

definition record_job :: "string \<Rightarrow> (time \<times> JobUpdate) list \<Rightarrow> Scheduler \<Rightarrow> Scheduler" where
  "record_job nodeID us s = fold (\<lambda>(t, u). OnJobUpdate t nodeID u) us s"

lemma runJob_last:
  "runJob spec e \<noteq> [] \<and> isTerminal (ju_state (last (runJob spec e))) \<and> ju_job_id (last (runJob spec e)) = js_job_id spec"
  using docker.nonempty [of spec e] docker.last_terminal [of spec e]
  by (auto simp: runJob_def DockerRunner_Run_def last_map job_message_def split_beta)

lemma runJob_succeeded:
  "ju_state (last (runJob spec e)) = JOB_STATE_SUCCEEDED \<longleftrightarrow>
     js_image spec \<noteq> [] \<and> snd (pull (dk_pull e)) \<and> dk_create e \<noteq> None \<and> dk_start e \<and> dk_wait e = WaitExited None 0"
  using docker.nonempty [of spec e] docker_outcome [of spec e]
  by (auto simp: runJob_def DockerRunner_Run_def last_map job_message_def split_beta)

lemma OnJobUpdate_terminal:
  assumes "isTerminal (ju_state u)" and "ju_job_id u \<noteq> []"
  shows "\<exists>j. Get_job (ju_job_id u) (OnJobUpdate now nodeID u s) = Some j \<and> job_State j = ju_state u \<and>
    job_Error j = ju_error u \<and> job_ExitCode j = ju_exit_code u"
  using assms by (cases "ju_state u") (auto simp: OnJobUpdate_def Get_job_def Let_def)

text \<open>C22. The coordinator learns how a job ended. When it receives the messages an agent emits for a job,
  whatever the Docker daemon did, its record of the job ends in a terminal state with the error and exit
  code of the last message, and that state is \<^verbatim>\<open>SUCCEEDED\<close> exactly when the job named an image, the image
  was pulled, and the container was created, started and exited with status zero.\<close>

theorem job_outcome_recorded:
  assumes "js_job_id spec \<noteq> []" and "length ts = length (runJob spec e)"
  shows "\<exists>j. Get_job (js_job_id spec) (record_job nodeID (zip ts (runJob spec e)) s) = Some j \<and>
    isTerminal (job_State j) \<and>
    job_Error j = ju_error (last (runJob spec e)) \<and> job_ExitCode j = ju_exit_code (last (runJob spec e)) \<and>
    (job_State j = JOB_STATE_SUCCEEDED \<longleftrightarrow>
       js_image spec \<noteq> [] \<and> snd (pull (dk_pull e)) \<and> dk_create e \<noteq> None \<and> dk_start e \<and>
       dk_wait e = WaitExited None 0)"
proof -
  note last = runJob_last [of spec e]
  have ne: "ts \<noteq> []" using assms(2) last by auto
  let ?us = "runJob spec e" and ?s = "record_job nodeID (zip (butlast ts) (butlast (runJob spec e))) s"
  have "zip ts ?us = zip (butlast ts) (butlast ?us) @ [(last ts, last ?us)]"
    using assms(2) last ne by (metis append_butlast_last_id length_butlast zip_Cons_Cons zip_Nil zip_append)
  then have "record_job nodeID (zip ts ?us) s = OnJobUpdate (last ts) nodeID (last ?us) ?s"
    by (simp add: record_job_def)
  then show ?thesis
    using OnJobUpdate_terminal [of "last ?us" "last ts" nodeID ?s] last assms(1) runJob_succeeded [of spec e]
    by auto
qed

theorem job_outcome_recorded_witness:
  "\<exists>j. Get_job ''j1'' (record_job ''n1'' (zip (replicate (length (runJob demo_job demo_docker)) 7)
         (runJob demo_job demo_docker)) demo_scheduler) = Some j \<and> job_State j = JOB_STATE_SUCCEEDED"
  using job_outcome_recorded [of demo_job "replicate (length (runJob demo_job demo_docker)) 7" demo_docker
      "''n1''" demo_scheduler]
  by (auto simp: demo_job_def demo_docker_def pull_def)

subsection \<open>Deployments\<close>

lemma runDeployment_ready:
  assumes "u \<in> set (runDeployment spec e)" and "du_state u = DEPLOYMENT_STATE_READY"
  shows "du_deployment_id u = spec_deployment_id spec \<and>
    (\<exists>addr. readEngineAddr (nv_addr e) = Some addr \<and> du_host_port u = portOf addr)"
  using assms native_body [of spec e]
  by (auto simp: runDeployment_def deployment_message_def Start_def split: option.splits if_splits)

text \<open>C7. The gateway is sent to the port the engine listens on. When the engine announced the address
  of some host and port, and the coordinator takes the agent's \<^verbatim>\<open>READY\<close> message for the replica it placed
  there, then while that node is \<^verbatim>\<open>ONLINE\<close> with a data-plane address the gateway is offered the replica
  under exactly that address and that port, for the model of the deployment.\<close>

theorem gateway_dials_announced_port:
  assumes "manager_inv m" and "map_order dord (deploy m)"
    and "deploy m (spec_deployment_id spec) = Some d" and "dp_Spec d = spec"
    and "dp_Replica d = Some r" and "rp_NodeID r = nodeID"
    and "Get nodeID reg = Some node" and "node_Status node = NODE_STATUS_ONLINE" and "node_DataPlaneAddr node \<noteq> []"
    and "readEngineAddr (nv_addr e) = Some (JoinHostPort bind (itoa n))" and "0 < n" and "n < 2 ^ 16"
    and "u \<in> set (runDeployment spec e)" and "du_state u = DEPLOYMENT_STATE_READY"
  shows "\<lparr>rep_node_id = nodeID, rep_deployment_id = spec_deployment_id spec,
           rep_addr = JoinHostPort (node_DataPlaneAddr node) (itoa n)\<rparr>
    \<in> set (Resolve dord reg (spec_served_model_name spec) (fst (OnUpdate now net reg0 nodeID u (m, ob))))"
proof -
  let ?m = "fst (OnUpdate now net reg0 nodeID u (m, ob))"
  have port: "du_host_port u = of_nat n" "du_deployment_id u = spec_deployment_id spec"
    using runDeployment_ready [OF assms(13,14)] portOf_JoinHostPort [of n bind] assms(10,12) by auto
  have "unat (of_nat n :: u32) = n"
    using assms(12) by (simp add: unat_of_nat)
  moreover from this have "(of_nat n :: u32) \<noteq> 0" using assms(11) by (metis unat_0 less_irrefl)
  ultimately have "routable reg ?m (spec_served_model_name spec)
      \<lparr>rep_node_id = nodeID, rep_deployment_id = spec_deployment_id spec,
       rep_addr = JoinHostPort (node_DataPlaneAddr node) (itoa n)\<rparr>"
    using assms(3-9,14) by (auto simp: routable_def OnUpdate_def port set_replica_def)
  moreover have "manager_inv ?m" by (rule manager_step_inv [OF assms(1) manager_step.update])
  moreover have "map_order dord (deploy ?m)"
    using assms(2) by (auto simp: OnUpdate_def set_replica_def map_order_def split: option.split if_splits)
  ultimately show ?thesis using set_Resolve by blast
qed

lemma itoa_8080: "itoa 8080 = ''8080''"
  by (simp add: itoa.simps)

lemma demo_announced: "readEngineAddr (nv_addr demo_native) = Some (JoinHostPort ''10.0.0.5'' (itoa 8080))"
  by (simp add: demo_native_addr JoinHostPort_def itoa_8080)

definition demo_ready_update :: DeploymentUpdate where
  "demo_ready_update = \<lparr>du_deployment_id = ''d1'', du_state = DEPLOYMENT_STATE_READY, du_host_port = 8080,
     du_error = [], du_progress_percent = 0\<rparr>"

lemma demo_ready_sent: "demo_ready_update \<in> set (runDeployment (dp_Spec demo_deployment) demo_native)"
proof -
  have "nv_download demo_native = Inr [''m'']" "nv_stdout demo_native" "nv_stderr demo_native" "nv_start demo_native"
    "waitReady (spec_served_model_name (dp_Spec demo_deployment)) (nv_polls demo_native)"
    using demo_native_ready by (simp_all add: demo_native_def demo_deployment_def demo_spec_def)
  then show ?thesis
    using portOf_JoinHostPort [of 8080 "''10.0.0.5''"] demo_announced
    by (simp add: runDeployment_def Start_def GetNative_def demo_deployment_def demo_spec_def native_run_def
        native_serve_def deployment_message_def state_update_def demo_ready_update_def)
qed

theorem gateway_dials_announced_port_witness:
  "\<lparr>rep_node_id = ''n1'', rep_deployment_id = ''d1'', rep_addr = ''10.0.0.5:8080''\<rparr>
     \<in> set (Resolve [''d1''] demo_online ''qwen''
              (fst (OnUpdate 5 all_accepted demo_registry ''n1'' demo_ready_update (demo_manager, []))))"
proof -
  have "manager_inv demo_manager" using placement_inv_demo by (simp add: placement_inv_def)
  from gateway_dials_announced_port [OF this map_order_demo_manager, of "dp_Spec demo_deployment"
      demo_deployment "new_replica ''d1'' ''n1'' 0" "''n1''" demo_online "the (Get ''n1'' demo_online)" demo_native
      "''10.0.0.5''" 8080 demo_ready_update 5 all_accepted demo_registry "[]"] demo_announced demo_ready_sent
  show ?thesis
    by (simp add: deploy_demo_manager demo_deployment_def demo_spec_def new_replica_def Get_demo_online
        Get_demo_registry demo_ready_update_def JoinHostPort_def itoa_8080)
qed

subsection \<open>A deployment lost across a reconnect\<close>

text \<open>
  What the coordinator does while a node is up and reports a deployment: heartbeats (those of the node
  name the deployment), reconciler passes, and updates about other deployments.
\<close>

inductive uptime_step :: "string \<Rightarrow> string \<Rightarrow> Manager \<Rightarrow> Manager \<Rightarrow> bool" for nodeID k where
  beat: "map_order dord (deploy m) \<Longrightarrow> (nid = nodeID \<longrightarrow> k \<in> set active) \<Longrightarrow>
     uptime_step nodeID k m (fst (OnHeartbeat dord now net reg nid active (m, ob)))"
| pass: "map_order dord (deploy m) \<Longrightarrow> \<forall>j. map_order (dords j) (deploy m) \<Longrightarrow> \<forall>j. directory_valid (nords j) reg \<Longrightarrow>
     Get nodeID reg = Some n \<Longrightarrow> node_Status n = NODE_STATUS_ONLINE \<Longrightarrow>
     uptime_step nodeID k m (fst (Reconcile dord dords nords now net reg (m, ob)))"
| update: "du_deployment_id u \<noteq> k \<Longrightarrow> uptime_step nodeID k m (fst (OnUpdate now net reg nid u (m, ob)))"

inductive_cases uptime_stepE: "uptime_step nodeID k m m'"

definition pulling_on :: "string \<Rightarrow> string \<Rightarrow> Manager \<Rightarrow> bool" where
  "pulling_on nodeID k m \<longleftrightarrow> manager_inv m \<and>
     (\<exists>d r. deploy m k = Some d \<and> dp_Replica d = Some r \<and> rp_NodeID r = nodeID \<and>
        rp_State r = DEPLOYMENT_STATE_PULLING)"

lemma OnUpdate_other:
  "du_deployment_id u \<noteq> k \<Longrightarrow> deploy (fst (OnUpdate now net reg nid u (m, ob))) k = deploy m k"
  by (auto simp: OnUpdate_def set_replica_def split: option.split)

lemma place_all_placed:
  assumes "unplaced_in (fst mo) ds" and "deploy (fst mo) k = Some d" and "dp_Replica d \<noteq> None"
  shows "deploy (fst (place_all dords nords now net reg ds mo)) k = Some d"
  using assms
proof (induction ds arbitrary: mo)
  case (Cons e ds)
  obtain m ob where mo: "mo = (m, ob)" by (cases mo)
  have "k \<noteq> dp_ID e"
    using Cons.prems by (auto simp: mo unplaced_in_def abs_manager_def placement_of_def)
  then have "deploy (fst (fst (place dord nord now net reg e kind mo))) k = Some d" for dord nord kind
    using Cons.prems(2) place_frame(1) by (simp add: mo)
  then show ?case
    using Cons unplaced_in_tl unplaced_in_place by (auto split: sum.split)
qed simp

lemma Reconcile_keeps_online:
  assumes "manager_inv m" and "map_order dord (deploy m)" and "deploy m k = Some d" and "dp_Replica d = Some r"
    and "rp_State r \<noteq> DEPLOYMENT_STATE_FAILED" and "Get (rp_NodeID r) reg = Some n" and "node_Status n = NODE_STATUS_ONLINE"
  shows "deploy (fst (Reconcile dord dords nords now net reg (m, ob))) k = Some d"
proof -
  let ?m = "m\<lparr>deploy := sweep (reconcile_entry now reg) dord (deploy m)\<rparr>"
  let ?ds = "filter (\<lambda>d. dp_Replica d = None) (range_vals dord (deploy ?m))"
  have "reconcile_entry now reg d = d" using assms(4-7) by (simp add: reconcile_entry_def)
  then have "deploy ?m k = Some d" using assms(3) by (simp add: sweep_order [OF assms(2)])
  moreover have "unplaced_in ?m ?ds"
    using assms(1,2) by (intro unplaced_in_filter) (simp_all add: manager_inv_swept map_order_def)
  ultimately show ?thesis
    using place_all_placed [of "(?m, ob)" ?ds k d] assms(4) by (simp add: Reconcile_def)
qed

interpretation uptime: inductive_invariant "pulling_on nodeID k" "uptime_step nodeID k" "pulling_on nodeID k" for nodeID k
proof unfold_locales
  fix m m'
  assume p: "pulling_on nodeID k m" and step: "uptime_step nodeID k m m'"
  from step have "manager_step m m'"
    by (rule uptime_stepE) (auto intro: manager_step.intros)
  moreover from p obtain d r where d: "manager_inv m" "deploy m k = Some d" "dp_Replica d = Some r"
    "rp_NodeID r = nodeID" "rp_State r = DEPLOYMENT_STATE_PULLING" by (auto simp: pulling_on_def)
  from step have "deploy m' k = Some d"
    by (rule uptime_stepE)
      (use d in \<open>auto simp: deploy_OnHeartbeat OnUpdate_other intro!: Reconcile_keeps_online\<close>)
  ultimately show "pulling_on nodeID k m'"
    using d manager_step_inv by (auto simp: pulling_on_def)
qed

lemma pulling_not_resolved:
  assumes "pulling_on nodeID k m" and "map_order dord (deploy m)" and "rep \<in> set (Resolve dord reg model m)"
  shows "rep_deployment_id rep \<noteq> k"
  using assms set_Resolve [OF assms(2), of reg model] by (auto simp: pulling_on_def routable_def)

text \<open>A start for a deployment that is still running strands it. The agent ignores the message and
  reports nothing, while the coordinator shows the replica as \<^verbatim>\<open>PULLING\<close>; and as long as the node stays
  up and reports the deployment, no sequence of heartbeats, reconciler passes and updates about other
  deployments ever makes it routable again.\<close>

theorem duplicate_start_strands_deployment:
  assumes "cfg_Deployments cfg" and "k \<in> dom (cl_deployments c)" and "spec_deployment_id spec = k"
    and "pulling_on nodeID k m" and "(uptime_step nodeID k)\<^sup>*\<^sup>* m m'"
    and "map_order dord (deploy m')"
  shows "dispatch cfg (CM_StartDeployment (Some spec)) c = c \<and>
    (\<forall>reg model rep. rep \<in> set (Resolve dord reg model m') \<longrightarrow> rep_deployment_id rep \<noteq> k)"
  using assms pulling_not_resolved [OF uptime.run_inv [OF assms(4,5)] assms(6)]
  by (auto simp: dispatch_def startDeployment_def Let_def)

text \<open>
  How a coordinator gets there: the replica has been ready for over a minute when its node's connection
  breaks; the next reconciler pass finds the node \<^verbatim>\<open>OFFLINE\<close> and releases the replica at once, since
  nothing was heard of it for a minute; the agent reconnects, its deployment still running, and the
  pass after that places the deployment there again before a heartbeat has arrived.
\<close>

definition demo_offline :: Registry where
  "demo_offline = MarkDisconnected ''n1'' demo_online"

definition demo_back :: Registry where
  "demo_back = fst (Upsert ''n9'' (75 * second) (demo_register\<lparr>rg_node_id := ''n1''\<rparr>) 8 demo_offline)"

definition demo_released :: Manager where
  "demo_released = fst (Reconcile [''d1''] (\<lambda>_. [''d1'']) (\<lambda>_. [''n1'']) (70 * second) all_accepted demo_offline
     (demo_ready, []))"

definition demo_replaced :: Manager where
  "demo_replaced = fst (Reconcile [''d1''] (\<lambda>_. [''d1'']) (\<lambda>_. [''n1'']) (85 * second) all_accepted demo_back
     (demo_released, []))"

lemma Get_demo_offline:
  "Get ''n1'' demo_offline = Some ((the (Get ''n1'' demo_online))\<lparr>node_Status := NODE_STATUS_OFFLINE, node_Send := None\<rparr>)"
  using Get_demo_online by (simp add: demo_offline_def MarkDisconnected_def Get_def)

lemma Get_demo_back:
  "Get ''n1'' demo_back = Some ((the (Get ''n1'' demo_online))\<lparr>node_LastSeen := 75 * second, node_Send := Some 8\<rparr>)"
  using Get_demo_offline Get_demo_online Get_demo_registry
  by (simp add: demo_back_def Upsert_def Get_def demo_register_def)

lemma Snapshot_demo_back:
  "Snapshot [''n1''] demo_offline = [the (Get ''n1'' demo_offline)]" "Snapshot [''n1''] demo_back = [the (Get ''n1'' demo_back)]"
  using Get_demo_offline Get_demo_back by (simp_all add: Snapshot_def Get_def)

lemma deploy_demo_released: "deploy demo_released = [''d1'' \<mapsto> demo_deployment\<lparr>dp_Replica := None\<rparr>]"
  by (simp add: demo_released_def Reconcile_def deploy_demo_ready sweep_simps reconcile_entry_def lostAfter_def
      maxDuration_def requiredRunner_def place_def selectNode_def Snapshot_demo_back Get_demo_offline
      Get_demo_online demo_deployment_def demo_spec_def occupied_def map_filter_simps)

lemma deploy_demo_replaced:
  "deploy demo_replaced = [''d1'' \<mapsto> demo_deployment\<lparr>dp_Replica := Some (new_replica ''d1'' ''n1'' (85 * second))\<rparr>]"
  by (simp add: demo_replaced_def Reconcile_def deploy_demo_released sweep_simps reconcile_entry_def
      requiredRunner_def place_def selectNode_def Snapshot_demo_back Get_demo_back
      Get_demo_online Get_demo_registry demo_gpu_def demo_system_def demo_deployment_def demo_spec_def occupied_def map_filter_simps
      stream_Send_def set_replica_def new_replica_def)

lemma pulling_on_demo: "pulling_on ''n1'' ''d1'' demo_replaced"
proof -
  have "manager_inv demo_replaced"
    unfolding demo_replaced_def demo_released_def
    using manager_inv_demo_ready by (simp add: manager_inv_Reconcile)
  then show ?thesis by (simp add: pulling_on_def deploy_demo_replaced new_replica_def)
qed

theorem duplicate_start_strands_deployment_witness:
  "\<forall>model rep. rep \<in> set (Resolve [''d1''] demo_back model
     (fst (OnHeartbeat [''d1''] (10 * minute) all_accepted demo_back ''n1'' [''d1''] (demo_replaced, [])))) \<longrightarrow>
     rep_deployment_id rep \<noteq> ''d1''"
proof -
  let ?m = "fst (OnHeartbeat [''d1''] (10 * minute) all_accepted demo_back ''n1'' [''d1''] (demo_replaced, []))"
  let ?c = "startDeployment demo_cfg (Some (dp_Spec demo_deployment)) New_Client"
  have o: "map_order [''d1''] (deploy demo_replaced)" by (simp add: deploy_demo_replaced map_order_def)
  have "(uptime_step ''n1'' ''d1'')\<^sup>*\<^sup>* demo_replaced ?m"
    by (intro r_into_rtranclp uptime_step.beat o) simp
  moreover have "map_order [''d1''] (deploy ?m)"
    using pulling_on_demo o
    by (auto simp: map_order_def dom_def deploy_OnHeartbeat pulling_on_def deploy_demo_replaced)
  moreover have "cfg_Deployments demo_cfg" "''d1'' \<in> dom (cl_deployments ?c)" "spec_deployment_id (dp_Spec demo_deployment) = ''d1''"
    by (simp_all add: demo_cfg_def startDeployment_def demo_deployment_def demo_spec_def)
  ultimately show ?thesis
    using duplicate_start_strands_deployment [of demo_cfg "''d1''" ?c "dp_Spec demo_deployment" "''n1''" demo_replaced ?m "[''d1'']"]
      pulling_on_demo by blast
qed

subsection \<open>From a request to its bill\<close>

text \<open>
  The gateway serves requests while its reporter drains; the coordinator stores what the reporter sends,
  each call with its own clock readings and its own luck with the database.
\<close>

datatype gateway_event = EvServe inference_env string | EvDrainOne | EvShutdown

fun gateway_run :: "gateway_event list \<Rightarrow> Router \<times> Reporter \<Rightarrow> Router \<times> Reporter" where
  "gateway_run [] s = s"
| "gateway_run (EvServe e keyID # evs) s = gateway_run evs (fst (handleInference e keyID s))"
| "gateway_run (EvDrainOne # evs) (r, rp) = gateway_run evs (r, drain_one rp)"
| "gateway_run (EvShutdown # evs) (r, rp) = gateway_run evs (r, Close_Reporter rp)"

fun store_reports :: "((time \<times> exec_outcome \<times> time) \<times> ReportUsageRequest) list \<Rightarrow> usage_table \<Rightarrow> usage_table" where
  "store_reports [] tbl = tbl"
| "store_reports (((now', ex, now), req) # rest) tbl =
     store_reports rest (fst (ReportUsage (Postgres_Insert now' ex) now req tbl))"

text \<open>A report tells the truth about a request that was served.\<close>

definition served :: "gateway_event list \<Rightarrow> ReportUsageRequest \<Rightarrow> bool" where
  "served evs q \<longleftrightarrow> (\<exists>e keyID stream. EvServe e keyID \<in> set evs \<and> ru_request_id q = rq_requestID (in_request e) \<and>
     ru_api_key_id q = keyID \<and> peeked e = Some (ru_served_model_name q, stream))"

lemma served_mono: "served evs q \<Longrightarrow> served (ev # evs) q"
  by (auto simp: served_def)

lemma accepted_Report: "q \<in> set (accepted (Report rec rp)) \<Longrightarrow> q \<in> set (accepted rp) \<or> q = send_request rec"
  by (auto simp: Report_def split: if_splits)

lemma accepted_run:
  "q \<in> set (accepted (snd (gateway_run evs s))) \<Longrightarrow> q \<in> set (accepted (snd s)) \<or> served evs q"
proof (induction evs s rule: gateway_run.induct)
  case (2 e keyID evs s)
  obtain r rp where s: "s = (r, rp)" by (cases s)
  obtain r' rp' rpl where run: "handleInference e keyID (r, rp) = ((r', rp'), rpl)"
    by (metis prod.exhaust)
  have "q \<in> set (accepted rp) \<or> served (EvServe e keyID # evs) q" if "q \<in> set (accepted rp')"
  proof -
    from handleInference_reports [OF run] consider "rp' = rp"
      | rec stream where "rp' = Report rec rp" "peeked e = Some (rc_Model rec, stream)"
        "rc_RequestID rec = rq_requestID (in_request e)" "rc_APIKeyID rec = keyID" by blast
    then show ?thesis
    proof cases
      case 2
      with accepted_Report [of q rec rp] that show ?thesis by (auto simp: served_def send_request_def)
    qed (use that in simp)
  qed
  with 2 run s served_mono show ?case by auto
next
  case (3 evs r rp)
  then show ?case using served_mono accepted_step(1) [of rp] by (simp del: accepted_step) blast
next
  case (4 evs r rp)
  then show ?case using served_mono accepted_step(2) [of rp] by (simp del: accepted_step) blast
qed simp

lemma ReportUsage_rows:
  assumes "distinct (map row_request_id tbl)"
    and "tbl' = fst (ReportUsage (Postgres_Insert now' ex) now req tbl)"
  shows "distinct (map row_request_id tbl') \<and>
    (\<forall>row \<in> set tbl'. row \<in> set tbl \<or> row = row_of now' (usage_record now req))"
proof (cases "ru_request_id req = []")
  case False
  then have "tbl' = fst (Postgres_Insert now' ex (usage_record now req) tbl)"
    using assms(2) by (simp add: ReportUsage_def split_beta)
  then show ?thesis
    using pg.inv_ins [OF assms(1), of "(now', ex)" "usage_record now req"]
      Postgres_Insert_rows [of now' ex "usage_record now req" tbl] by auto
qed (use assms in \<open>simp add: ReportUsage_def\<close>)

lemma store_reports_rows:
  assumes "distinct (map row_request_id tbl)" and "tbl' = store_reports as tbl"
  shows "distinct (map row_request_id tbl') \<and>
    (\<forall>row \<in> set tbl'. row \<in> set tbl \<or> (\<exists>x \<in> set as. \<exists>now' now. row = row_of now' (usage_record now (snd x))))"
  using assms
proof (induction as tbl rule: store_reports.induct)
  case (2 now' ex now req rest tbl)
  note r = ReportUsage_rows [OF 2(2) refl, of now' ex now req]
  from 2(1) r 2(3) show ?case by fastforce
qed simp



end
