(* ===== verification/EngineModel.thy ===== *)
theory EngineModel
  imports GoStrings
begin

text \<open>
  The inference engine below its HTTP layer: the types and the stop-sequence search of
  \<^verbatim>\<open>agent/internal/engine/engine.go\<close>, and the Go side of the decode loop in \<^verbatim>\<open>llama_darwin.go\<close>. What the
  calls into llama.cpp return is an argument.
\<close>

subsection \<open>Types (engine.go)\<close>

text \<open>A \<^verbatim>\<open>float32\<close> temperature is given by its bits; the loop only hands it to the sampler.\<close>

record GenerateRequest =
  gr_Prompt :: string
  gr_MaxTokens :: int
  gr_Temperature :: u32
  gr_Stop :: "string list"

text \<open>Counts of tokens are Go \<^verbatim>\<open>int\<close>s; the loop keeps them between 0 and the limit of the request.\<close>

record Token =
  tk_Text :: string
  tk_Done :: bool
  tk_Reason :: string
  tk_Err :: "string option"
  tk_PromptTokens :: int
  tk_CompletionTokens :: int

definition zero_Token :: Token where
  "zero_Token = \<lparr>tk_Text = [], tk_Done = False, tk_Reason = [], tk_Err = None, tk_PromptTokens = 0,
     tk_CompletionTokens = 0\<rparr>"

record ChatMessage =
  cm_Role :: string
  cm_Content :: string

subsection \<open>Stop sequences (engine.go)\<close>

text \<open>\<^verbatim>\<open>strings.Index\<close>, with \<open>None\<close> for -1.\<close>

fun Index :: "string \<Rightarrow> string \<Rightarrow> nat option" where
  "Index [] sub = (if sub = [] then Some 0 else None)"
| "Index (c # cs) sub = (if HasPrefix (c # cs) sub then Some 0 else map_option Suc (Index cs sub))"

fun index_any_loop :: "string \<Rightarrow> string list \<Rightarrow> nat option \<Rightarrow> nat option" where
  "index_any_loop s [] best = best"
| "index_any_loop s (stop # stops) best =
     (if stop = [] then index_any_loop s stops best
      else case Index s stop of
             None \<Rightarrow> index_any_loop s stops best
           | Some i \<Rightarrow> index_any_loop s stops
               (case best of None \<Rightarrow> Some i | Some b \<Rightarrow> if i < b then Some i else Some b))"

definition indexAnyStop :: "string \<Rightarrow> string list \<Rightarrow> nat option" where
  "indexAnyStop s stops = index_any_loop s stops None"

text \<open>Where a sequence occurs.\<close>

definition occurs_at :: "string \<Rightarrow> string \<Rightarrow> nat \<Rightarrow> bool" where
  "occurs_at s sub i \<longleftrightarrow> i \<le> length s \<and> HasPrefix (drop i s) sub"

lemma Index_Some: "Index s sub = Some i \<longleftrightarrow> occurs_at s sub i \<and> (\<forall>j < i. \<not> occurs_at s sub j)"
proof (induction s arbitrary: i)
  case Nil
  then show ?case by (auto simp: occurs_at_def HasPrefix_def)
next
  case (Cons c cs)
  show ?case
  proof (cases "HasPrefix (c # cs) sub")
    case True
    then have "occurs_at (c # cs) sub 0" by (simp add: occurs_at_def)
    with True show ?thesis by (cases i) auto
  next
    case False
    have suc: "occurs_at (c # cs) sub (Suc j) \<longleftrightarrow> occurs_at cs sub j" for j by (simp add: occurs_at_def)
    have zero: "\<not> occurs_at (c # cs) sub 0" using False by (simp add: occurs_at_def)
    show ?thesis
    proof (cases i)
      case 0
      with False zero show ?thesis by simp
    next
      case (Suc k)
      have "(\<forall>j < Suc k. \<not> occurs_at (c # cs) sub j) \<longleftrightarrow> (\<forall>j < k. \<not> occurs_at cs sub j)"
        using zero suc by (metis less_Suc_eq_0_disj)
      with False Suc suc Cons.IH [of k] show ?thesis by simp
    qed
  qed
qed

lemma Index_None: "Index s sub = None \<longleftrightarrow> (\<forall>i. \<not> occurs_at s sub i)"
proof
  assume none: "Index s sub = None"
  show "\<forall>i. \<not> occurs_at s sub i"
  proof (rule ccontr)
    assume "\<not> (\<forall>i. \<not> occurs_at s sub i)"
    then obtain i where "occurs_at s sub i" by blast
    then have "Index s sub = Some (LEAST i. occurs_at s sub i)"
      by (auto simp: Index_Some intro: LeastI dest: not_less_Least)
    with none show False by simp
  qed
next
  assume "\<forall>i. \<not> occurs_at s sub i"
  then show "Index s sub = None" by (metis Index_Some not_None_eq)
qed

text \<open>Some non-empty stop sequence occurs at a position.\<close>

definition stop_at :: "string \<Rightarrow> string list \<Rightarrow> nat \<Rightarrow> bool" where
  "stop_at s stops i \<longleftrightarrow> (\<exists>stop \<in> set stops. stop \<noteq> [] \<and> occurs_at s stop i)"

definition least_pos :: "(nat \<Rightarrow> bool) \<Rightarrow> nat option \<Rightarrow> bool" where
  "least_pos P r \<longleftrightarrow> (case r of None \<Rightarrow> \<forall>i. \<not> P i | Some i \<Rightarrow> P i \<and> (\<forall>j < i. \<not> P j))"

lemma least_pos_Index: "least_pos (occurs_at s sub) (Index s sub)"
  unfolding least_pos_def using Index_Some Index_None by (auto split: option.split)

lemma index_any_loop_least:
  assumes "least_pos P best"
  shows "least_pos (\<lambda>i. P i \<or> stop_at s stops i) (index_any_loop s stops best)"
  using assms
proof (induction stops arbitrary: P best)
  case (Cons stop stops)
  let ?best = "if stop = [] then best else case Index s stop of None \<Rightarrow> best
    | Some i \<Rightarrow> (case best of None \<Rightarrow> Some i | Some b \<Rightarrow> if i < b then Some i else Some b)"
  have "least_pos (\<lambda>i. P i \<or> stop \<noteq> [] \<and> occurs_at s stop i) ?best"
    using Cons.prems least_pos_Index [of s stop]
    by (fastforce simp: least_pos_def split: option.splits if_splits)
  note ih = Cons.IH [OF this]
  have "(\<lambda>i. (P i \<or> stop \<noteq> [] \<and> occurs_at s stop i) \<or> stop_at s stops i) = (\<lambda>i. P i \<or> stop_at s (stop # stops) i)"
    by (auto simp: stop_at_def)
  moreover have "index_any_loop s (stop # stops) best = index_any_loop s stops ?best"
    by (simp split: option.split)
  ultimately show ?case using ih by metis
qed (simp add: stop_at_def)

lemma indexAnyStop_least: "least_pos (stop_at s stops) (indexAnyStop s stops)"
  using index_any_loop_least [of "\<lambda>_. False" None s stops] by (simp add: indexAnyStop_def least_pos_def)

lemma indexAnyStop_Nil [simp]: "indexAnyStop [] stops = None"
  using indexAnyStop_least [of "[]" stops]
  by (cases "indexAnyStop [] stops") (auto simp: least_pos_def stop_at_def occurs_at_def HasPrefix_def)

subsection \<open>The decode loop (llama\_darwin.go)\<close>

text \<open>
  One turn of the loop: whether the context has ended, whether the sampled token ends the generation,
  its text (\<open>None\<close> when llama.cpp refuses to convert it) and the result of decoding it. An environment has
  the two results of \<^verbatim>\<open>llama_tokenize\<close>, the result of decoding the prompt and the turns.
\<close>

record llama_step =
  ls_done :: bool
  ls_eog :: bool
  ls_piece :: "string option"
  ls_decode :: int

record llama_env =
  le_closed :: bool
  le_need :: int
  le_got :: int
  le_prefill :: int
  le_step :: "nat \<Rightarrow> llama_step"

text \<open>The number of tokens of the prompt, or an error. Called with a buffer of the size it has asked for,
  \<^verbatim>\<open>llama_tokenize\<close> reports at most that many tokens; the slice of the buffer would panic otherwise.\<close>

definition tokenize :: "llama_env \<Rightarrow> string + nat" where
  "tokenize e =
     (if 0 < le_need e then Inl ''tokenize: unexpected positive count''
      else if le_need e = 0 then Inl ''tokenize: prompt produced no tokens''
      else if le_got e < 0 then Inl ''tokenize failed''
      else Inr (nat (le_got e)))"

definition finish :: "nat \<Rightarrow> nat \<Rightarrow> Token \<Rightarrow> Token" where
  "finish tokens generated t = t\<lparr>tk_Done := True, tk_PromptTokens := int tokens, tk_CompletionTokens := int generated\<rparr>"

text \<open>\<open>k\<close> turns are left, \<open>i\<close> is the loop counter, \<open>sb\<close> the text so far.\<close>

fun gen_loop :: "(nat \<Rightarrow> llama_step) \<Rightarrow> string list \<Rightarrow> nat \<Rightarrow> nat \<Rightarrow> nat \<Rightarrow> string \<Rightarrow> nat \<Rightarrow> Token list" where
  "gen_loop st stops tokens 0 i sb generated = [finish tokens generated (zero_Token\<lparr>tk_Reason := ''length''\<rparr>)]"
| "gen_loop st stops tokens (Suc k) i sb generated =
     (if ls_done (st i)
      then [finish tokens generated (zero_Token\<lparr>tk_Reason := ''stop'', tk_Err := Some ''context done''\<rparr>)]
      else if ls_eog (st i) then [finish tokens generated (zero_Token\<lparr>tk_Reason := ''stop''\<rparr>)]
      else
        (case ls_piece (st i) of
           None \<Rightarrow> [finish tokens generated (zero_Token\<lparr>tk_Err := Some ''token_to_piece failed''\<rparr>)]
         | Some piece \<Rightarrow>
             (let emitted = length sb; sb' = sb @ piece
              in case indexAnyStop sb' stops of
                   Some idx \<Rightarrow>
                     (if emitted < idx then [zero_Token\<lparr>tk_Text := drop emitted (take idx sb')\<rparr>] else []) @
                     [finish tokens (generated + 1) (zero_Token\<lparr>tk_Reason := ''stop''\<rparr>)]
                 | None \<Rightarrow>
                     zero_Token\<lparr>tk_Text := piece\<rparr> #
                     (if ls_decode (st i) \<noteq> 0
                      then [finish tokens (generated + 1) (zero_Token\<lparr>tk_Err := Some ''decode failed''\<rparr>)]
                      else gen_loop st stops tokens k (i + 1) sb' (generated + 1)))))"

definition max_tokens :: "GenerateRequest \<Rightarrow> nat" where
  "max_tokens req = (if gr_MaxTokens req \<le> 0 then 512 else nat (gr_MaxTokens req))"

definition generate :: "llama_env \<Rightarrow> GenerateRequest \<Rightarrow> nat \<Rightarrow> Token list" where
  "generate e req tokens =
     (if le_prefill e \<noteq> 0
      then [zero_Token\<lparr>tk_Done := True, tk_PromptTokens := int tokens, tk_Err := Some ''prefill decode failed''\<rparr>]
      else gen_loop (le_step e) (gr_Stop req) tokens (max_tokens req) 0 [] 0)"

definition Generate :: "llama_env \<Rightarrow> GenerateRequest \<Rightarrow> string + Token list" where
  "Generate e req =
     (if le_closed e then Inl ''model is closed''
      else case tokenize e of Inl err \<Rightarrow> Inl err | Inr tokens \<Rightarrow> Inr (generate e req tokens))"

text \<open>
  \<^verbatim>\<open>ApplyChatTemplate\<close>: llama.cpp is asked with a buffer of a given size and answers how much it needs;
  the buffer is grown once. \<open>apply\<close> is that call, \<open>None\<close> the absence of a template.
\<close>

fun template_loop :: "(nat \<Rightarrow> int \<times> string) \<Rightarrow> nat \<Rightarrow> nat \<Rightarrow> string + string" where
  "template_loop ask 0 sz = Inl ''chat template did not fit after retry''"
| "template_loop ask (Suc attempts) sz =
     (let (n, buf) = ask sz
      in if n < 0 then Inl ''apply chat template failed''
         else if nat n \<le> sz then Inr (take (nat n) buf)
         else template_loop ask attempts (nat n + 1))"

definition ApplyChatTemplate :: "(nat \<Rightarrow> int \<times> string) option \<Rightarrow> ChatMessage list \<Rightarrow> string + string" where
  "ApplyChatTemplate tmpl msgs =
     (if msgs = [] then Inl ''no messages''
      else case tmpl of
             None \<Rightarrow> Inl ''model has no chat template''
           | Some ask \<Rightarrow>
               template_loop ask 2 (2 * sum_list (map (\<lambda>m. length (cm_Role m) + length (cm_Content m)) msgs) + 512))"

text \<open>The template fits in two attempts whenever the answer does not depend on the size of the buffer.\<close>

lemma ApplyChatTemplate_fits:
  assumes "msgs \<noteq> []" and "\<And>sz. ask sz = (int (length text), take sz text)"
  shows "ApplyChatTemplate (Some ask) msgs = Inr text"
proof -
  have "template_loop ask (Suc (Suc 0)) sz = Inr text" for sz
    using assms(2) by simp
  then have "template_loop ask 2 sz = Inr text" for sz by (simp only: numeral_2_eq_2)
  then show ?thesis using assms(1) by (simp add: ApplyChatTemplate_def)
qed

subsection \<open>The contract of a generation\<close>

text \<open>The text of the first \<open>n\<close> sampled tokens, and the text handed on.\<close>

definition sampled_text :: "(nat \<Rightarrow> llama_step) \<Rightarrow> nat \<Rightarrow> string" where
  "sampled_text st n = concat (map (\<lambda>i. the (ls_piece (st i))) [0..<n])"

definition sent_text :: "Token list \<Rightarrow> string" where
  "sent_text toks = concat (map tk_Text toks)"

lemma sampled_text_simps [simp]:
  "sampled_text st 0 = []" "sampled_text st (Suc n) = sampled_text st n @ the (ls_piece (st n))"
  by (simp_all add: sampled_text_def)

lemma token_fields [simp]:
  "tk_Text (finish p g t) = tk_Text t" "tk_Reason (finish p g t) = tk_Reason t" "tk_Err (finish p g t) = tk_Err t"
  "tk_Done (finish p g t)" "tk_PromptTokens (finish p g t) = int p" "tk_CompletionTokens (finish p g t) = int g"
  "tk_Text zero_Token = []" "\<not> tk_Done zero_Token" "tk_Err zero_Token = None" "tk_Reason zero_Token = []"
  by (simp_all add: finish_def zero_Token_def)

text \<open>
  What a generation that counted \<open>g\<close> tokens has handed on: all of them, or, when the last one completed a
  stop sequence, everything before it that had not gone out already.
\<close>

definition text_upto :: "(nat \<Rightarrow> llama_step) \<Rightarrow> string list \<Rightarrow> nat \<Rightarrow> string" where
  "text_upto st stops g =
     (case indexAnyStop (sampled_text st g) stops of
        None \<Rightarrow> sampled_text st g
      | Some idx \<Rightarrow> take (max idx (length (sampled_text st (g - 1)))) (sampled_text st g))"

definition generation :: "(nat \<Rightarrow> llama_step) \<Rightarrow> string list \<Rightarrow> nat \<Rightarrow> nat \<Rightarrow> nat \<Rightarrow> Token list \<Rightarrow> bool" where
  "generation st stops tokens limit g toks \<longleftrightarrow>
     g \<le> limit \<and> tk_PromptTokens (last toks) = int tokens \<and> tk_CompletionTokens (last toks) = int g \<and>
     (tk_Reason (last toks) = ''length'' \<longrightarrow> g = limit) \<and>
     (tk_Err (last toks) = None \<longrightarrow> tk_Reason (last toks) \<in> {''stop'', ''length''})"

text \<open>The tokens handed on from where the text was \<open>sb\<close>: one final token, last, and the rest of the text.\<close>

definition completes :: "(nat \<Rightarrow> llama_step) \<Rightarrow> string list \<Rightarrow> nat \<Rightarrow> nat \<Rightarrow> string \<Rightarrow> Token list \<Rightarrow> bool" where
  "completes st stops tokens limit sb toks \<longleftrightarrow>
     (\<exists>g us t. toks = us @ [t] \<and> tk_Done t \<and> (\<forall>u \<in> set us. \<not> tk_Done u) \<and>
        generation st stops tokens limit g toks \<and> sb @ sent_text toks = text_upto st stops g)"

lemma completes_end:
  assumes "indexAnyStop (sampled_text st i) stops = None" and "i \<le> limit" and "tk_Text t = []"
    and "tk_Reason t = ''length'' \<longrightarrow> i = limit" and "tk_Err t = None \<longrightarrow> tk_Reason t \<in> {''stop'', ''length''}"
  shows "completes st stops tokens limit (sampled_text st i) [finish tokens i t]"
  unfolding completes_def using assms
  by (intro exI [of _ i] exI [of _ "[]"]) (simp add: generation_def sent_text_def text_upto_def)

lemma completes_stop:
  assumes "ls_piece (st i) = Some piece" and "indexAnyStop (sampled_text st i @ piece) stops = Some idx" and "i < limit"
  shows "completes st stops tokens limit (sampled_text st i)
    ((if length (sampled_text st i) < idx
      then [zero_Token\<lparr>tk_Text := drop (length (sampled_text st i)) (take idx (sampled_text st i @ piece))\<rparr>] else []) @
     [finish tokens (Suc i) (zero_Token\<lparr>tk_Reason := ''stop''\<rparr>)])"
    (is "completes _ _ _ _ ?t (?us @ [?fin])")
proof -
  have "idx \<le> length (?t @ piece)"
    using indexAnyStop_least [of "?t @ piece" stops] assms(2) by (auto simp: least_pos_def stop_at_def occurs_at_def)
  then have "?t @ drop (length ?t) (take idx (?t @ piece)) = take (max idx (length ?t)) (?t @ piece)"
    by (simp add: max_def take_append drop_append)
  then have "?t @ sent_text (?us @ [?fin]) = text_upto st stops (Suc i)"
    using assms(1,2) by (simp add: sent_text_def text_upto_def max_def)
  moreover have "generation st stops tokens limit (Suc i) (?us @ [?fin])"
    using assms(3) by (simp add: generation_def)
  moreover have "\<forall>u \<in> set ?us. \<not> tk_Done u" by simp
  ultimately show ?thesis unfolding completes_def using token_fields(4) by blast
qed

lemma completes_decode_failed:
  assumes "ls_piece (st i) = Some piece" and "indexAnyStop (sampled_text st i @ piece) stops = None" and "i < limit"
    and "tk_Text t = []" and "tk_Reason t \<noteq> ''length''" and "tk_Err t \<noteq> None"
  shows "completes st stops tokens limit (sampled_text st i) [zero_Token\<lparr>tk_Text := piece\<rparr>, finish tokens (Suc i) t]"
  unfolding completes_def using assms
  by (intro exI [of _ "Suc i"] exI [of _ "[zero_Token\<lparr>tk_Text := piece\<rparr>]"])
    (auto simp: generation_def sent_text_def text_upto_def)

lemma completes_piece:
  assumes "completes st stops tokens limit (sb @ piece) toks"
  shows "completes st stops tokens limit sb (zero_Token\<lparr>tk_Text := piece\<rparr> # toks)"
proof -
  from assms obtain g us t where "toks = us @ [t]" "tk_Done t" "\<forall>u \<in> set us. \<not> tk_Done u"
    "generation st stops tokens limit g toks" "(sb @ piece) @ sent_text toks = text_upto st stops g"
    unfolding completes_def by blast
  then show ?thesis unfolding completes_def
    by (intro exI [of _ g] exI [of _ "zero_Token\<lparr>tk_Text := piece\<rparr> # us"] exI [of _ t])
      (simp add: generation_def sent_text_def)
qed

lemma gen_loop_contract:
  assumes "indexAnyStop (sampled_text st i) stops = None"
  shows "completes st stops tokens (i + k) (sampled_text st i) (gen_loop st stops tokens k i (sampled_text st i) i)"
  using assms
proof (induction k arbitrary: i)
  case 0
  then show ?case by (simp add: completes_end)
next
  case (Suc k)
  show ?case
  proof (cases "ls_done (st i) \<or> ls_eog (st i) \<or> ls_piece (st i) = None")
    case True
    then show ?thesis using Suc.prems by (auto simp: completes_end)
  next
    case False
    then obtain piece where p: "ls_piece (st i) = Some piece" "\<not> ls_done (st i)" "\<not> ls_eog (st i)" by auto
    show ?thesis
    proof (cases "indexAnyStop (sampled_text st i @ piece) stops")
      case (Some idx)
      then show ?thesis using p completes_stop [of st i piece stops idx "i + Suc k" tokens] by simp
    next
      case None
      with Suc.IH [of "Suc i"] p show ?thesis
        by (auto simp: completes_decode_failed intro: completes_piece)
    qed
  qed
qed

lemma Generate_tokens:
  assumes "Generate e req = Inr toks"
  obtains tokens where "tokenize e = Inr tokens" and "toks = generate e req tokens"
  using assms by (auto simp: Generate_def split: if_splits sum.splits)

lemma generate_contract:
  "\<exists>g us t. generate e req tokens = us @ [t] \<and> tk_Done t \<and> (\<forall>u \<in> set us. \<not> tk_Done u) \<and>
     generation (le_step e) (gr_Stop req) tokens (max_tokens req) g (us @ [t]) \<and>
     sent_text (us @ [t]) = text_upto (le_step e) (gr_Stop req) g"
proof (cases "le_prefill e = 0")
  case True
  then show ?thesis
    using gen_loop_contract [of "le_step e" 0 "gr_Stop req" tokens "max_tokens req"]
    by (auto simp: generate_def completes_def)
next
  case False
  then show ?thesis
    by (intro exI [of _ 0] exI [of _ "[]"]) (simp add: generate_def generation_def sent_text_def text_upto_def zero_Token_def)
qed

text \<open>A generation is a stream with one terminal update, like the runners' streams.\<close>

interpretation generation_stream: update_stream "\<lambda>e. generate e req tokens" tk_Done for req tokens
  using generate_contract by unfold_locales blast


definition demo_llama :: llama_env where
  "demo_llama = \<lparr>le_closed = False, le_need = -3, le_got = 3, le_prefill = 0,
     le_step = (\<lambda>i. \<lparr>ls_done = False, ls_eog = False, ls_piece = Some (if i = 0 then ''ab'' else if i = 1 then ''E'' else ''ND''),
       ls_decode = 0\<rparr>)\<rparr>"

definition demo_generate :: GenerateRequest where
  "demo_generate = \<lparr>gr_Prompt = ''hi'', gr_MaxTokens = 5, gr_Temperature = 0, gr_Stop = [''END'']\<rparr>"

lemma demo_Generate:
  "Generate demo_llama demo_generate = Inr [zero_Token\<lparr>tk_Text := ''ab''\<rparr>, zero_Token\<lparr>tk_Text := ''E''\<rparr>,
     finish 3 3 (zero_Token\<lparr>tk_Reason := ''stop''\<rparr>)]"
  by (simp add: Generate_def demo_llama_def tokenize_def generate_def demo_generate_def max_tokens_def
      eval_nat_numeral indexAnyStop_def HasPrefix_def)


text \<open>A stop sequence that is split across tokens is not held back. When the token that completes it
  is not the one it begins in, the beginning of the stop sequence has been sent already: the client
  receives all the text up to that last token instead of the text before the stop sequence.\<close>

theorem split_stop_sequence_leaks:
  assumes "Generate e req = Inr toks" and "tk_CompletionTokens (last toks) = int (Suc n)"
    and "indexAnyStop (sampled_text (le_step e) (Suc n)) (gr_Stop req) = Some idx"
    and "idx < length (sampled_text (le_step e) n)"
  shows "sent_text toks = sampled_text (le_step e) n \<and> idx < length (sent_text toks)"
proof -
  obtain tokens where "toks = generate e req tokens"
    using assms(1) by (rule Generate_tokens)
  then obtain g where "tk_CompletionTokens (last toks) = int g" "sent_text toks = text_upto (le_step e) (gr_Stop req) g"
    using generate_contract [of e req tokens] by (auto simp: generation_def)
  moreover from this have "g = Suc n" using assms(2) by (metis of_nat_eq_iff)
  ultimately show ?thesis using assms(3,4) by (simp add: text_upto_def)
qed

theorem split_stop_sequence_leaks_witness:
  "\<exists>toks. Generate demo_llama demo_generate = Inr toks \<and> sent_text toks = ''abE''"
proof -
  have "indexAnyStop (sampled_text (le_step demo_llama) (Suc 2)) (gr_Stop demo_generate) = Some 2"
    by (simp add: demo_llama_def demo_generate_def sampled_text_def eval_nat_numeral indexAnyStop_def HasPrefix_def)
  moreover have "sampled_text (le_step demo_llama) 2 = ''abE''"
    by (simp add: demo_llama_def sampled_text_def eval_nat_numeral)
  ultimately show ?thesis
    using split_stop_sequence_leaks [OF demo_Generate, of 2 2] demo_Generate by simp
qed

text \<open>The search for stop sequences is exact: it returns the first position at which any non-empty stop
  sequence occurs in the text, and nothing exactly when none occurs anywhere; empty stop sequences are
  ignored.\<close>

theorem indexAnyStop_exact:
  "indexAnyStop s stops =
     (if \<exists>i. stop_at s stops i then Some (LEAST i. stop_at s stops i) else None)"
proof (cases "indexAnyStop s stops")
  case None
  with indexAnyStop_least [of s stops] show ?thesis by (simp add: least_pos_def)
next
  case (Some i)
  with indexAnyStop_least [of s stops] have i: "stop_at s stops i" "\<forall>j < i. \<not> stop_at s stops j"
    by (simp_all add: least_pos_def)
  then have "(LEAST i. stop_at s stops i) = i"
    by (intro Least_equality) (auto simp: not_le [symmetric])
  with i Some show ?thesis by auto
qed

end
