(* ===== verification/EngineServer.thy ===== *)
theory EngineServer
  imports EngineModel
begin

text \<open>
  The OpenAI-compatible HTTP server around one loaded model (\<^verbatim>\<open>agent/internal/engine/server.go\<close>).
  Requests are serialised by a mutex, so a handler is one step. The model behind the \<^verbatim>\<open>Model\<close> interface,
  the JSON decoder and encoder, the clock and the random IDs are arguments.
\<close>

subsection \<open>Wire types\<close>

record chatMessage =
  msg_role :: string
  msg_content :: string

text \<open>\<^verbatim>\<open>stop\<close> and \<^verbatim>\<open>prompt\<close> stay raw JSON until they are normalised.\<close>

record chatRequest =
  cr_model :: string
  cr_messages :: "chatMessage list"
  cr_max_tokens :: int
  cr_temperature :: u32
  cr_stream :: bool
  cr_stop :: string

record completionRequest =
  co_model :: string
  co_max_tokens :: int
  co_temperature :: u32
  co_stream :: bool
  co_prompt :: string
  co_stop :: string

record engine_usage =
  eu_prompt_tokens :: int
  eu_completion_tokens :: int
  eu_total_tokens :: int

definition zero_usage :: engine_usage where
  "zero_usage = \<lparr>eu_prompt_tokens = 0, eu_completion_tokens = 0, eu_total_tokens = 0\<rparr>"

definition usageOf :: "Token \<Rightarrow> engine_usage" where
  "usageOf t = \<lparr>eu_prompt_tokens = tk_PromptTokens t, eu_completion_tokens = tk_CompletionTokens t,
     eu_total_tokens = tk_PromptTokens t + tk_CompletionTokens t\<rparr>"

record chatChoice =
  cc_index :: int
  cc_message :: "chatMessage option"
  cc_finish_reason :: string

record chatResponse =
  cp_id :: string
  cp_object :: string
  cp_created :: int
  cp_model :: string
  cp_choices :: "chatChoice list"
  cp_usage :: "engine_usage option"

record streamChoice =
  sc_index :: int
  sc_delta :: "chatMessage option"
  sc_finish_reason :: "string option"

record streamChunk =
  sk_id :: string
  sk_object :: string
  sk_created :: int
  sk_model :: string
  sk_choices :: "streamChoice list"
  sk_usage :: "engine_usage option"

record completionChoice =
  ch_index :: int
  ch_text :: string
  ch_finish_reason :: string

record completionResponse =
  cl_id :: string
  cl_object :: string
  cl_created :: int
  cl_model :: string
  cl_choices :: "completionChoice list"
  cl_usage :: "engine_usage option"

text \<open>The chunks of a streamed completion have the fields of the response.\<close>

type_synonym completionChunk = completionResponse

record modelInfo =
  mi_id :: string
  mi_object :: string
  mi_created :: int
  mi_owned_by :: string

datatype engine_body =
    HealthBody
  | ModelsBody "modelInfo list"
  | ErrorBody string string
  | ChatBody chatResponse
  | CompletionBody completionResponse

datatype engine_event = ChatChunk streamChunk | TextChunk completionChunk | DoneEvent

text \<open>A response is a status with one JSON body, or a stream of events under status 200.\<close>

datatype engine_reply = JSONReply nat engine_body | EventStream "engine_event list"

definition writeError :: "nat \<Rightarrow> string \<Rightarrow> string \<Rightarrow> engine_reply" where
  "writeError code kind msg = JSONReply code (ErrorBody kind msg)"

subsection \<open>Normalising requests\<close>

text \<open>\<^verbatim>\<open>json.Unmarshal\<close> into a string and into a slice of strings.\<close>

record json_strings =
  js_one :: "string \<Rightarrow> string option"
  js_many :: "string \<Rightarrow> string list option"

definition stopFrom :: "json_strings \<Rightarrow> string \<Rightarrow> string list" where
  "stopFrom js raw =
     (if raw = [] then []
      else case js_one js raw of
             Some one \<Rightarrow> if one = [] then [] else [one]
           | None \<Rightarrow> (case js_many js raw of Some many \<Rightarrow> many | None \<Rightarrow> []))"

definition promptText :: "json_strings \<Rightarrow> completionRequest \<Rightarrow> string + string" where
  "promptText js r =
     (if co_prompt r = [] then Inl ''prompt is required''
      else case js_one js (co_prompt r) of
             Some one \<Rightarrow> if one = [] then Inl ''prompt must not be empty'' else Inr one
           | None \<Rightarrow>
               (case js_many js (co_prompt r) of
                  Some [] \<Rightarrow> Inl ''prompt must not be empty''
                | Some [p] \<Rightarrow> Inr p
                | Some _ \<Rightarrow> Inl ''batched prompts are not supported; send one prompt per request''
                | None \<Rightarrow> Inl ''prompt must be a string or an array of strings''))"

subsection \<open>Consuming a generation\<close>

text \<open>What a token does to the finish reason and the usage collected so far.\<close>

definition note_token :: "Token \<Rightarrow> string \<times> engine_usage \<Rightarrow> string \<times> engine_usage" where
  "note_token tok fu =
     (if tk_Done tok then (if tk_Reason tok \<noteq> [] then tk_Reason tok else fst fu, usageOf tok) else fu)"

fun block_loop :: "Token list \<Rightarrow> string \<Rightarrow> string \<times> engine_usage \<Rightarrow> string + (string \<times> string \<times> engine_usage)" where
  "block_loop [] sb fu = Inr (sb, fu)"
| "block_loop (tok # toks) sb fu =
     (case tk_Err tok of
        Some err \<Rightarrow> Inl err
      | None \<Rightarrow> block_loop toks (sb @ tk_Text tok) (note_token tok fu))"

fun stream_loop ::
  "(string \<Rightarrow> engine_event) \<Rightarrow> Token list \<Rightarrow> string \<times> engine_usage \<Rightarrow> engine_event list \<times> string \<times> engine_usage" where
  "stream_loop chunk [] fu = ([], fu)"
| "stream_loop chunk (tok # toks) fu =
     (case tk_Err tok of
        Some err \<Rightarrow> ([], fu)
      | None \<Rightarrow>
          (let (evs, fu') = stream_loop chunk toks (note_token tok fu)
           in ((if tk_Text tok \<noteq> [] then [chunk (tk_Text tok)] else []) @ evs, fu')))"

subsection \<open>Answering\<close>

text \<open>
  \<open>se_flusher\<close>: the response writer can flush; \<open>se_id\<close> and \<open>se_created\<close> are the random part of the ID and
  the time in seconds.
\<close>

record server_env =
  se_modelName :: string
  se_flusher :: bool
  se_id :: string
  se_created :: int
  se_apply :: "ChatMessage list \<Rightarrow> string + string"
  se_generate :: "GenerateRequest \<Rightarrow> string + Token list"

definition blockingText :: "server_env \<Rightarrow> GenerateRequest \<Rightarrow> engine_reply" where
  "blockingText e req =
     (case se_generate e req of
        Inl err \<Rightarrow> writeError 500 ''server_error'' err
      | Inr toks \<Rightarrow>
          (case block_loop toks [] (''stop'', zero_usage) of
             Inl err \<Rightarrow> writeError 500 ''server_error'' err
           | Inr (txt, fin, u) \<Rightarrow>
               JSONReply 200 (CompletionBody
                 \<lparr>cl_id = ''cmpl-'' @ se_id e, cl_object = ''text_completion'', cl_created = se_created e,
                  cl_model = se_modelName e,
                  cl_choices = [\<lparr>ch_index = 0, ch_text = txt, ch_finish_reason = fin\<rparr>], cl_usage = Some u\<rparr>)))"

definition text_chunk :: "server_env \<Rightarrow> string \<Rightarrow> string \<Rightarrow> engine_usage option \<Rightarrow> engine_event" where
  "text_chunk e txt fin u = TextChunk
     \<lparr>cl_id = ''cmpl-'' @ se_id e, cl_object = ''text_completion'', cl_created = se_created e, cl_model = se_modelName e,
      cl_choices = [\<lparr>ch_index = 0, ch_text = txt, ch_finish_reason = fin\<rparr>], cl_usage = u\<rparr>"

definition streamText :: "server_env \<Rightarrow> GenerateRequest \<Rightarrow> engine_reply" where
  "streamText e req =
     (if \<not> se_flusher e then writeError 500 ''server_error'' ''streaming unsupported''
      else case se_generate e req of
             Inl err \<Rightarrow> writeError 500 ''server_error'' err
           | Inr toks \<Rightarrow>
               (let (evs, fin, u) = stream_loop (\<lambda>txt. text_chunk e txt [] None) toks (''stop'', zero_usage)
                in EventStream (evs @ [text_chunk e [] fin (Some u), DoneEvent])))"

definition blockingChat :: "server_env \<Rightarrow> GenerateRequest \<Rightarrow> engine_reply" where
  "blockingChat e req =
     (case se_generate e req of
        Inl err \<Rightarrow> writeError 500 ''server_error'' err
      | Inr toks \<Rightarrow>
          (case block_loop toks [] (''stop'', zero_usage) of
             Inl err \<Rightarrow> writeError 500 ''server_error'' err
           | Inr (txt, fin, u) \<Rightarrow>
               JSONReply 200 (ChatBody
                 \<lparr>cp_id = ''chatcmpl-'' @ se_id e, cp_object = ''chat.completion'', cp_created = se_created e,
                  cp_model = se_modelName e,
                  cp_choices = [\<lparr>cc_index = 0,
                    cc_message = Some \<lparr>msg_role = ''assistant'', msg_content = txt\<rparr>, cc_finish_reason = fin\<rparr>],
                  cp_usage = Some u\<rparr>)))"

definition chat_chunk :: "server_env \<Rightarrow> streamChoice list \<Rightarrow> engine_usage option \<Rightarrow> engine_event" where
  "chat_chunk e choices u = ChatChunk
     \<lparr>sk_id = ''chatcmpl-'' @ se_id e, sk_object = ''chat.completion.chunk'', sk_created = se_created e,
      sk_model = se_modelName e, sk_choices = choices, sk_usage = u\<rparr>"

definition delta :: "string \<Rightarrow> string \<Rightarrow> string option \<Rightarrow> streamChoice" where
  "delta role content fin =
     \<lparr>sc_index = 0, sc_delta = Some \<lparr>msg_role = role, msg_content = content\<rparr>, sc_finish_reason = fin\<rparr>"

definition streamChat :: "server_env \<Rightarrow> GenerateRequest \<Rightarrow> engine_reply" where
  "streamChat e req =
     (if \<not> se_flusher e then writeError 500 ''server_error'' ''streaming unsupported''
      else case se_generate e req of
             Inl err \<Rightarrow> writeError 500 ''server_error'' err
           | Inr toks \<Rightarrow>
               (let (evs, fin, u) = stream_loop (\<lambda>txt. chat_chunk e [delta [] txt None] None) toks (''stop'', zero_usage)
                in EventStream (chat_chunk e [delta ''assistant'' [] None] None # evs @
                     [chat_chunk e [delta [] [] (Some fin)] None, chat_chunk e [] (Some u), DoneEvent])))"

subsection \<open>Handlers\<close>

definition wrong_model :: "server_env \<Rightarrow> string \<Rightarrow> bool" where
  "wrong_model e model \<longleftrightarrow> model \<noteq> [] \<and> model \<noteq> se_modelName e"

definition handleChat :: "json_strings \<Rightarrow> server_env \<Rightarrow> chatRequest option \<Rightarrow> engine_reply" where
  "handleChat js e body =
     (case body of
        None \<Rightarrow> writeError 400 ''invalid_request_error'' ''malformed JSON body''
      | Some req \<Rightarrow>
          if cr_messages req = [] then writeError 400 ''invalid_request_error'' ''messages must not be empty''
          else if wrong_model e (cr_model req) then writeError 404 ''model_not_found'' ''this node serves another model''
          else
            (let msgs = map (\<lambda>m. \<lparr>cm_Role = msg_role m, cm_Content = msg_content m\<rparr>) (cr_messages req)
             in case se_apply e msgs of
                  Inl err \<Rightarrow> writeError 500 ''server_error'' err
                | Inr prompt \<Rightarrow>
                    (let genReq = \<lparr>gr_Prompt = prompt, gr_MaxTokens = cr_max_tokens req,
                           gr_Temperature = cr_temperature req, gr_Stop = stopFrom js (cr_stop req)\<rparr>
                     in if cr_stream req then streamChat e genReq else blockingChat e genReq)))"

definition handleCompletion :: "json_strings \<Rightarrow> server_env \<Rightarrow> completionRequest option \<Rightarrow> engine_reply" where
  "handleCompletion js e body =
     (case body of
        None \<Rightarrow> writeError 400 ''invalid_request_error'' ''malformed JSON body''
      | Some req \<Rightarrow>
          (case promptText js req of
             Inl err \<Rightarrow> writeError 400 ''invalid_request_error'' err
           | Inr prompt \<Rightarrow>
               if wrong_model e (co_model req) then writeError 404 ''model_not_found'' ''this node serves another model''
               else
                 (let genReq = \<lparr>gr_Prompt = prompt, gr_MaxTokens = co_max_tokens req,
                        gr_Temperature = co_temperature req, gr_Stop = stopFrom js (co_stop req)\<rparr>
                  in if co_stream req then streamText e genReq else blockingText e genReq)))"

definition engine_handleModels :: "server_env \<Rightarrow> engine_reply" where
  "engine_handleModels e = JSONReply 200 (ModelsBody
     [\<lparr>mi_id = se_modelName e, mi_object = ''model'', mi_created = se_created e, mi_owned_by = ''gridlink''\<rparr>])"

definition handleHealth :: engine_reply where
  "handleHealth = JSONReply 200 HealthBody"

subsection \<open>The event stream on the wire\<close>

text \<open>
  Events as bytes; \<open>marshal\<close> is \<^verbatim>\<open>json.Marshal\<close>, and a chunk it refuses is not sent.
\<close>

definition sendJSON :: "(engine_event \<Rightarrow> string option) \<Rightarrow> engine_event \<Rightarrow> string" where
  "sendJSON marshal ev =
     (case ev of
        DoneEvent \<Rightarrow> ''data: [DONE]'' @ [CHR 0x0A, CHR 0x0A]
      | _ \<Rightarrow> (case marshal ev of None \<Rightarrow> [] | Some b \<Rightarrow> ''data: '' @ b @ [CHR 0x0A, CHR 0x0A]))"

definition sse_bytes :: "(engine_event \<Rightarrow> string option) \<Rightarrow> engine_event list \<Rightarrow> string" where
  "sse_bytes marshal evs = concat (map (sendJSON marshal) evs)"

end
