(* ===== verification/EngineProps.thy ===== *)
theory EngineProps
  imports EngineServer GwProxy
begin

text \<open>
  The properties of the engine server: streaming and blocking answers agree, what a failed generation
  looks like, which requests are refused, and that the gateway meters what the tokenizer counted.
\<close>

subsection \<open>What a stream carries\<close>

fun event_text :: "engine_event \<Rightarrow> string" where
  "event_text (ChatChunk c) = concat (map (\<lambda>ch. case sc_delta ch of None \<Rightarrow> [] | Some d \<Rightarrow> msg_content d) (sk_choices c))"
| "event_text (TextChunk c) = concat (map ch_text (cl_choices c))"
| "event_text DoneEvent = []"

fun event_usage :: "engine_event \<Rightarrow> engine_usage option" where
  "event_usage (ChatChunk c) = sk_usage c"
| "event_usage (TextChunk c) = cl_usage c"
| "event_usage DoneEvent = None"

fun event_finish :: "engine_event \<Rightarrow> string list" where
  "event_finish (ChatChunk c) = List.map_filter sc_finish_reason (sk_choices c)"
| "event_finish (TextChunk c) = filter (\<lambda>f. f \<noteq> []) (map ch_finish_reason (cl_choices c))"
| "event_finish DoneEvent = []"

definition streamed_text :: "engine_event list \<Rightarrow> string" where
  "streamed_text evs = concat (map event_text evs)"

definition streamed_finish :: "engine_event list \<Rightarrow> string list" where
  "streamed_finish evs = concat (map event_finish evs)"

definition streamed_usage :: "engine_event list \<Rightarrow> engine_usage list" where
  "streamed_usage evs = List.map_filter event_usage evs"

lemma chunk_events [simp]:
  "event_text (chat_chunk e [delta role txt fin] u) = txt" "event_text (chat_chunk e [] u) = []"
  "event_usage (chat_chunk e cs u) = u" "event_finish (chat_chunk e [] u) = []"
  "event_finish (chat_chunk e [delta role txt None] u) = []"
  "event_finish (chat_chunk e [delta role txt (Some f)] u) = [f]"
  "event_text (text_chunk e txt f u) = txt" "event_usage (text_chunk e txt f u) = u"
  "event_finish (text_chunk e txt f u) = (if f = [] then [] else [f])"
  "chat_chunk e cs u \<noteq> DoneEvent" "text_chunk e txt f u \<noteq> DoneEvent"
  "DoneEvent \<noteq> chat_chunk e cs u" "DoneEvent \<noteq> text_chunk e txt f u"
  by (simp_all add: chat_chunk_def delta_def text_chunk_def map_filter_simps)

lemma stream_append [simp]:
  "streamed_text (xs @ ys) = streamed_text xs @ streamed_text ys"
  "streamed_finish (xs @ ys) = streamed_finish xs @ streamed_finish ys"
  "streamed_usage (xs @ ys) = streamed_usage xs @ streamed_usage ys"
  "streamed_text (x # xs) = event_text x @ streamed_text xs"
  "streamed_finish (x # xs) = event_finish x @ streamed_finish xs"
  "streamed_usage (x # xs) = (case event_usage x of None \<Rightarrow> [] | Some u \<Rightarrow> [u]) @ streamed_usage xs"
  "streamed_text [] = []" "streamed_finish [] = []" "streamed_usage [] = []"
  by (simp_all add: streamed_text_def streamed_finish_def streamed_usage_def List.map_filter_def split: option.split)

subsection \<open>The two loops\<close>

lemma block_loop_ok:
  "\<forall>t \<in> set toks. tk_Err t = None \<Longrightarrow> block_loop toks sb fu = Inr (sb @ sent_text toks, fold note_token toks fu)"
  by (induction toks sb fu rule: block_loop.induct) (simp_all add: sent_text_def)

lemma block_loop_fails:
  "\<forall>t \<in> set us. tk_Err t = None \<Longrightarrow> tk_Err t = Some err \<Longrightarrow> block_loop (us @ t # ts) sb fu = Inl err"
  by (induction us arbitrary: sb fu) simp_all

lemma stream_loop_until:
  assumes "\<forall>t \<in> set us. tk_Err t = None" and "rest = [] \<or> tk_Err (hd rest) \<noteq> None"
  shows "stream_loop chunk (us @ rest) fu =
    (map chunk (filter (\<lambda>txt. txt \<noteq> []) (map tk_Text us)), fold note_token us fu)"
  using assms
proof (induction us arbitrary: fu)
  case Nil
  then show ?case by (cases rest) (auto split: option.split)
qed simp

lemma concat_nonempty: "concat (filter (\<lambda>txt. txt \<noteq> []) xs) = concat xs"
  by (induction xs) auto

lemma streamed_chunks:
  assumes "\<And>txt. event_text (chunk txt) = txt" "\<And>txt. event_finish (chunk txt) = []" "\<And>txt. event_usage (chunk txt) = None"
  shows "streamed_text (map chunk xs) = concat xs" "streamed_finish (map chunk xs) = []" "streamed_usage (map chunk xs) = []"
  by (induction xs) (simp_all add: assms)

text \<open>What a stream over tokens \<open>us\<close>, cut off by an error or not, amounts to.\<close>

lemma streamChat_events:
  assumes "se_generate e req = Inr (us @ rest)" "se_flusher e" "\<forall>t \<in> set us. tk_Err t = None"
    "rest = [] \<or> tk_Err (hd rest) \<noteq> None" "fold note_token us (''stop'', zero_usage) = (fin, u)"
  obtains evs where "streamChat e req =
      EventStream (evs @ [chat_chunk e [delta [] [] (Some fin)] None, chat_chunk e [] (Some u), DoneEvent])"
    and "streamed_text evs = sent_text us" "streamed_finish evs = []" "streamed_usage evs = []" "DoneEvent \<notin> set evs"
proof -
  let ?chunk = "\<lambda>txt. chat_chunk e [delta [] txt None] None"
  let ?evs = "chat_chunk e [delta ''assistant'' [] None] None # map ?chunk (filter (\<lambda>txt. txt \<noteq> []) (map tk_Text us))"
  have "streamed_text ?evs = sent_text us" "streamed_finish ?evs = []" "streamed_usage ?evs = []"
    using streamed_chunks [of ?chunk] by (simp_all add: sent_text_def concat_nonempty)
  moreover have "DoneEvent \<notin> set ?evs" by auto
  moreover have "streamChat e req =
      EventStream (?evs @ [chat_chunk e [delta [] [] (Some fin)] None, chat_chunk e [] (Some u), DoneEvent])"
    using assms(1,2,5) stream_loop_until [OF assms(3,4), of ?chunk] by (simp add: streamChat_def)
  ultimately show thesis using that by blast
qed

lemma streamText_events:
  assumes "se_generate e req = Inr (us @ rest)" "se_flusher e" "\<forall>t \<in> set us. tk_Err t = None"
    "rest = [] \<or> tk_Err (hd rest) \<noteq> None" "fold note_token us (''stop'', zero_usage) = (fin, u)"
  obtains evs where "streamText e req = EventStream (evs @ [text_chunk e [] fin (Some u), DoneEvent])"
    and "streamed_text evs = sent_text us" "streamed_finish evs = []" "streamed_usage evs = []" "DoneEvent \<notin> set evs"
proof -
  let ?chunk = "\<lambda>txt. text_chunk e txt [] None"
  let ?evs = "map ?chunk (filter (\<lambda>txt. txt \<noteq> []) (map tk_Text us))"
  have "streamed_text ?evs = sent_text us" "streamed_finish ?evs = []" "streamed_usage ?evs = []"
    using streamed_chunks [of ?chunk] by (simp_all add: sent_text_def concat_nonempty)
  moreover have "DoneEvent \<notin> set ?evs" by auto
  moreover have "streamText e req = EventStream (?evs @ [text_chunk e [] fin (Some u), DoneEvent])"
    using assms(1,2,5) stream_loop_until [OF assms(3,4), of ?chunk] by (simp add: streamText_def)
  ultimately show thesis using that by blast
qed

subsection \<open>Streaming and blocking\<close>

lemma note_finish_nonempty: "fst fu \<noteq> [] \<Longrightarrow> fst (fold note_token us fu) \<noteq> []"
  by (induction us arbitrary: fu) (auto simp: note_token_def)


definition demo_server :: server_env where
  "demo_server = \<lparr>se_modelName = ''qwen'', se_flusher = True, se_id = ''0f'', se_created = 7,
     se_apply = \<lambda>_. Inr ''hi'', se_generate = Generate demo_llama\<rparr>"

lemma demo_tokens:
  "se_generate demo_server demo_generate = Inr [zero_Token\<lparr>tk_Text := ''ab''\<rparr>, zero_Token\<lparr>tk_Text := ''E''\<rparr>,
     finish 3 3 (zero_Token\<lparr>tk_Reason := ''stop''\<rparr>)]"
  by (simp add: demo_server_def demo_Generate)


subsection \<open>Metering\<close>

text \<open>What encoding a chunk must look like for a line scanner to read it back.\<close>

definition wire_safe :: "string \<Rightarrow> bool" where
  "wire_safe b \<longleftrightarrow> CHR 0x0A \<notin> set b \<and> (b \<noteq> [] \<longrightarrow> last b \<noteq> CHR 0x0D) \<and> length b + 6 < 2 ^ 20 \<and> b \<noteq> ''[DONE]''"

definition metered :: "engine_usage \<Rightarrow> tokenUsage" where
  "metered u = \<lparr>tu_PromptTokens = of_int (eu_prompt_tokens u), tu_CompletionTokens = of_int (eu_completion_tokens u)\<rparr>"

lemma metered_zero: "metered zero_usage = \<lparr>tu_PromptTokens = 0, tu_CompletionTokens = 0\<rparr>"
  by (simp add: metered_def zero_usage_def)

text \<open>
  The engine's encoder and the gateway's decoder agree on an event: its encoding is one line, and decoding
  finds the usage block that was encoded.
\<close>

definition codec_agrees :: "(engine_event \<Rightarrow> string option) \<Rightarrow> usage_decoder \<Rightarrow> engine_event \<Rightarrow> bool" where
  "codec_agrees marshal unmarshal ev \<longleftrightarrow>
     (case marshal ev of
        None \<Rightarrow> False
      | Some b \<Rightarrow> wire_safe b \<and> unmarshal b = Some (map_option metered (event_usage ev)))"

definition data_line :: "string \<Rightarrow> string" where
  "data_line b = ''data: '' @ b"

lemma data_line_props [simp]:
  "HasPrefix (data_line b) ''data: ''" "TrimPrefix (data_line b) ''data: '' = b" "length (data_line b) = length b + 6"
  "CHR 0x0A \<in> set (data_line b) \<longleftrightarrow> CHR 0x0A \<in> set b"
  "b \<noteq> [] \<longrightarrow> last b \<noteq> CHR 0x0D \<Longrightarrow> dropCR (data_line b) = data_line b"
  by (auto simp: data_line_def HasPrefix_def TrimPrefix_def dropCR_def)

definition data_lines :: "string list \<Rightarrow> string list" where
  "data_lines bs = concat (map (\<lambda>b. [data_line b, []]) bs)"

lemma Split_events:
  "\<forall>l \<in> set ls. CHR 0x0A \<notin> set l \<Longrightarrow>
     Split (CHR 0x0A) (concat (map (\<lambda>l. l @ [CHR 0x0A, CHR 0x0A]) ls)) = concat (map (\<lambda>l. [l, []]) ls) @ [[]]"
  by (induction ls) (simp_all add: Split_cons)

lemma scan_lines_events:
  assumes "\<forall>b \<in> set bs. CHR 0x0A \<notin> set b \<and> (b \<noteq> [] \<longrightarrow> last b \<noteq> CHR 0x0D) \<and> length b + 6 < 2 ^ 20"
  shows "scan_lines (2 ^ 20) (concat (map (\<lambda>b. data_line b @ [CHR 0x0A, CHR 0x0A]) bs)) = data_lines bs"
proof -
  have "Split (CHR 0x0A) (concat (map (\<lambda>b. data_line b @ [CHR 0x0A, CHR 0x0A]) bs)) = data_lines bs @ [[]]"
    using assms Split_events [of "map data_line bs"] by (simp add: data_lines_def comp_def)
  then have "raw_lines (concat (map (\<lambda>b. data_line b @ [CHR 0x0A, CHR 0x0A]) bs)) = data_lines bs"
    by (simp add: raw_lines_def)
  moreover have "takeWhile (\<lambda>l. length l < 2 ^ 20) (data_lines bs) = data_lines bs"
    using assms by (auto simp: data_lines_def takeWhile_eq_all_conv)
  moreover have "map dropCR (data_lines bs) = data_lines bs"
    using assms by (intro map_idI) (auto simp: data_lines_def dropCR_def [of "[]"])
  ultimately show ?thesis unfolding scan_lines_def by (simp only:)
qed

lemma scanSSE_data:
  "\<forall>b \<in> set bs. b \<noteq> ''[DONE]'' \<Longrightarrow>
     scanSSE decode (data_lines bs @ rest) got =
       scanSSE decode rest (fold (\<lambda>b got. case decode b of Some (Some u) \<Rightarrow> Some u | _ \<Rightarrow> got) bs got)"
proof (induction bs arbitrary: got)
  case (Cons b bs)
  have "\<not> HasPrefix [] ''data: ''" by (simp add: HasPrefix_def)
  with Cons show ?case by (auto simp: data_lines_def split: option.split)
qed (simp add: data_lines_def)

lemma fold_usage:
  assumes "\<forall>ev \<in> set evs. codec_agrees marshal unmarshal ev"
  shows "fold (\<lambda>b got. case unmarshal b of Some (Some u) \<Rightarrow> Some u | _ \<Rightarrow> got) (map (the \<circ> marshal) evs) got =
    (if streamed_usage evs = [] then got else Some (metered (last (streamed_usage evs))))"
  using assms
proof (induction evs arbitrary: got)
  case (Cons ev evs)
  then have "unmarshal (the (marshal ev)) = Some (map_option metered (event_usage ev))"
    by (auto simp: codec_agrees_def split: option.splits)
  with Cons show ?case by (simp split: option.split)
qed simp

lemma capture_stream:
  assumes "DoneEvent \<notin> set evs" and "\<forall>ev \<in> set (evs @ [DoneEvent]). ev \<noteq> DoneEvent \<longrightarrow> codec_agrees marshal unmarshal ev"
  shows "capture unmarshal decodeFirst True (sse_bytes marshal (evs @ [DoneEvent])) =
    (if streamed_usage evs = [] then None else Some (metered (last (streamed_usage evs))))"
proof -
  let ?bs = "map (the \<circ> marshal) evs"
  have agree: "\<forall>ev \<in> set evs. ev \<noteq> DoneEvent \<and> codec_agrees marshal unmarshal ev" using assms by auto
  have safe: "\<forall>b \<in> set ?bs. wire_safe b" using agree by (auto simp: codec_agrees_def split: option.splits)
  have "sendJSON marshal ev = data_line (the (marshal ev)) @ [CHR 0x0A, CHR 0x0A]" if "ev \<in> set evs" for ev
    using agree that by (cases ev) (auto simp: sendJSON_def data_line_def codec_agrees_def split: option.splits)
  then have bytes: "sse_bytes marshal (evs @ [DoneEvent]) =
      concat (map (\<lambda>b. data_line b @ [CHR 0x0A, CHR 0x0A]) (?bs @ [''[DONE]'']))"
    by (simp add: sse_bytes_def comp_def sendJSON_def data_line_def cong: map_cong)
  have lines: "scan_lines (2 ^ 20) (sse_bytes marshal (evs @ [DoneEvent])) = data_lines ?bs @ [data_line ''[DONE]'', []]"
    unfolding bytes using safe by (subst scan_lines_events) (auto simp: wire_safe_def data_lines_def)
  have "scanSSE unmarshal (data_lines ?bs @ [data_line ''[DONE]'', []]) None =
      fold (\<lambda>b got. case unmarshal b of Some (Some u) \<Rightarrow> Some u | _ \<Rightarrow> got) ?bs None"
    using safe by (subst scanSSE_data) (auto simp: wire_safe_def)
  then show ?thesis
    unfolding capture_def lines using fold_usage [of evs marshal unmarshal None] agree by simp
qed

lemma gen_loop_errors: "\<forall>t \<in> set (butlast (gen_loop st stops tokens k i sb g)). tk_Err t = None"
  by (induction st stops tokens k i sb g rule: gen_loop.induct) (auto simp: Let_def split: option.split)

lemma generation_shape:
  assumes "Generate le req = Inr toks"
  obtains us t where "toks = us @ [t]" "tk_Done t" "\<forall>u \<in> set us. \<not> tk_Done u" "\<forall>u \<in> set us. tk_Err u = None"
proof -
  obtain tokens where g: "toks = generate le req tokens" using assms by (rule Generate_tokens)
  obtain us t where "toks = us @ [t]" "tk_Done t" "\<forall>u \<in> set us. \<not> tk_Done u"
    using generation_stream.one_terminal [of le req tokens] g by blast
  moreover have "\<forall>u \<in> set (butlast toks). tk_Err u = None"
    unfolding g generate_def using gen_loop_errors by auto
  ultimately show thesis using that by simp
qed

lemma note_running: "\<forall>u \<in> set us. \<not> tk_Done u \<Longrightarrow> fold note_token us fu = fu"
  by (induction us arbitrary: fu) (simp_all add: note_token_def)

text \<open>The stream of either handler: what precedes the closing events and what they say.\<close>

lemma stream_shape:
  assumes "se_generate e req = Inr (us @ rest)" "se_flusher e" "\<forall>t \<in> set us. tk_Err t = None"
    "rest = [] \<or> tk_Err (hd rest) \<noteq> None" "fold note_token us (''stop'', zero_usage) = (fin, u)" "fin \<noteq> []"
    and "streamChat e req = EventStream evs \<or> streamText e req = EventStream evs"
  obtains bevs where "evs = bevs @ [DoneEvent]" "DoneEvent \<notin> set bevs" "streamed_usage bevs = [u]" "streamed_finish bevs = [fin]"
    "streamed_text bevs = sent_text us"
proof -
  obtain cevs where c: "streamChat e req = EventStream (cevs @ [chat_chunk e [delta [] [] (Some fin)] None, chat_chunk e [] (Some u), DoneEvent])"
    "streamed_text cevs = sent_text us" "streamed_finish cevs = []" "streamed_usage cevs = []" "DoneEvent \<notin> set cevs"
    using streamChat_events [OF assms(1-5)] .
  obtain tevs where t: "streamText e req = EventStream (tevs @ [text_chunk e [] fin (Some u), DoneEvent])"
    "streamed_text tevs = sent_text us" "streamed_finish tevs = []" "streamed_usage tevs = []" "DoneEvent \<notin> set tevs"
    using streamText_events [OF assms(1-5)] .
  show thesis
    using assms(7)
  proof
    assume "streamChat e req = EventStream evs"
    with c show thesis
      by (intro that [of "cevs @ [chat_chunk e [delta [] [] (Some fin)] None, chat_chunk e [] (Some u)]"])
        simp_all
  next
    assume "streamText e req = EventStream evs"
    with t assms(6) show thesis
      by (intro that [of "tevs @ [text_chunk e [] fin (Some u)]"]) simp_all
  qed
qed


text \<open>A codec for the demonstration: it writes the token counts and reads those of the demonstration back.\<close>

definition demo_marshal :: "engine_event \<Rightarrow> string option" where
  "demo_marshal ev = Some (case event_usage ev of None \<Rightarrow> ''{}''
     | Some u \<Rightarrow> if eu_prompt_tokens u = 3 \<and> eu_completion_tokens u = 3 then ''{3,3}'' else ''{0,0}'')"

definition demo_unmarshal :: usage_decoder where
  "demo_unmarshal b = Some (if b = ''{}'' then None
     else if b = ''{3,3}'' then Some \<lparr>tu_PromptTokens = 3, tu_CompletionTokens = 3\<rparr>
     else Some \<lparr>tu_PromptTokens = 0, tu_CompletionTokens = 0\<rparr>)"

lemma demo_codec:
  "event_usage ev \<in> {None, Some zero_usage, Some \<lparr>eu_prompt_tokens = 3, eu_completion_tokens = 3, eu_total_tokens = 6\<rparr>}
     \<Longrightarrow> codec_agrees demo_marshal demo_unmarshal ev"
  by (auto simp: codec_agrees_def demo_marshal_def demo_unmarshal_def wire_safe_def metered_def zero_usage_def)

lemma demo_stream:
  "streamChat demo_server demo_generate = EventStream
     [chat_chunk demo_server [delta ''assistant'' [] None] None, chat_chunk demo_server [delta [] ''ab'' None] None,
      chat_chunk demo_server [delta [] ''E'' None] None, chat_chunk demo_server [delta [] [] (Some ''stop'')] None,
      chat_chunk demo_server [] (Some \<lparr>eu_prompt_tokens = 3, eu_completion_tokens = 3, eu_total_tokens = 6\<rparr>), DoneEvent]"
  using demo_tokens by (simp add: streamChat_def note_token_def usageOf_def) (simp add: demo_server_def)


text \<open>A generation that fails half way is reported as finished. The blocking answer is a 500, but the
  streamed one ends with finish reason \<^verbatim>\<open>stop\<close>, a usage block of zeros and the end marker, so the client
  takes the truncated text for complete and the gateway bills zero tokens for it.\<close>

theorem failed_stream_looks_complete:
  assumes "se_generate e = Generate le" and "Generate le req = Inr toks" and "tk_Err (last toks) = Some err"
    and "se_flusher e" and "streamChat e req = EventStream evs \<or> streamText e req = EventStream evs"
    and "\<forall>ev \<in> set evs. ev \<noteq> DoneEvent \<longrightarrow> codec_agrees marshal unmarshal ev"
  shows "blockingChat e req = writeError 500 ''server_error'' err \<and>
    blockingText e req = writeError 500 ''server_error'' err \<and>
    streamed_finish evs = [''stop''] \<and> last evs = DoneEvent \<and> streamed_text evs = sent_text (butlast toks) \<and>
    capture unmarshal decodeFirst True (sse_bytes marshal evs) = Some \<lparr>tu_PromptTokens = 0, tu_CompletionTokens = 0\<rparr>"
proof -
  obtain us t where t: "toks = us @ [t]" "tk_Done t" "\<forall>u \<in> set us. \<not> tk_Done u" "\<forall>u \<in> set us. tk_Err u = None"
    using assms(2) by (rule generation_shape)
  have gen: "se_generate e req = Inr (us @ [t])" using assms(1,2) t(1) by simp
  have err: "tk_Err t = Some err" using assms(3) t(1) by simp
  have "block_loop (us @ [t]) [] (''stop'', zero_usage) = Inl err" by (rule block_loop_fails [OF t(4) err])
  moreover obtain bevs where "evs = bevs @ [DoneEvent]" "DoneEvent \<notin> set bevs" "streamed_usage bevs = [zero_usage]"
    "streamed_finish bevs = [''stop'']" "streamed_text bevs = sent_text us"
    using stream_shape [OF gen assms(4) t(4) _ note_running [OF t(3)] _ assms(5)] err by force
  ultimately show ?thesis
    using capture_stream [of bevs marshal unmarshal decodeFirst] assms(6) gen t(1)
    by (simp add: blockingChat_def blockingText_def metered_zero)
qed

definition demo_failing :: llama_env where
  "demo_failing = demo_llama\<lparr>le_step := \<lambda>i. \<lparr>ls_done = False, ls_eog = False, ls_piece = Some ''ab'', ls_decode = 1\<rparr>\<rparr>"

lemma demo_failing_tokens:
  "Generate demo_failing demo_generate = Inr [zero_Token\<lparr>tk_Text := ''ab''\<rparr>,
     finish 3 1 (zero_Token\<lparr>tk_Err := Some ''decode failed''\<rparr>)]"
  by (simp add: Generate_def demo_failing_def demo_llama_def tokenize_def generate_def demo_generate_def max_tokens_def
      eval_nat_numeral indexAnyStop_def HasPrefix_def)

theorem failed_stream_looks_complete_witness:
  "\<exists>evs. streamChat (demo_server\<lparr>se_generate := Generate demo_failing\<rparr>) demo_generate = EventStream evs \<and>
     streamed_finish evs = [''stop''] \<and>
     capture demo_unmarshal demo_unmarshal True (sse_bytes demo_marshal evs) =
       Some \<lparr>tu_PromptTokens = 0, tu_CompletionTokens = 0\<rparr>"
proof -
  let ?e = "demo_server\<lparr>se_generate := Generate demo_failing\<rparr>"
  have run: "streamChat ?e demo_generate = EventStream
     [chat_chunk ?e [delta ''assistant'' [] None] None, chat_chunk ?e [delta [] ''ab'' None] None,
      chat_chunk ?e [delta [] [] (Some ''stop'')] None, chat_chunk ?e [] (Some zero_usage), DoneEvent]"
    by (simp add: streamChat_def demo_failing_tokens note_token_def) (simp add: demo_server_def)
  have "se_generate ?e = Generate demo_failing" "se_flusher ?e" by (simp_all add: demo_server_def)
  from failed_stream_looks_complete [OF this(1) demo_failing_tokens _ this(2) disjI1 [OF run], of _ demo_marshal demo_unmarshal demo_unmarshal]
  show ?thesis using run demo_codec by simp
qed

end
