(* ===== verification/EngineConc.thy ===== *)
theory EngineConc
  imports EngineProps
begin

text \<open>
  The engine's goroutines. A request is served by two of them: the one that \<^verbatim>\<open>Generate\<close> starts sends
  tokens into a channel of 32 while it holds the model's lock, and the HTTP handler receives them while
  it holds the server's lock. The first part shows that this ends, for every schedule, with every token
  received and both locks released, which is what lets the other theories treat a generation as a list.
  The second part has the life of the C objects behind a model: loading, use under the lock, and
  \<^verbatim>\<open>Close\<close>.
\<close>

subsection \<open>A generation and its handler\<close>

definition tokenBuffer :: nat where
  "tokenBuffer = 32"

text \<open>
  What the generating goroutine has still to send, the channel, whether it has been closed, whether the
  goroutine still holds the model's lock, what the handler has received, and whether it has left its
  loop and given the server's lock back.
\<close>

record pipe =
  pi_todo :: "Token list"
  pi_chan :: "Token list"
  pi_closed :: bool
  pi_locked :: bool
  pi_got :: "Token list"
  pi_left :: bool

definition pipe_start :: "Token list \<Rightarrow> pipe" where
  "pipe_start toks = \<lparr>pi_todo = toks, pi_chan = [], pi_closed = False, pi_locked = True, pi_got = [], pi_left = False\<rparr>"

text \<open>
  A send waits for room. The channel is closed before the lock is given back. The handler leaves its
  loop at a token with an error, or when the channel is closed and empty.
\<close>

inductive pipe_step :: "pipe \<Rightarrow> pipe \<Rightarrow> bool" where
  sends: "pi_todo p = t # ts \<Longrightarrow> length (pi_chan p) < tokenBuffer \<Longrightarrow>
     pipe_step p (p\<lparr>pi_todo := ts, pi_chan := pi_chan p @ [t]\<rparr>)"
| closes: "pi_todo p = [] \<Longrightarrow> \<not> pi_closed p \<Longrightarrow> pipe_step p (p\<lparr>pi_closed := True\<rparr>)"
| unlocks: "pi_closed p \<Longrightarrow> pi_locked p \<Longrightarrow> pipe_step p (p\<lparr>pi_locked := False\<rparr>)"
| receives: "\<not> pi_left p \<Longrightarrow> pi_chan p = t # ts \<Longrightarrow>
     pipe_step p (p\<lparr>pi_chan := ts, pi_got := pi_got p @ [t], pi_left := (tk_Err t \<noteq> None)\<rparr>)"
| leaves: "\<not> pi_left p \<Longrightarrow> pi_chan p = [] \<Longrightarrow> pi_closed p \<Longrightarrow> pipe_step p (p\<lparr>pi_left := True\<rparr>)"

inductive_cases pipe_stepE: "pipe_step p q"

definition pipe_done :: "pipe \<Rightarrow> bool" where
  "pipe_done p \<longleftrightarrow> pi_todo p = [] \<and> pi_chan p = [] \<and> pi_closed p \<and> \<not> pi_locked p \<and> pi_left p"

text \<open>Errors come last in a generation, so a handler that leaves at one leaves nothing behind.\<close>

definition errors_last :: "Token list \<Rightarrow> bool" where
  "errors_last toks \<longleftrightarrow> (\<forall>t \<in> set (butlast toks). tk_Err t = None)"

definition pipe_inv :: "Token list \<Rightarrow> pipe \<Rightarrow> bool" where
  "pipe_inv toks p \<longleftrightarrow> errors_last toks \<and>
     pi_got p @ pi_chan p @ pi_todo p = toks \<and> length (pi_chan p) \<le> tokenBuffer \<and>
     (pi_closed p \<longrightarrow> pi_todo p = []) \<and> (\<not> pi_locked p \<longrightarrow> pi_closed p) \<and>
     (pi_left p \<longrightarrow> pi_chan p = [] \<and> pi_todo p = [])"

definition pipe_left :: "pipe \<Rightarrow> nat" where
  "pipe_left p = 2 * length (pi_todo p) + length (pi_chan p) + of_bool (\<not> pi_closed p) +
     of_bool (pi_locked p) + of_bool (\<not> pi_left p)"

lemma error_is_last:
  assumes "errors_last (got @ t # rest)" and "tk_Err t \<noteq> None"
  shows "rest = []"
  using assms by (auto simp: errors_last_def butlast_append split: if_splits)

lemma pipe_inv_step:
  assumes "pipe_inv toks p" and "pipe_step p q"
  shows "pipe_inv toks q"
  using assms(2)
proof (cases rule: pipe_step.cases)
  case (receives t ts)
  have "tk_Err t \<noteq> None \<Longrightarrow> ts @ pi_todo p = []"
    using error_is_last [of "pi_got p" t "ts @ pi_todo p"] assms(1) receives by (auto simp: pipe_inv_def)
  then show ?thesis using assms(1) receives by (auto simp: pipe_inv_def)
qed (use assms(1) in \<open>auto simp: pipe_inv_def\<close>)

lemma pipe_advances:
  assumes "pipe_inv toks p" and "\<not> pipe_done p"
  shows "\<exists>q. pipe_step p q"
proof (cases "pi_chan p")
  case Nil
  show ?thesis
  proof (cases "pi_todo p")
    case Nil
    with \<open>pi_chan p = []\<close> assms(2) have "\<not> pi_closed p \<or> pi_locked p \<and> pi_closed p \<or> \<not> pi_left p \<and> pi_closed p"
      by (auto simp: pipe_done_def)
    with \<open>pi_chan p = []\<close> Nil show ?thesis by (blast intro: pipe_step.intros)
  next
    case (Cons t ts)
    with \<open>pi_chan p = []\<close> show ?thesis using pipe_step.sends [of p t ts] by (auto simp: tokenBuffer_def)
  qed
next
  case (Cons t ts)
  with assms(1) have "\<not> pi_left p" by (auto simp: pipe_inv_def)
  with Cons show ?thesis by (blast intro: pipe_step.receives)
qed

lemma pipe_shrinks: "pipe_inv toks p \<Longrightarrow> pipe_step p q \<Longrightarrow> pipe_left q < pipe_left p"
  by (erule pipe_stepE) (auto simp: pipe_left_def)

interpretation pipe: ending_system "\<lambda>p. p = pipe_start toks \<and> errors_last toks" pipe_step "pipe_inv toks"
  pipe_done pipe_left for toks
proof unfold_locales
  show "pipe_inv toks p" if "p = pipe_start toks \<and> errors_last toks" for p
    using that by (simp add: pipe_inv_def pipe_start_def)
qed (fact pipe_inv_step pipe_advances pipe_shrinks)+

lemma generated_errors: "Generate e req = Inr toks \<Longrightarrow> errors_last toks"
  by (erule generation_shape) (simp add: errors_last_def)

lemma pipe_start_inv: "Generate e req = Inr toks \<Longrightarrow> pipe_inv toks (pipe_start toks)"
  using generated_errors pipe.inv_init by blast

text \<open>C12. Serving a generation always ends, however its two goroutines are scheduled. A run takes at most
  twice as many steps as there are tokens, and three more; the channel never holds more than 32; and a
  run that cannot go on has ended properly: the handler has received every token in order, the channel
  is closed, and the model's and the server's lock are free for the next request.\<close>

theorem generation_served_completely:
  assumes "Generate e req = Inr toks"
  shows "(\<forall>n p. (pipe_step ^^ n) (pipe_start toks) p \<longrightarrow> n \<le> 2 * length toks + 3 \<and> length (pi_chan p) \<le> 32) \<and>
    (\<forall>p. pipe_step\<^sup>*\<^sup>* (pipe_start toks) p \<and> (\<forall>q. \<not> pipe_step p q) \<longrightarrow>
       pi_got p = toks \<and> pi_closed p \<and> \<not> pi_locked p \<and> pi_left p) \<and>
    (\<exists>p. pipe_step\<^sup>*\<^sup>* (pipe_start toks) p \<and> pipe_done p)"
proof (intro conjI allI impI)
  note start = pipe_start_inv [OF assms]
  fix n p
  assume n: "(pipe_step ^^ n) (pipe_start toks) p"
  have "n + pipe_left p \<le> pipe_left (pipe_start toks)" by (rule pipe.run_bounded [OF start n])
  also have "\<dots> = 2 * length toks + 3" by (simp add: pipe_left_def pipe_start_def)
  finally show "n \<le> 2 * length toks + 3" by simp
  have "pipe_inv toks p" by (rule pipe.run_inv [OF start relpowp_imp_rtranclp [OF n]])
  then show "length (pi_chan p) \<le> 32" by (simp add: pipe_inv_def tokenBuffer_def)
next
  note start = pipe_start_inv [OF assms]
  fix p
  assume p: "pipe_step\<^sup>*\<^sup>* (pipe_start toks) p \<and> (\<forall>q. \<not> pipe_step p q)"
  have "pipe_inv toks p" using p pipe.run_inv [OF start] by blast
  moreover have "pipe_done p" using p pipe.stuck_final [OF start] by blast
  ultimately show "pi_got p = toks" "pi_closed p" "\<not> pi_locked p" "pi_left p"
    by (auto simp: pipe_inv_def pipe_done_def)
next
  show "\<exists>p. pipe_step\<^sup>*\<^sup>* (pipe_start toks) p \<and> pipe_done p"
    by (rule pipe.can_finish [OF pipe_start_inv [OF assms]])
qed

theorem generation_served_completely_witness:
  "\<exists>toks p. Generate demo_llama demo_generate = Inr toks \<and> pipe_step\<^sup>*\<^sup>* (pipe_start toks) p \<and> pipe_done p"
  using generation_served_completely [OF demo_Generate] demo_Generate by blast

subsection \<open>The C objects behind a model\<close>

text \<open>
  The calls into llama.cpp that matter for memory: what \<^verbatim>\<open>Load\<close> makes, uses of the context and of the
  vocabulary, uses of the model by the chat template, and the two frees.
\<close>

datatype c_call =
    LoadModel string
  | InitContext "u32 option"
  | UseContext
  | UseModel
  | FreeContext
  | FreeModel

record Params =
  pr_ModelPath :: string
  pr_ContextLength :: u32

text \<open>Whether llama.cpp takes the file, and whether it can make a context for it.\<close>

definition Load :: "bool \<Rightarrow> bool \<Rightarrow> Params \<Rightarrow> c_call list \<times> bool" where
  "Load file_ok ctx_ok p =
     (let n_ctx = (if 0 < pr_ContextLength p then Some (pr_ContextLength p) else None)
      in if \<not> file_ok then ([LoadModel (pr_ModelPath p)], False)
         else if \<not> ctx_ok then ([LoadModel (pr_ModelPath p), InitContext n_ctx, FreeModel], False)
         else ([LoadModel (pr_ModelPath p), InitContext n_ctx], True))"

text \<open>
  Where a caller of the model is: in \<^verbatim>\<open>Generate\<close> before the lock, after it, and in the decode loop, whose
  goroutine keeps the lock; in \<^verbatim>\<open>Close\<close> before the lock, after it, and between the two frees.
\<close>

datatype caller = Idle | WantGenerate | Checking | Decoding | WantClose | Closing | Freeing

fun holds_mu :: "caller \<Rightarrow> bool" where
  "holds_mu Checking = True"
| "holds_mu Decoding = True"
| "holds_mu Closing = True"
| "holds_mu Freeing = True"
| "holds_mu _ = False"

record engine_life =
  el_pc :: "nat \<Rightarrow> caller"
  el_mu :: "nat option"
  el_closed :: bool
  el_calls :: "c_call list"

definition life_start :: "c_call list \<Rightarrow> engine_life" where
  "life_start calls = \<lparr>el_pc = (\<lambda>_. Idle), el_mu = None, el_closed = False, el_calls = calls\<rparr>"

abbreviation goes :: "nat \<Rightarrow> caller \<Rightarrow> engine_life \<Rightarrow> engine_life" where
  "goes i c s \<equiv> s\<lparr>el_pc := (el_pc s)(i := c)\<rparr>"

abbreviation calls_c :: "c_call \<Rightarrow> engine_life \<Rightarrow> engine_life" where
  "calls_c c s \<equiv> s\<lparr>el_calls := el_calls s @ [c]\<rparr>"

text \<open>A step of caller \<open>i\<close>.\<close>

inductive life_by :: "nat \<Rightarrow> engine_life \<Rightarrow> engine_life \<Rightarrow> bool" for i where
  generate: "el_pc s i = Idle \<Longrightarrow> life_by i s (goes i WantGenerate s)"
| generate_lock: "el_pc s i = WantGenerate \<Longrightarrow> el_mu s = None \<Longrightarrow>
    life_by i s (goes i Checking (s\<lparr>el_mu := Some i\<rparr>))"
| generate_refused: "el_pc s i = Checking \<Longrightarrow> el_closed s \<Longrightarrow> life_by i s (goes i Idle (s\<lparr>el_mu := None\<rparr>))"
| tokenized: "el_pc s i = Checking \<Longrightarrow> \<not> el_closed s \<Longrightarrow> life_by i s (goes i Decoding (calls_c UseContext s))"
| tokenize_failed: "el_pc s i = Checking \<Longrightarrow> \<not> el_closed s \<Longrightarrow>
    life_by i s (goes i Idle (calls_c UseContext (s\<lparr>el_mu := None\<rparr>)))"
| decode: "el_pc s i = Decoding \<Longrightarrow> life_by i s (calls_c UseContext s)"
| generated: "el_pc s i = Decoding \<Longrightarrow> life_by i s (goes i Idle (s\<lparr>el_mu := None\<rparr>))"
| close: "el_pc s i = Idle \<Longrightarrow> life_by i s (goes i WantClose s)"
| close_lock: "el_pc s i = WantClose \<Longrightarrow> el_mu s = None \<Longrightarrow>
    life_by i s (goes i Closing (s\<lparr>el_mu := Some i\<rparr>))"
| close_again: "el_pc s i = Closing \<Longrightarrow> el_closed s \<Longrightarrow> life_by i s (goes i Idle (s\<lparr>el_mu := None\<rparr>))"
| free_context: "el_pc s i = Closing \<Longrightarrow> \<not> el_closed s \<Longrightarrow>
    life_by i s (goes i Freeing (calls_c FreeContext (s\<lparr>el_closed := True\<rparr>)))"
| free_model: "el_pc s i = Freeing \<Longrightarrow> life_by i s (goes i Idle (calls_c FreeModel (s\<lparr>el_mu := None\<rparr>)))"
| template: "el_pc s i = Idle \<Longrightarrow> life_by i s (calls_c UseModel s)"

inductive_cases life_byE: "life_by i s t"

definition life_step :: "engine_life \<Rightarrow> engine_life \<Rightarrow> bool" where
  "life_step s t \<longleftrightarrow> (\<exists>i. life_by i s t)"

definition frees :: "c_call list \<Rightarrow> c_call list" where
  "frees calls = filter (\<lambda>c. c \<in> {FreeContext, FreeModel}) calls"

text \<open>No use of the context once it has been freed.\<close>

fun uses_live :: "c_call list \<Rightarrow> bool" where
  "uses_live [] = True"
| "uses_live (c # cs) = ((c = FreeContext \<longrightarrow> UseContext \<notin> set cs) \<and> uses_live cs)"

lemma uses_live_append:
  "uses_live (cs @ [c]) \<longleftrightarrow> uses_live cs \<and> (c = UseContext \<longrightarrow> FreeContext \<notin> set cs)"
  by (induction cs) auto

lemma frees_append: "frees (cs @ [c]) = frees cs @ (if c \<in> {FreeContext, FreeModel} then [c] else [])"
  by (simp add: frees_def)

lemma frees_Nil: "frees cs = [] \<Longrightarrow> FreeContext \<notin> set cs"
  by (auto simp: frees_def filter_empty_conv)

text \<open>The lock and the callers agree; where its holder is says what has been freed.\<close>

definition agree :: "(nat \<Rightarrow> caller) \<Rightarrow> nat option \<Rightarrow> bool" where
  "agree pc mu \<longleftrightarrow> (\<forall>i. holds_mu (pc i) \<longleftrightarrow> mu = Some i)"

definition holder :: "(nat \<Rightarrow> caller) \<Rightarrow> nat option \<Rightarrow> caller" where
  "holder pc mu = (case mu of None \<Rightarrow> Idle | Some i \<Rightarrow> pc i)"

definition memory :: "caller \<Rightarrow> bool \<Rightarrow> c_call list \<Rightarrow> bool" where
  "memory h closed calls \<longleftrightarrow> uses_live calls \<and> (h = Decoding \<longrightarrow> \<not> closed) \<and> (h = Freeing \<longrightarrow> closed) \<and>
     frees calls = (if \<not> closed then [] else if h = Freeing then [FreeContext] else [FreeContext, FreeModel])"

definition life_inv :: "engine_life \<Rightarrow> bool" where
  "life_inv s \<longleftrightarrow> agree (el_pc s) (el_mu s) \<and> memory (holder (el_pc s) (el_mu s)) (el_closed s) (el_calls s)"

lemma agree_holds: "agree pc mu \<Longrightarrow> holds_mu (pc i) \<Longrightarrow> mu = Some i"
  by (simp add: agree_def)

lemma agree_moves:
  "agree pc mu \<Longrightarrow> holds_mu c = holds_mu (pc i) \<Longrightarrow> agree (pc(i := c)) mu"
  "agree pc mu \<Longrightarrow> holds_mu (pc i) \<Longrightarrow> \<not> holds_mu c \<Longrightarrow> agree (pc(i := c)) None"
  "agree pc None \<Longrightarrow> holds_mu c \<Longrightarrow> agree (pc(i := c)) (Some i)"
  by (auto simp: agree_def)

lemma holder_waiting: "agree pc mu \<Longrightarrow> \<not> holds_mu (pc i) \<Longrightarrow> holder (pc(i := c)) mu = holder pc mu"
  by (auto simp: agree_def holder_def split: option.split)

lemma holder_simps [simp]: "holder pc None = Idle" "holder pc (Some i) = pc i"
  by (simp_all add: holder_def)

lemmas life_inv_defs = life_inv_def memory_def uses_live_append frees_append frees_Nil

lemma life_inv_by:
  assumes "life_inv s" and "life_by i s t"
  shows "life_inv t"
proof -
  have agree: "agree (el_pc s) (el_mu s)"
    and mem: "memory (holder (el_pc s) (el_mu s)) (el_closed s) (el_calls s)"
    using assms(1) by (simp_all add: life_inv_def)
  show ?thesis
    using assms(2)
    by (rule life_byE)
      (use agree mem agree_holds [OF agree, of i] holder_waiting [OF agree, of i] in
        \<open>simp_all add: life_inv_defs agree_moves\<close>)
qed

interpretation life: inductive_invariant
  "\<lambda>s. \<exists>p calls. Load True True p = (calls, True) \<and> s = life_start calls" life_step life_inv
proof unfold_locales
  show "life_inv s" if "\<exists>p calls. Load True True p = (calls, True) \<and> s = life_start calls" for s
    using that by (auto simp: Load_def life_start_def life_inv_defs agree_def frees_def)
  show "life_inv t" if "life_inv s" "life_step s t" for s t
    using that life_inv_by by (auto simp: life_step_def)
qed

definition loaded :: "engine_life \<Rightarrow> bool" where
  "loaded s \<longleftrightarrow> (\<exists>p calls. Load True True p = (calls, True) \<and> s = life_start calls)"

text \<open>C14. The engine does not use or free memory twice. However generations, chat requests and calls of
  \<^verbatim>\<open>Close\<close> from any number of goroutines interleave after a model was loaded: the context is never used
  after it was freed, context and model are each freed at most once and in this order, a generation and
  a \<^verbatim>\<open>Close\<close> never hold the lock together, and once the model is closed and the lock is free, both have
  been freed.\<close>

theorem engine_memory_safe:
  assumes "reachable loaded life_step s"
  shows "uses_live (el_calls s) \<and>
    frees (el_calls s) \<in> {[], [FreeContext], [FreeContext, FreeModel]} \<and>
    (\<forall>i j. holds_mu (el_pc s i) \<and> holds_mu (el_pc s j) \<longrightarrow> i = j) \<and>
    (el_closed s \<and> el_mu s = None \<longrightarrow> frees (el_calls s) = [FreeContext, FreeModel])"
proof -
  have "life_inv s" using assms unfolding loaded_def [abs_def] by (rule life.reachable_inv)
  then show ?thesis by (auto simp: life_inv_def memory_def agree_def)
qed

definition demo_params :: Params where
  "demo_params = \<lparr>pr_ModelPath = ''m.gguf'', pr_ContextLength = 4096\<rparr>"

definition demo_calls :: "c_call list" where
  "demo_calls = fst (Load True True demo_params)"

lemma loaded_demo: "loaded (life_start demo_calls)"
  unfolding loaded_def demo_calls_def by (intro exI [of _ demo_params]) (auto simp: Load_def)

text \<open>One caller closes the model, and another one then renders a chat template.\<close>

lemma demo_closed:
  "reachable loaded life_step (calls_c FreeModel (calls_c FreeContext ((life_start demo_calls)\<lparr>el_closed := True\<rparr>)))"
    (is "reachable _ _ ?s4")
proof -
  let ?s0 = "life_start demo_calls"
  let ?s1 = "goes 0 WantClose ?s0"
  let ?s2 = "goes 0 Closing (?s1\<lparr>el_mu := Some 0\<rparr>)"
  let ?s3 = "goes 0 Freeing (calls_c FreeContext (?s2\<lparr>el_closed := True\<rparr>))"
  have "life_step ?s0 ?s1" "life_step ?s1 ?s2" "life_step ?s2 ?s3"
    unfolding life_step_def by (intro exI [of _ 0] life_by.intros; simp add: life_start_def)+
  moreover have "life_step ?s3 ?s4"
    using life_by.free_model [of ?s3 0] by (auto simp: life_step_def life_start_def fun_upd_idem intro!: exI [of _ 0])
  moreover have "reachable loaded life_step ?s0" using loaded_demo by (rule reach_init)
  ultimately show ?thesis by (meson reach_step)
qed

theorem engine_memory_safe_witness:
  "\<exists>s. reachable loaded life_step s \<and> el_closed s \<and> el_mu s = None \<and> frees (el_calls s) = [FreeContext, FreeModel]"
  using engine_memory_safe [OF demo_closed] demo_closed by (intro exI, auto simp: life_start_def)

text \<open>The chat template is rendered without the lock and without asking whether the model is closed: a
  request that has been read when the model is closed makes llama.cpp look into the freed model.\<close>

theorem template_uses_freed_model:
  "\<exists>s before. reachable loaded life_step s \<and> el_calls s = before @ [FreeModel, UseModel]"
proof -
  let ?s = "calls_c FreeModel (calls_c FreeContext ((life_start demo_calls)\<lparr>el_closed := True\<rparr>))"
  have "life_step ?s (calls_c UseModel ?s)"
    using life_by.template [of ?s 1] by (auto simp: life_step_def life_start_def)
  then have "reachable loaded life_step (calls_c UseModel ?s)" using demo_closed by (meson reach_step)
  then show ?thesis
    by (intro exI [of _ "calls_c UseModel ?s"] exI [of _ "demo_calls @ [FreeContext]"]) (simp add: life_start_def)
qed

end
