(* ===== verification/AgentSession.thy ===== *)
theory AgentSession
  imports AgentProps
begin

text \<open>
  One stream of the agent, goroutine by goroutine: \<^verbatim>\<open>runOnce\<close>, the writer, the heartbeat loop and the
  goroutines that emit updates. Here the question is how a session comes to its end, which depends on
  who waits for whom: the deferred calls of \<^verbatim>\<open>runOnce\<close> wait for the helpers before they cancel the
  context that the helpers watch.
\<close>

subsection \<open>The goroutines of a session\<close>

text \<open>
  Where \<^verbatim>\<open>runOnce\<close> is: about to enqueue the Register frame, waiting for the first reply, in the receive
  loop, at the deferred call that takes the channel back, waiting for the helpers, back in \<^verbatim>\<open>Run\<close>.
\<close>

datatype main_at = Registering | AwaitAck | Receiving | Unpublish | WaitGroup | Returned

text \<open>The heartbeat loop: not started, at its ticker, with a heartbeat to enqueue, returned.\<close>

datatype beat_at = NoBeat | Ticking | Beating Heartbeat | BeatDone

text \<open>
  \<open>se_cancelled\<close> is \<^verbatim>\<open>sessCancel\<close>, \<open>se_shutdown\<close> the cancellation of \<^verbatim>\<open>Run\<close>'s context, \<open>se_over\<close> says that
  the RPC has ended, \<open>se_held\<close> are the messages of goroutines which have read \<^verbatim>\<open>c.out\<close> and not yet tried
  to enqueue.
\<close>

record session =
  se_main :: main_at
  se_beat :: beat_at
  se_writing :: bool
  se_chan :: "AgentMessage list"
  se_sent :: "AgentMessage list"
  se_out :: bool
  se_held :: "AgentMessage list"
  se_cancelled :: bool
  se_shutdown :: bool
  se_over :: bool

definition session_opened :: session where
  "session_opened = \<lparr>se_main = Registering, se_beat = NoBeat, se_writing = True, se_chan = [], se_sent = [],
     se_out = False, se_held = [], se_cancelled = False, se_shutdown = False, se_over = False\<rparr>"

text \<open>\<^verbatim>\<open>sessCtx\<close> is done: cancelled itself, or with its parent.\<close>

definition sess_done :: "session \<Rightarrow> bool" where
  "sess_done s \<longleftrightarrow> se_cancelled s \<or> se_shutdown s"

text \<open>
  A receive or a send fails when the RPC has ended or its context is done; by gRPC's contract the RPC
  has then ended. A \<^verbatim>\<open>select\<close> with several ready cases may take any of them.
\<close>

inductive session_step :: "ClientConfig \<Rightarrow> session \<Rightarrow> session \<Rightarrow> bool" for cfg where
  registers: "se_main s = Registering \<Longrightarrow> length (se_chan s) < outboundBufferSize \<Longrightarrow>
    session_step cfg s (s\<lparr>se_main := AwaitAck, se_chan := se_chan s @ [AM_Register (register_message cfg nodeID)]\<rparr>)"
| ack_fails: "se_main s = AwaitAck \<Longrightarrow> se_over s \<or> sess_done s \<Longrightarrow>
    session_step cfg s (s\<lparr>se_main := WaitGroup, se_over := True\<rparr>)"
| not_an_ack: "se_main s = AwaitAck \<Longrightarrow> session_step cfg s (s\<lparr>se_main := WaitGroup\<rparr>)"
| acked: "se_main s = AwaitAck \<Longrightarrow>
    session_step cfg s (s\<lparr>se_main := Receiving, se_out := True, se_beat := Ticking\<rparr>)"
| receives: "se_main s = Receiving \<Longrightarrow> session_step cfg s s"
| recv_fails: "se_main s = Receiving \<Longrightarrow> se_over s \<or> sess_done s \<Longrightarrow>
    session_step cfg s (s\<lparr>se_main := Unpublish, se_over := True\<rparr>)"
| unpublishes: "se_main s = Unpublish \<Longrightarrow> session_step cfg s (s\<lparr>se_main := WaitGroup, se_out := False\<rparr>)"
| returns: "se_main s = WaitGroup \<Longrightarrow> \<not> se_writing s \<Longrightarrow> se_beat s = NoBeat \<or> se_beat s = BeatDone \<Longrightarrow>
    session_step cfg s (s\<lparr>se_main := Returned, se_cancelled := True, se_over := True\<rparr>)"
| sends: "se_writing s \<Longrightarrow> se_chan s = m # ms \<Longrightarrow> \<not> se_over s \<Longrightarrow>
    session_step cfg s (s\<lparr>se_chan := ms, se_sent := se_sent s @ [m]\<rparr>)"
| send_fails: "se_writing s \<Longrightarrow> se_chan s = m # ms \<Longrightarrow> se_over s \<or> sess_done s \<Longrightarrow>
    session_step cfg s (s\<lparr>se_chan := ms, se_writing := False, se_cancelled := True, se_over := True\<rparr>)"
| writer_stops: "se_writing s \<Longrightarrow> sess_done s \<Longrightarrow> session_step cfg s (s\<lparr>se_writing := False\<rparr>)"
| ticks: "se_beat s = Ticking \<Longrightarrow> session_step cfg s (s\<lparr>se_beat := Beating (heartbeat cfg util jord dord c)\<rparr>)"
| beats: "se_beat s = Beating hb \<Longrightarrow> length (se_chan s) < outboundBufferSize \<Longrightarrow>
    session_step cfg s (s\<lparr>se_beat := Ticking, se_chan := se_chan s @ [AM_Heartbeat hb]\<rparr>)"
| beat_stops: "se_beat s = Ticking \<or> se_beat s = Beating hb \<Longrightarrow> sess_done s \<Longrightarrow>
    session_step cfg s (s\<lparr>se_beat := BeatDone\<rparr>)"
| holds: "se_out s \<Longrightarrow> \<not> is_register m \<Longrightarrow> session_step cfg s (s\<lparr>se_held := m # se_held s\<rparr>)"
| emits: "se_held s = xs @ m # ys \<Longrightarrow> session_step cfg s (s\<lparr>se_held := xs @ ys,
    se_chan := (if length (se_chan s) < outboundBufferSize then se_chan s @ [m] else se_chan s)\<rparr>)"
| rpc_ends: "\<not> se_over s \<Longrightarrow> session_step cfg s (s\<lparr>se_over := True\<rparr>)"
| shuts_down: "\<not> se_shutdown s \<Longrightarrow> session_step cfg s (s\<lparr>se_shutdown := True\<rparr>)"

inductive_cases session_stepE: "session_step cfg s t"

subsection \<open>The invariant of a session\<close>

definition frames_ok :: "session \<Rightarrow> bool" where
  "frames_ok s \<longleftrightarrow> length (se_chan s) \<le> outboundBufferSize \<and> (\<forall>m \<in> set (se_held s). \<not> is_register m) \<and>
     (se_sent s \<noteq> [] \<longrightarrow> register_first (se_sent s)) \<and>
     (se_writing s \<and> se_main s \<noteq> Registering \<longrightarrow> register_first (se_sent s @ se_chan s))"

text \<open>Until the Register frame is enqueued nothing else can be: the channel is not known to anyone.\<close>

definition phases_ok :: "session \<Rightarrow> bool" where
  "phases_ok s \<longleftrightarrow>
     (se_main s = Registering \<longrightarrow> se_chan s = [] \<and> se_sent s = []) \<and>
     (se_out s \<longleftrightarrow> se_main s \<in> {Receiving, Unpublish}) \<and>
     (se_main s \<in> {Registering, AwaitAck} \<longrightarrow> se_beat s = NoBeat) \<and>
     (se_main s \<in> {Receiving, Unpublish} \<longrightarrow> se_beat s \<noteq> NoBeat) \<and>
     (se_main s \<in> {Unpublish, Returned} \<longrightarrow> se_over s) \<and>
     (se_main s = WaitGroup \<and> se_beat s \<noteq> NoBeat \<longrightarrow> se_over s) \<and>
     (se_beat s = NoBeat \<longrightarrow> se_held s = []) \<and>
     (\<not> se_writing s \<longrightarrow> sess_done s) \<and> (se_beat s = BeatDone \<longrightarrow> sess_done s) \<and>
     (se_main s = Returned \<longrightarrow> \<not> se_writing s \<and> (se_beat s = NoBeat \<or> se_beat s = BeatDone))"

definition session_inv :: "session \<Rightarrow> bool" where
  "session_inv s \<longleftrightarrow> frames_ok s \<and> phases_ok s"

lemma register_first_sent: "register_first (ms @ x # rest) \<Longrightarrow> register_first (ms @ [x])"
  using register_first_prefix [of "ms @ [x]" rest] by simp

lemma register_first_alone [simp]: "register_first [AM_Register r]"
  by (auto simp: register_first_def)

lemma register_first_appends [simp]:
  "register_first (sent @ ms) \<Longrightarrow> \<not> is_register m \<Longrightarrow> register_first (sent @ ms @ [m])"
  using register_first_append [of "sent @ ms" m] by simp

lemma phases_ok_step: "phases_ok s \<Longrightarrow> session_step cfg s t \<Longrightarrow> phases_ok t"
  by (erule session_stepE) (simp_all add: phases_ok_def sess_done_def, (cases "se_main s"; force)+)

lemma frames_ok_step: "phases_ok s \<Longrightarrow> frames_ok s \<Longrightarrow> session_step cfg s t \<Longrightarrow> frames_ok t"
  by (erule session_stepE)
    (simp_all add: frames_ok_def phases_ok_def outboundBufferSize_def, metis register_first_sent)

interpretation session: inductive_invariant "\<lambda>s. s = session_opened" "session_step cfg" session_inv for cfg
proof unfold_locales
  show "session_inv s" if "s = session_opened" for s
    using that by (simp add: session_inv_def frames_ok_def phases_ok_def session_opened_def outboundBufferSize_def)
  show "session_inv t" if "session_inv s" "session_step cfg s t" for s t
    using that by (auto simp: session_inv_def intro: phases_ok_step frames_ok_step)
qed

subsection \<open>After the acknowledgement a session ends\<close>

definition drains :: "session \<Rightarrow> bool" where
  "drains s \<longleftrightarrow> session_inv s \<and> se_main s \<in> {WaitGroup, Returned} \<and> se_beat s \<noteq> NoBeat"

fun beat_left :: "beat_at \<Rightarrow> nat" where
  "beat_left Ticking = 2"
| "beat_left (Beating _) = 1"
| "beat_left _ = 0"

text \<open>
  A failing writer takes one message out of the channel, which makes room for another heartbeat, but
  it does so once; every heartbeat uses up room.
\<close>

definition session_left :: "session \<Rightarrow> nat" where
  "session_left s = 3 * (outboundBufferSize - length (se_chan s)) + beat_left (se_beat s) +
     5 * of_bool (se_writing s) + length (se_held s) + of_bool (\<not> se_shutdown s) + of_bool (se_main s = WaitGroup)"

lemma phases_okD:
  assumes "phases_ok s"
  shows "se_out s \<longleftrightarrow> se_main s \<in> {Receiving, Unpublish}"
    and "se_main s = Returned \<Longrightarrow> se_over s"
    and "se_main s = WaitGroup \<Longrightarrow> se_beat s \<noteq> NoBeat \<Longrightarrow> se_over s"
    and "se_main s = Returned \<Longrightarrow> \<not> se_writing s \<and> (se_beat s = NoBeat \<or> se_beat s = BeatDone)"
    and "\<not> se_writing s \<Longrightarrow> sess_done s"
    and "se_beat s = BeatDone \<Longrightarrow> sess_done s"
  using assms by (simp_all add: phases_ok_def)

lemma frames_okD:
  assumes "frames_ok s"
  shows "length (se_chan s) \<le> outboundBufferSize"
    and "se_sent s \<noteq> [] \<Longrightarrow> register_first (se_sent s)"
  using assms by (simp_all add: frames_ok_def)

lemmas session_invD = phases_okD frames_okD

lemma drainsD:
  assumes "drains s"
  shows "phases_ok s" and "frames_ok s" and "se_main s = WaitGroup \<or> se_main s = Returned" and "se_beat s \<noteq> NoBeat"
  using assms by (simp_all add: drains_def session_inv_def)

lemma drains_over: "drains s \<Longrightarrow> se_over s"
  using drainsD [of s] phases_okD [of s] by blast

lemma drains_step:
  assumes "drains s" and "session_step cfg s t"
  shows "drains t"
proof -
  have "session_inv t" using assms session.inv_step by (auto simp: drains_def)
  moreover have "se_main t \<in> {WaitGroup, Returned} \<and> se_beat t \<noteq> NoBeat"
    using assms(2) drainsD(3,4) [OF assms(1)] by (cases rule: session_step.cases) auto
  ultimately show ?thesis by (simp add: drains_def)
qed

lemma drains_shrinks:
  assumes "drains s" and "session_step cfg s t"
  shows "session_left t < session_left s"
proof -
  have "se_over s" "length (se_chan s) \<le> outboundBufferSize" "\<not> se_out s" "se_main s \<in> {WaitGroup, Returned}"
    using drainsD [OF assms(1)] session_invD [of s] drains_over [OF assms(1)] by auto
  with assms(2) show ?thesis
    by (cases rule: session_step.cases)
      (simp_all add: session_left_def outboundBufferSize_def, (linarith | auto)+)
qed

lemma drains_advances:
  assumes "drains s" and "se_main s \<noteq> Returned"
  shows "\<exists>t. session_step cfg s t"
proof -
  have waits: "se_main s = WaitGroup" "se_beat s \<noteq> NoBeat"
    and fin: "\<not> se_writing s \<longrightarrow> sess_done s" "se_beat s = BeatDone \<longrightarrow> sess_done s"
    using assms(2) drainsD [OF assms(1)] phases_okD [of s] by blast+
  show ?thesis
  proof (cases "se_beat s")
    case BeatDone
    with waits fin show ?thesis by (cases "se_writing s") (blast intro: session_step.intros)+
  next
    case (Beating hb)
    show ?thesis
    proof (cases "se_chan s = [] \<or> \<not> se_writing s")
      case True
      with Beating fin show ?thesis
        using session_step.beats [of s hb cfg] session_step.beat_stops [of s hb cfg]
        by (auto simp: outboundBufferSize_def)
    next
      case False
      then show ?thesis
        using session_step.send_fails [of s "hd (se_chan s)" "tl (se_chan s)"] drains_over [OF assms(1)] by auto
    qed
  qed (use waits session_step.ticks in blast)+
qed

interpretation teardown: ending_system drains "session_step cfg" drains "\<lambda>s. se_main s = Returned" session_left
  for cfg
  by unfold_locales (blast intro: drains_step drains_advances drains_shrinks)+

abbreviation in_session :: "ClientConfig \<Rightarrow> session \<Rightarrow> bool" where
  "in_session cfg \<equiv> reachable (\<lambda>s. s = session_opened) (session_step cfg)"

text \<open>C19. A session that had been acknowledged is always torn down. Once its stream has failed and
  \<^verbatim>\<open>runOnce\<close> waits for its helpers, every schedule of the writer, the heartbeat loop and the goroutines
  that still hold the channel is bounded, and a run that cannot go on has brought \<^verbatim>\<open>runOnce\<close> back to \<^verbatim>\<open>Run\<close>
  with the writer and the heartbeat loop gone and the channel taken back; what had been sent began with
  the one Register frame.\<close>

theorem session_teardown_returns:
  assumes "in_session cfg s" and "se_main s = WaitGroup" and "se_beat s \<noteq> NoBeat"
  shows "(\<forall>n t. (session_step cfg ^^ n) s t \<longrightarrow> n \<le> 105 + length (se_held s)) \<and>
    (\<forall>t. (session_step cfg)\<^sup>*\<^sup>* s t \<and> (\<forall>u. \<not> session_step cfg t u) \<longrightarrow>
       se_main t = Returned \<and> \<not> se_writing t \<and> se_beat t = BeatDone \<and> \<not> se_out t \<and>
       (se_sent t = [] \<or> register_first (se_sent t)))"
proof (intro conjI allI impI)
  have d: "drains s" using assms session.reachable_inv by (auto simp: drains_def)
  fix n t
  assume "(session_step cfg ^^ n) s t"
  then have "n + session_left t \<le> session_left s" by (rule teardown.run_bounded [OF d])
  also have "\<dots> \<le> 105 + length (se_held s)"
    by (cases "se_beat s") (auto simp: session_left_def outboundBufferSize_def)
  finally show "n \<le> 105 + length (se_held s)" by simp
next
  have d: "drains s" using assms session.reachable_inv by (auto simp: drains_def)
  fix t
  assume t: "(session_step cfg)\<^sup>*\<^sup>* s t \<and> (\<forall>u. \<not> session_step cfg t u)"
  have "drains t" using t teardown.run_inv [OF d] by blast
  moreover have "se_main t = Returned" using t teardown.stuck_final [OF d] by blast
  ultimately show "se_main t = Returned" "\<not> se_writing t" "se_beat t = BeatDone" "\<not> se_out t"
    "se_sent t = [] \<or> register_first (se_sent t)"
    using drainsD [of t] session_invD [of t] by auto
qed

text \<open>A session that is acknowledged, loses its stream and comes to wait for its helpers.\<close>

definition demo_draining :: session where
  "demo_draining = session_opened\<lparr>se_main := WaitGroup, se_beat := Ticking,
     se_sent := [AM_Register (register_message demo_cfg [])], se_over := True\<rparr>"

lemma registered:
  "in_session cfg (session_opened\<lparr>se_main := AwaitAck, se_sent := [AM_Register (register_message cfg nodeID)]\<rparr>)"
proof -
  let ?r = "AM_Register (register_message cfg nodeID)"
  let ?s = "session_opened\<lparr>se_main := AwaitAck, se_chan := [?r]\<rparr>"
  have "session_step cfg session_opened ?s"
    using session_step.registers [of session_opened cfg nodeID] by (simp add: session_opened_def outboundBufferSize_def)
  moreover have "session_step cfg ?s (session_opened\<lparr>se_main := AwaitAck, se_sent := [?r]\<rparr>)"
    using session_step.sends [of ?s ?r "[]" cfg] by (simp add: session_opened_def)
  moreover have "in_session cfg session_opened" by (rule reach_init) simp
  ultimately show ?thesis by (meson reach_step)
qed

lemma demo_draining: "in_session demo_cfg demo_draining"
proof -
  let ?s0 = "session_opened\<lparr>se_main := AwaitAck, se_sent := [AM_Register (register_message demo_cfg [])]\<rparr>"
  let ?s1 = "?s0\<lparr>se_main := Receiving, se_out := True, se_beat := Ticking\<rparr>"
  let ?s2 = "?s1\<lparr>se_over := True\<rparr>"
  let ?s3 = "?s2\<lparr>se_main := Unpublish, se_over := True\<rparr>"
  have "session_step demo_cfg ?s0 ?s1" by (intro session_step.acked) simp
  moreover have "session_step demo_cfg ?s1 ?s2" by (intro session_step.rpc_ends) (simp add: session_opened_def)
  moreover have "session_step demo_cfg ?s2 ?s3" by (intro session_step.recv_fails) simp_all
  moreover have "session_step demo_cfg ?s3 demo_draining"
    using session_step.unpublishes [of ?s3 demo_cfg] by (simp add: demo_draining_def session_opened_def)
  ultimately show ?thesis using registered [of demo_cfg "[]"] by (meson reach_step)
qed

theorem session_teardown_returns_witness:
  "in_session demo_cfg demo_draining \<and> se_main demo_draining = WaitGroup \<and> se_beat demo_draining = Ticking \<and>
   (\<nexists>t. (session_step demo_cfg ^^ 106) demo_draining t)"
proof -
  have "se_main demo_draining = WaitGroup" "se_beat demo_draining = Ticking" "se_held demo_draining = []"
    by (simp_all add: demo_draining_def session_opened_def)
  with session_teardown_returns [OF demo_draining] demo_draining show ?thesis by fastforce
qed

subsection \<open>Two waits of the teardown\<close>

text \<open>
  \<^verbatim>\<open>defer wg.Wait()\<close> comes after \<^verbatim>\<open>defer sessCancel()\<close> and therefore runs before it. Nothing but a failing
  send cancels the context that the writer and the heartbeat loop watch, so the teardown waits until
  there is a message to send: with nothing queued, for the next tick of the heartbeat.
\<close>

theorem teardown_waits_for_heartbeat:
  assumes "se_main s = WaitGroup" and "se_beat s = Ticking" and "se_writing s"
    and "se_chan s = []" and "se_held s = []" and "\<not> se_out s" and "\<not> sess_done s" and "se_over s"
    and "session_step cfg s t"
  shows "se_shutdown t \<or> (\<exists>hb. t = s\<lparr>se_beat := Beating hb\<rparr>)"
  using assms(9) by (cases rule: session_step.cases) (use assms(1-8) in auto)

text \<open>
  Before the acknowledgement there is no heartbeat. When the coordinator refuses the registration, the
  writer has sent the Register frame and waits on an empty channel, \<^verbatim>\<open>runOnce\<close> waits for the writer, and
  neither moves again until the agent is shut down: the backoff and the reconnect never come.
\<close>

definition refused :: "ClientConfig \<Rightarrow> string \<Rightarrow> session" where
  "refused cfg nodeID = session_opened\<lparr>se_main := WaitGroup,
     se_sent := [AM_Register (register_message cfg nodeID)], se_over := True\<rparr>"

lemma refused_reached: "in_session cfg (refused cfg nodeID)"
proof -
  let ?s0 = "session_opened\<lparr>se_main := AwaitAck, se_sent := [AM_Register (register_message cfg nodeID)]\<rparr>"
  let ?s1 = "?s0\<lparr>se_over := True\<rparr>"
  have "session_step cfg ?s0 ?s1" by (intro session_step.rpc_ends) (simp add: session_opened_def)
  moreover have "session_step cfg ?s1 (refused cfg nodeID)"
    using session_step.ack_fails [of ?s1 cfg] by (simp add: refused_def session_opened_def)
  ultimately show ?thesis using registered [of cfg nodeID] by (meson reach_step)
qed

lemma refused_stuck: "session_step cfg (refused cfg nodeID) t \<Longrightarrow> t = (refused cfg nodeID)\<lparr>se_shutdown := True\<rparr>"
  by (erule session_stepE) (auto simp: refused_def session_opened_def sess_done_def)

theorem refused_registration_hangs:
  "in_session cfg (refused cfg nodeID) \<and>
   (\<forall>t. (session_step cfg)\<^sup>*\<^sup>* (refused cfg nodeID) t \<longrightarrow> t = refused cfg nodeID \<or> se_shutdown t)"
proof (intro conjI allI impI)
  fix t
  assume "(session_step cfg)\<^sup>*\<^sup>* (refused cfg nodeID) t"
  then show "t = refused cfg nodeID \<or> se_shutdown t"
  proof (induction rule: rtranclp_induct)
    case (step t u)
    have "se_shutdown u" if "se_shutdown t" using step(2) that by (cases rule: session_step.cases) auto
    then show ?case using step refused_stuck by fastforce
  qed simp
qed (rule refused_reached)

subsection \<open>The loop over sessions\<close>

text \<open>
  One round of \<^verbatim>\<open>Run\<close>: whether the session was acknowledged, what \<^verbatim>\<open>rand.Int63n\<close> returns for a bound, and
  where, if at all, the round sees its context cancelled: at the top, after \<^verbatim>\<open>runOnce\<close>, or while it waits.
\<close>

datatype seen_cancel = Never | AtTop | AfterSession | InWait

record attempt =
  at_connected :: bool
  at_rnd :: "int \<Rightarrow> int"
  at_cancel :: seen_cancel

text \<open>The waits that \<^verbatim>\<open>Run\<close> begins, and whether it has returned after these rounds.\<close>

fun Run :: "duration \<Rightarrow> attempt list \<Rightarrow> duration list \<times> bool" where
  "Run cur [] = ([], False)"
| "Run cur (a # as) =
     (if at_cancel a = AtTop then ([], True)
      else let cur1 = (if at_connected a then backoffBase else cur)
           in if at_cancel a = AfterSession then ([], True)
              else let half = (if cur1 < backoffBase then backoffBase else cur1) div 2;
                       (wait, cur2) = backoff_next (at_rnd a half) cur1
                   in if at_cancel a = InWait then ([wait], True)
                      else let (waits, returned) = Run cur2 as in (wait # waits, returned))"

text \<open>How many sessions in a row had failed before each round's wait, and the step this calls for.\<close>

fun failures :: "nat \<Rightarrow> attempt list \<Rightarrow> nat list" where
  "failures k [] = []"
| "failures k (a # as) = (let k' = (if at_connected a then 0 else k) in k' # failures (Suc k') as)"

definition backoff_step :: "nat \<Rightarrow> duration" where
  "backoff_step k = min (60 * second) (second * 2 ^ k)"

definition waits_for :: "duration \<Rightarrow> nat \<Rightarrow> bool" where
  "waits_for wait k \<longleftrightarrow> backoff_step k div 2 \<le> wait \<and> wait \<le> backoff_step k"

lemma backoff_step_bounds: "second \<le> backoff_step k" "backoff_step k \<le> 60 * second" "backoff_step 0 = backoffBase"
  by (auto simp: backoff_step_def backoffBase_def)

lemma backoff_step_Suc: "min (60 * second) (2 * backoff_step k) = backoff_step (Suc k)"
  by (auto simp: backoff_step_def min_def)

definition rnd_ok :: "attempt \<Rightarrow> bool" where
  "rnd_ok a \<longleftrightarrow> (\<forall>half \<ge> 0. 0 \<le> at_rnd a half \<and> at_rnd a half \<le> half)"

lemma backoff_next_step:
  assumes "rnd_ok a"
  shows "\<exists>wait. backoff_next (at_rnd a (backoff_step k div 2)) (backoff_step k) = (wait, backoff_step (Suc k)) \<and>
    waits_for wait k"
proof -
  have "0 \<le> backoff_step k div 2" using backoff_step_bounds(1) [of k] by simp
  then have rnd: "0 \<le> at_rnd a (backoff_step k div 2)" "at_rnd a (backoff_step k div 2) \<le> backoff_step k div 2"
    using assms by (simp_all add: rnd_ok_def)
  show ?thesis
    using backoff_next_bounds [OF backoff_step_bounds(1) rnd] backoff_step_bounds(2) [of k] backoff_step_Suc [of k]
    by (cases "backoff_next (at_rnd a (backoff_step k div 2)) (backoff_step k)")
      (simp add: waits_for_def)
qed

lemma Run_round:
  assumes "rnd_ok a" and "k' = (if at_connected a then 0 else k)"
  shows "\<exists>wait. waits_for wait k' \<and>
    Run (backoff_step k) (a # as) =
      (case at_cancel a of
         AtTop \<Rightarrow> ([], True) | AfterSession \<Rightarrow> ([], True) | InWait \<Rightarrow> ([wait], True)
       | Never \<Rightarrow> (wait # fst (Run (backoff_step (Suc k')) as), snd (Run (backoff_step (Suc k')) as)))"
proof -
  obtain wait where wait: "waits_for wait k'"
    "backoff_next (at_rnd a (backoff_step k' div 2)) (backoff_step k') = (wait, backoff_step (Suc k'))"
    using backoff_next_step [OF assms(1), of k'] by blast
  moreover have "(if at_connected a then backoffBase else backoff_step k) = backoff_step k'"
    using assms(2) by (simp add: backoff_step_bounds)
  moreover have "\<not> backoff_step k' < backoffBase" using backoff_step_bounds(1) [of k'] by (simp add: backoffBase_def)
  ultimately show ?thesis
    by (intro exI [of _ wait]) (cases "at_cancel a"; simp add: Let_def case_prod_beta)
qed

lemma Run_waits_for:
  assumes "\<forall>a \<in> set as. rnd_ok a"
  shows "list_all2 waits_for (fst (Run (backoff_step k) as)) (take (length (fst (Run (backoff_step k) as))) (failures k as))"
  using assms
proof (induction as arbitrary: k)
  case (Cons a as)
  let ?k = "if at_connected a then 0 else k"
  obtain wait where "waits_for wait ?k" "Run (backoff_step k) (a # as) =
      (case at_cancel a of
         AtTop \<Rightarrow> ([], True) | AfterSession \<Rightarrow> ([], True) | InWait \<Rightarrow> ([wait], True)
       | Never \<Rightarrow> (wait # fst (Run (backoff_step (Suc ?k)) as), snd (Run (backoff_step (Suc ?k)) as)))"
    using Run_round [of a ?k k as] Cons.prems by auto
  then show ?case using Cons by (cases "at_cancel a") (simp_all add: Let_def del: Run.simps)
qed simp

lemma Run_returns:
  assumes "\<forall>a \<in> set as. rnd_ok a"
  shows "snd (Run (backoff_step k) as) \<longleftrightarrow> (\<exists>a \<in> set as. at_cancel a \<noteq> Never)"
  using assms
proof (induction as arbitrary: k)
  case (Cons a as)
  then show ?case
    using Run_round [of a "if at_connected a then 0 else k" k as] by (cases "at_cancel a") (auto simp del: Run.simps)
qed simp

text \<open>C39. The agent's reconnect loop. Before the wait of any round, let k sessions in a row have failed
  since the last one that was acknowledged, or since the start. The wait is between half of
  min(60 s, 2^k s) and all of it, whatever the random source returns within its contract, so an
  acknowledged session brings the schedule back to at most one second. \<^verbatim>\<open>Run\<close> returns exactly when some
  round has seen the context cancelled.\<close>

theorem Run_reconnects:
  assumes "\<forall>a \<in> set as. rnd_ok a" and "Run backoffBase as = (waits, returned)"
  shows "length waits \<le> length as \<and>
    (\<forall>i < length waits. min (60 * second) (second * 2 ^ (failures 0 as ! i)) div 2 \<le> waits ! i \<and>
       waits ! i \<le> min (60 * second) (second * 2 ^ (failures 0 as ! i))) \<and>
    (returned \<longleftrightarrow> (\<exists>a \<in> set as. at_cancel a \<noteq> Never))"
proof -
  have waits: "list_all2 waits_for waits (take (length waits) (failures 0 as))"
    using Run_waits_for [OF assms(1), of 0] assms(2) by (simp add: backoff_step_bounds)
  have "length (failures k as) = length as" for k by (induction as arbitrary: k) (simp_all add: Let_def)
  then have "length waits \<le> length as" using list_all2_lengthD [OF waits] by simp
  moreover have "waits_for (waits ! i) (failures 0 as ! i)" if "i < length waits" for i
    using list_all2_nthD [OF waits that] that by simp
  moreover have "returned \<longleftrightarrow> (\<exists>a \<in> set as. at_cancel a \<noteq> Never)"
    using Run_returns [OF assms(1), of 0] assms(2) by (simp add: backoff_step_bounds)
  ultimately show ?thesis by (simp add: waits_for_def backoff_step_def)
qed

definition demo_rounds :: "attempt list" where
  "demo_rounds = (let a = \<lparr>at_connected = False, at_rnd = (\<lambda>h. h), at_cancel = Never\<rparr>
                  in [a, a, a, a\<lparr>at_connected := True\<rparr>, a\<lparr>at_cancel := InWait\<rparr>])"

theorem Run_reconnects_witness:
  "Run backoffBase demo_rounds = ([second, 2 * second, 4 * second, second, 2 * second], True) \<and>
   failures 0 demo_rounds = [0, 1, 2, 0, 1] \<and> 4 * second div 2 \<le> [second, 2 * second, 4 * second, second, 2 * second] ! 2"
proof -
  have "Run backoffBase demo_rounds = ([second, 2 * second, 4 * second, second, 2 * second], True)"
    by (simp add: demo_rounds_def backoff_next_def backoffBase_def backoffCap_def)
  moreover have "failures 0 demo_rounds = [0, 1, 2, 0, 1]" by (simp add: demo_rounds_def)
  moreover have "\<forall>a \<in> set demo_rounds. rnd_ok a" by (simp add: demo_rounds_def rnd_ok_def)
  ultimately show ?thesis using Run_reconnects [of demo_rounds] by force
qed

end
