(* ===== verification/GwInterleaving.thy ===== *)
theory GwInterleaving
  imports GwRouter
begin

text \<open>
  The gateway's router under concurrent requests. \<^verbatim>\<open>Pick\<close> and \<^verbatim>\<open>PickExcluding\<close> take the lock for the
  lookup, again to store an answer, and again to move the cursor; the call to the coordinator happens
  outside it. Here these critical sections are separate steps, taken by any number of requests, with
  \<^verbatim>\<open>Invalidate\<close> and the passing of time in between.
\<close>

subsection \<open>Requests and their steps\<close>

text \<open>
  A request is for a model, and for \<^verbatim>\<open>PickExcluding\<close> with a deployment to avoid: about to look the model
  up, waiting for the coordinator, with an answer to store, with a list to choose from, done.
\<close>

datatype picking =
    Lookup
  | Resolving
  | Answered "ReplicaAddr list"
  | Choosing "ReplicaAddr list"
  | Picked "route_error + ReplicaAddr"

record request =
  pq_model :: string
  pq_exclude :: "string option"
  pq_at :: picking

text \<open>
  \<open>rs_heard\<close> has the coordinator's answers with their times, \<open>rs_spread\<close> per model what was picked from
  the cached answer since it was stored, and \<open>rs_first\<close> where the cursor was then.
\<close>

record routing =
  rs_router :: Router
  rs_now :: time
  rs_requests :: "nat \<rightharpoonup> request"
  rs_heard :: "(time \<times> string \<times> ReplicaAddr list) list"
  rs_spread :: "string \<Rightarrow> ReplicaAddr list"
  rs_first :: "string \<Rightarrow> nat"

definition routing_start :: "time \<Rightarrow> routing" where
  "routing_start t = \<lparr>rs_router = New_Router, rs_now = t, rs_requests = Map.empty, rs_heard = [],
     rs_spread = (\<lambda>_. []), rs_first = (\<lambda>_. 0)\<rparr>"

definition chosen_from :: "ReplicaAddr list \<Rightarrow> picking" where
  "chosen_from reps = (if reps = [] then Picked (Inl ErrNoReplicas) else Choosing reps)"

text \<open>The second critical section of \<^verbatim>\<open>replicas\<close>: the answer goes into the entry, the cursor stays.\<close>

definition store_answer :: "time \<Rightarrow> string \<Rightarrow> ReplicaAddr list \<Rightarrow> Router \<Rightarrow> Router" where
  "store_answer now model reps r = fst (fetch_replicas now (Some (\<lambda>_. Some reps)) model r)"

definition cursor :: "string \<Rightarrow> Router \<Rightarrow> nat" where
  "cursor model r = (case cache r model of None \<Rightarrow> 0 | Some e \<Rightarrow> en_next e)"

text \<open>What choosing takes from the cached answer, if there is one.\<close>

definition from_cache :: "string \<Rightarrow> Router \<Rightarrow> ReplicaAddr list" where
  "from_cache model r =
     (case cache r model of None \<Rightarrow> []
      | Some e \<Rightarrow> if en_replicas e = [] then [] else [en_replicas e ! (en_next e mod length (en_replicas e))])"

abbreviation moves :: "nat \<Rightarrow> request \<Rightarrow> picking \<Rightarrow> routing \<Rightarrow> routing" where
  "moves i q at s \<equiv> s\<lparr>rs_requests := (rs_requests s)(i \<mapsto> q\<lparr>pq_at := at\<rparr>)\<rparr>"

definition entry_fresh :: "string \<Rightarrow> routing \<Rightarrow> cache_entry \<Rightarrow> bool" where
  "entry_fresh model s e \<longleftrightarrow> cache (rs_router s) model = Some e \<and> time_Sub (rs_now s) (en_fetchedAt e) < cacheTTL"

inductive routing_step :: "routing \<Rightarrow> routing \<Rightarrow> bool" where
  pick: "i \<notin> dom (rs_requests s) \<Longrightarrow> model \<noteq> [] \<Longrightarrow>
    routing_step s (s\<lparr>rs_requests := (rs_requests s)(i \<mapsto> \<lparr>pq_model = model, pq_exclude = None, pq_at = Lookup\<rparr>)\<rparr>)"
| pick_excluding: "i \<notin> dom (rs_requests s) \<Longrightarrow>
    routing_step s (s\<lparr>rs_requests := (rs_requests s)(i \<mapsto> \<lparr>pq_model = model, pq_exclude = Some ex, pq_at = Lookup\<rparr>)\<rparr>)"
| hit: "rs_requests s i = Some q \<Longrightarrow> pq_at q = Lookup \<Longrightarrow> entry_fresh (pq_model q) s e \<Longrightarrow>
    routing_step s (moves i q (chosen_from (en_replicas e)) s)"
| miss: "rs_requests s i = Some q \<Longrightarrow> pq_at q = Lookup \<Longrightarrow> (\<nexists>e. entry_fresh (pq_model q) s e) \<Longrightarrow>
    routing_step s (moves i q Resolving s)"
| no_client: "rs_requests s i = Some q \<Longrightarrow> pq_at q = Resolving \<Longrightarrow>
    routing_step s (moves i q (Picked (Inl ErrNoReplicas)) s)"
| resolve_fails: "rs_requests s i = Some q \<Longrightarrow> pq_at q = Resolving \<Longrightarrow>
    routing_step s (moves i q (Picked (Inl ErrResolve)) s)"
| answer: "rs_requests s i = Some q \<Longrightarrow> pq_at q = Resolving \<Longrightarrow>
    routing_step s (moves i q (Answered reps) (s\<lparr>rs_heard := (rs_now s, pq_model q, reps) # rs_heard s\<rparr>))"
| store: "rs_requests s i = Some q \<Longrightarrow> pq_at q = Answered reps \<Longrightarrow>
    routing_step s (moves i q (chosen_from reps)
      (s\<lparr>rs_router := store_answer (rs_now s) (pq_model q) reps (rs_router s),
         rs_spread := (rs_spread s)(pq_model q := []),
         rs_first := (rs_first s)(pq_model q := cursor (pq_model q) (rs_router s))\<rparr>))"
| choose: "rs_requests s i = Some q \<Longrightarrow> pq_at q = Choosing reps \<Longrightarrow> pq_exclude q = None \<Longrightarrow>
    pick_next (pq_model q) reps (rs_router s) = (r', rep) \<Longrightarrow>
    routing_step s (moves i q (Picked (Inr rep))
      (s\<lparr>rs_router := r',
         rs_spread := (rs_spread s)(pq_model q := rs_spread s (pq_model q) @ from_cache (pq_model q) (rs_router s))\<rparr>))"
| choose_other: "rs_requests s i = Some q \<Longrightarrow> pq_at q = Choosing reps \<Longrightarrow> pq_exclude q = Some ex \<Longrightarrow>
    routing_step s (moves i q
      (Picked (case first_other ex reps of None \<Rightarrow> Inl ErrNoReplicas | Some rep \<Rightarrow> Inr rep)) s)"
| invalidate: "routing_step s (s\<lparr>rs_router := Invalidate model (rs_router s)\<rparr>)"
| wait: "rs_now s \<le> t \<Longrightarrow> routing_step s (s\<lparr>rs_now := t\<rparr>)"

inductive_cases routing_stepE: "routing_step s s'"

subsection \<open>Every replica comes from an answer\<close>

definition said :: "routing \<Rightarrow> string \<Rightarrow> ReplicaAddr list \<Rightarrow> bool" where
  "said s model reps \<longleftrightarrow> (\<exists>t \<le> rs_now s. (t, model, reps) \<in> set (rs_heard s))"

text \<open>What is known of a request at each of its points.\<close>

fun picking_ok :: "(ReplicaAddr list \<Rightarrow> bool) \<Rightarrow> string option \<Rightarrow> picking \<Rightarrow> bool" where
  "picking_ok heard ex (Answered reps) = heard reps"
| "picking_ok heard ex (Choosing reps) = (reps \<noteq> [] \<and> heard reps)"
| "picking_ok heard ex (Picked (Inr rep)) =
     ((\<exists>reps. heard reps \<and> rep \<in> set reps) \<and> (\<forall>d. ex = Some d \<longrightarrow> rep_deployment_id rep \<noteq> d))"
| "picking_ok heard ex _ = True"

definition spread_ok :: "ReplicaAddr list \<Rightarrow> nat \<Rightarrow> nat \<Rightarrow> ReplicaAddr list \<Rightarrow> bool" where
  "spread_ok reps first next picked \<longleftrightarrow> next = first + length picked \<and>
     picked = map (\<lambda>j. reps ! ((first + j) mod length reps)) [0..<length picked]"

definition entry_ok :: "routing \<Rightarrow> string \<Rightarrow> cache_entry \<Rightarrow> bool" where
  "entry_ok s model e \<longleftrightarrow> said s model (en_replicas e) \<and>
     spread_ok (en_replicas e) (rs_first s model) (en_next e) (rs_spread s model)"

definition routing_inv :: "routing \<Rightarrow> bool" where
  "routing_inv s \<longleftrightarrow>
     (\<forall>model e. cache (rs_router s) model = Some e \<longrightarrow> entry_ok s model e) \<and>
     (\<forall>i q. rs_requests s i = Some q \<longrightarrow> picking_ok (said s (pq_model q)) (pq_exclude q) (pq_at q))"

lemma said_updates [simp]:
  "said (s\<lparr>rs_requests := x\<rparr>) = said s" "said (s\<lparr>rs_router := r\<rparr>) = said s"
  "said (s\<lparr>rs_spread := f\<rparr>) = said s" "said (s\<lparr>rs_first := g\<rparr>) = said s"
  by (simp_all add: said_def fun_eq_iff)

lemma said_mono:
  assumes "said s model reps" and "rs_now s \<le> rs_now s'" and "set (rs_heard s) \<subseteq> set (rs_heard s')"
  shows "said s' model reps"
  using assms unfolding said_def by (meson order_trans subsetD)

lemma picking_ok_mono: "picking_ok h ex p \<Longrightarrow> (\<And>reps. h reps \<Longrightarrow> h' reps) \<Longrightarrow> picking_ok h' ex p"
  by (cases "(h, ex, p)" rule: picking_ok.cases) auto

lemma routing_inv_same:
  assumes "routing_inv s" and "rs_router s' = rs_router s" and "rs_spread s' = rs_spread s" and "rs_first s' = rs_first s"
    and "rs_now s \<le> rs_now s'" and "set (rs_heard s) \<subseteq> set (rs_heard s')"
    and "\<And>i q. rs_requests s' i = Some q \<Longrightarrow>
       rs_requests s i = Some q \<or> picking_ok (said s' (pq_model q)) (pq_exclude q) (pq_at q)"
  shows "routing_inv s'"
proof -
  have said: "said s model reps \<Longrightarrow> said s' model reps" for model reps
    using said_mono assms(5,6) by blast
  then show ?thesis
    using assms unfolding routing_inv_def entry_ok_def by (metis (no_types, lifting) picking_ok_mono)
qed

lemma store_answer_cache:
  "cache (store_answer now model reps r) =
     (cache r)(model \<mapsto> \<lparr>en_replicas = reps, en_fetchedAt = now, en_next = cursor model r\<rparr>)"
  by (auto simp: store_answer_def fetch_replicas_def cursor_def zero_entry_def split: option.split)

lemma pick_next_cases:
  assumes "pick_next model reps r = (r', rep)"
  obtains (given) "r' = r" "rep = reps ! 0" "from_cache model r = []"
  | (cached) e where "cache r model = Some e" "en_replicas e \<noteq> []"
      "r' = r\<lparr>cache := (cache r)(model \<mapsto> e\<lparr>en_next := en_next e + 1\<rparr>)\<rparr>"
      "rep = en_replicas e ! (en_next e mod length (en_replicas e))" "from_cache model r = [rep]"
  using assms by (auto simp: pick_next_def from_cache_def split: option.splits if_splits)

lemma spread_ok_next:
  assumes "spread_ok reps first next picked"
  shows "spread_ok reps first (next + 1) (picked @ [reps ! (next mod length reps)])"
  using assms by (auto simp: spread_ok_def)

lemma chosen_from_ok: "heard reps \<Longrightarrow> picking_ok heard ex (chosen_from reps)"
  by (simp add: chosen_from_def)

lemma first_other_ok:
  "heard reps \<Longrightarrow> picking_ok heard (Some ex) (Picked (case first_other ex reps of None \<Rightarrow> Inl ErrNoReplicas | Some rep \<Rightarrow> Inr rep))"
  by (auto simp: first_other_find find_Some_iff split: option.split)

lemma routing_inv_request:
  "routing_inv s \<Longrightarrow> rs_requests s i = Some q \<Longrightarrow> picking_ok (said s (pq_model q)) (pq_exclude q) (pq_at q)"
  by (simp add: routing_inv_def)

lemma routing_inv_entry: "routing_inv s \<Longrightarrow> cache (rs_router s) model = Some e \<Longrightarrow> entry_ok s model e"
  by (simp add: routing_inv_def)

lemma routing_inv_store:
  assumes "routing_inv s" and "rs_requests s i = Some q" and "pq_at q = Answered reps"
  shows "routing_inv (moves i q (chosen_from reps)
      (s\<lparr>rs_router := store_answer (rs_now s) (pq_model q) reps (rs_router s),
         rs_spread := (rs_spread s)(pq_model q := []),
         rs_first := (rs_first s)(pq_model q := cursor (pq_model q) (rs_router s))\<rparr>))" (is "routing_inv ?s'")
proof -
  have said: "said s (pq_model q) reps" using routing_inv_request [OF assms(1,2)] assms(3) by simp
  with assms(1) chosen_from_ok [of "said s (pq_model q)" reps] show ?thesis
    by (auto simp: routing_inv_def entry_ok_def store_answer_cache spread_ok_def)
qed

lemma routing_inv_choose:
  assumes "routing_inv s" and "rs_requests s i = Some q" and "pq_at q = Choosing reps" and "pq_exclude q = None"
    and "pick_next (pq_model q) reps (rs_router s) = (r', rep)"
  shows "routing_inv (moves i q (Picked (Inr rep))
      (s\<lparr>rs_router := r',
         rs_spread := (rs_spread s)(pq_model q := rs_spread s (pq_model q) @ from_cache (pq_model q) (rs_router s))\<rparr>))"
    (is "routing_inv ?s'")
proof -
  have reps: "reps \<noteq> []" "said s (pq_model q) reps" using routing_inv_request [OF assms(1,2)] assms(3) by auto
  from assms(5) show ?thesis
  proof (cases rule: pick_next_cases)
    case given
    then have "\<exists>reps. said s (pq_model q) reps \<and> rep \<in> set reps" using reps by (intro exI [of _ reps]) simp
    with assms(1,4) given show ?thesis by (auto simp: routing_inv_def entry_ok_def)
  next
    case (cached e)
    note e = routing_inv_entry [OF assms(1) cached(1)]
    have "\<exists>reps. said s (pq_model q) reps \<and> rep \<in> set reps"
      using e cached by (intro exI [of _ "en_replicas e"]) (simp add: entry_ok_def)
    with assms(1,4) cached e spread_ok_next show ?thesis by (auto simp: routing_inv_def entry_ok_def)
  qed
qed

lemma routing_inv_step:
  assumes inv: "routing_inv s" and "routing_step s s'"
  shows "routing_inv s'"
  using assms(2)
proof cases
  case (hit i q e)
  then have "said s (pq_model q) (en_replicas e)"
    using routing_inv_entry [OF inv] by (auto simp: entry_fresh_def entry_ok_def)
  with hit show ?thesis
    by (intro routing_inv_same [OF inv]) (auto intro: chosen_from_ok split: if_splits)
next
  case (answer i q reps)
  then show ?thesis by (intro routing_inv_same [OF inv]) (auto simp: said_def split: if_splits)
next
  case (store i q reps)
  then show ?thesis using routing_inv_store [OF inv] by blast
next
  case (choose i q reps r' rep)
  then show ?thesis using routing_inv_choose [OF inv] by blast
next
  case (choose_other i q reps ex)
  have "said s (pq_model q) reps" using routing_inv_request [OF inv choose_other(2)] choose_other(3) by simp
  with choose_other show ?thesis
    by (intro routing_inv_same [OF inv]) (auto simp del: picking_ok.simps intro: first_other_ok split: if_splits)
next
  case (invalidate model)
  then show ?thesis using inv by (auto simp: routing_inv_def Invalidate_def entry_ok_def)
qed (intro routing_inv_same [OF inv]; auto split: if_splits)+

interpretation routing: inductive_invariant "\<lambda>s. \<exists>t. s = routing_start t" routing_step routing_inv
proof unfold_locales
  show "routing_inv s" if "\<exists>t. s = routing_start t" for s
    using that by (auto simp: routing_inv_def routing_start_def New_Router_def)
qed (fact routing_inv_step)

abbreviation routed :: "routing \<Rightarrow> bool" where
  "routed \<equiv> reachable (\<lambda>s. \<exists>t. s = routing_start t) routing_step"


subsection \<open>A request alone behaves as the sequential definition\<close>

definition asks :: "nat \<Rightarrow> string \<Rightarrow> picking \<Rightarrow> routing \<Rightarrow> bool" where
  "asks i model at s \<longleftrightarrow> rs_requests s i = Some \<lparr>pq_model = model, pq_exclude = None, pq_at = at\<rparr>"

definition ends_with :: "nat \<Rightarrow> string \<Rightarrow> Router \<Rightarrow> (route_error + ReplicaAddr) \<Rightarrow> routing \<Rightarrow> bool" where
  "ends_with i model r' res s \<longleftrightarrow>
     (\<exists>s'. routing_step\<^sup>*\<^sup>* s s' \<and> rs_router s' = r' \<and> asks i model (Picked res) s')"

lemma ends_now: "rs_router s = r' \<Longrightarrow> asks i model (Picked res) s \<Longrightarrow> ends_with i model r' res s"
  by (auto simp: ends_with_def)

lemma ends_after: "routing_step s t \<Longrightarrow> ends_with i model r' res t \<Longrightarrow> ends_with i model r' res s"
  by (auto simp: ends_with_def intro: converse_rtranclp_into_rtranclp)

lemmas ends_in_one = ends_after [OF _ ends_now]

lemma choosing_done:
  assumes "asks i model (chosen_from reps) s" and "reps = [] \<Longrightarrow> res = Inl ErrNoReplicas" and "reps = [] \<Longrightarrow> r' = rs_router s"
    and "reps \<noteq> [] \<Longrightarrow> \<exists>rep. pick_next model reps (rs_router s) = (r', rep) \<and> res = Inr rep"
  shows "ends_with i model r' res s"
proof (cases "reps = []")
  case True
  with assms show ?thesis by (intro ends_now) (simp_all add: chosen_from_def)
next
  case False
  with assms obtain rep where "pick_next model reps (rs_router s) = (r', rep)" "res = Inr rep" by blast
  with False assms(1) show ?thesis
    by (intro ends_in_one [OF routing_step.choose [of s i "\<lparr>pq_model = model, pq_exclude = None, pq_at = Choosing reps\<rparr>" reps r' rep]])
      (auto simp: asks_def chosen_from_def)
qed

lemma Pick_ends:
  assumes "i \<notin> dom (rs_requests s)" and "rs_now s \<le> now'" and "model \<noteq> []"
    and "Pick (rs_now s) now' (Some resolve) model (rs_router s) = (r', res)"
  shows "ends_with i model r' res s"
proof -
  let ?q = "\<lparr>pq_model = model, pq_exclude = None, pq_at = Lookup\<rparr>"
  let ?s0 = "s\<lparr>rs_requests := (rs_requests s)(i \<mapsto> ?q)\<rparr>"
  have start: "routing_step s ?s0" by (rule routing_step.pick [OF assms(1,3)])
  have pick: "(case replicas (rs_now s) now' (Some resolve) model (rs_router s) of
      (r1, Inl e) \<Rightarrow> (r1, Inl e) | (r1, Inr reps) \<Rightarrow> (let (r2, rep) = pick_next model reps r1 in (r2, Inr rep))) = (r', res)"
    using assms(3,4) by (auto simp: Pick_def Let_def split: prod.splits sum.splits)
  show ?thesis
  proof (cases "\<exists>e. entry_fresh model s e")
    case True
    then obtain e where e: "entry_fresh model s e" by blast
    let ?s1 = "moves i ?q (chosen_from (en_replicas e)) ?s0"
    have "routing_step ?s0 ?s1" using e by (intro routing_step.hit [of _ i ?q e]) (simp_all add: entry_fresh_def)
    moreover have "ends_with i model r' res ?s1"
      using e pick by (intro choosing_done [of i model "en_replicas e"])
        (auto simp: asks_def replicas_def entry_fresh_def split: if_splits prod.splits)
    ultimately show ?thesis by (blast intro: ends_after start)
  next
    case False
    let ?s1 = "moves i ?q Resolving ?s0"
    let ?s2 = "?s1\<lparr>rs_now := now'\<rparr>"
    have miss: "replicas (rs_now s) now' (Some resolve) model (rs_router s) = fetch_replicas now' (Some resolve) model (rs_router s)"
      using False by (auto simp: replicas_def entry_fresh_def split: option.split)
    have "routing_step ?s0 ?s1" using False by (intro routing_step.miss) (simp_all add: entry_fresh_def)
    moreover have "routing_step ?s1 ?s2" using assms(2) by (intro routing_step.wait) simp
    moreover have "ends_with i model r' res ?s2"
    proof (cases "resolve model")
      case None
      then show ?thesis
        using pick by (intro ends_in_one [OF routing_step.resolve_fails [of ?s2 i "?q\<lparr>pq_at := Resolving\<rparr>"]])
          (auto simp: miss fetch_replicas_def asks_def)
    next
      case (Some reps)
      let ?q2 = "?q\<lparr>pq_at := Resolving\<rparr>"
      let ?s3 = "moves i ?q2 (Answered reps) (?s2\<lparr>rs_heard := (rs_now ?s2, model, reps) # rs_heard ?s2\<rparr>)"
      let ?q3 = "?q2\<lparr>pq_at := Answered reps\<rparr>"
      let ?s4 = "moves i ?q3 (chosen_from reps)
        (?s3\<lparr>rs_router := store_answer (rs_now ?s3) model reps (rs_router ?s3),
             rs_spread := (rs_spread ?s3)(model := []), rs_first := (rs_first ?s3)(model := cursor model (rs_router ?s3))\<rparr>)"
      have "routing_step ?s2 ?s3" using routing_step.answer [of ?s2 i ?q2 reps] by simp
      moreover have "routing_step ?s3 ?s4" using routing_step.store [of ?s3 i ?q3 reps] by simp
      moreover have "ends_with i model r' res ?s4"
        using pick Some by (intro choosing_done [of i model reps])
          (auto simp: asks_def miss fetch_replicas_def store_answer_def split: prod.splits if_splits)
      ultimately show ?thesis by (blast intro: ends_after)
    qed
    ultimately show ?thesis by (blast intro: ends_after start)
  qed
qed


lemma demo_Pick:
  "Pick 0 5 (Some (\<lambda>_. Some demo_reps)) ''qwen'' New_Router =
     (\<lparr>cache = [''qwen'' \<mapsto> \<lparr>en_replicas = demo_reps, en_fetchedAt = 5, en_next = 1\<rparr>]\<rparr>, Inr (demo_reps ! 0))"
  by (simp add: Pick_def replicas_def fetch_replicas_def pick_next_def New_Router_def zero_entry_def demo_reps_def)

lemma routing_start_simps [simp]:
  "rs_requests (routing_start t) = Map.empty" "rs_now (routing_start t) = t" "rs_router (routing_start t) = New_Router"
  by (simp_all add: routing_start_def)


lemma demo_routed:
  "\<exists>s. routed s \<and> rs_requests s 0 = Some \<lparr>pq_model = ''qwen'', pq_exclude = None, pq_at = Picked (Inr (demo_reps ! 0))\<rparr>"
proof -
  have "routed (routing_start 0)" by (rule reach_init) blast
  moreover obtain s' where "routing_step\<^sup>*\<^sup>* (routing_start 0) s'" "asks 0 ''qwen'' (Picked (Inr (demo_reps ! 0))) s'"
    using Pick_ends [of 0 "routing_start 0" 5 "''qwen''" "\<lambda>_. Some demo_reps"] demo_Pick by (auto simp: ends_with_def)
  ultimately show ?thesis using reachable_run by (fastforce simp: asks_def)
qed


subsection \<open>An invalidation can be undone by an answer from before it\<close>

text \<open>
  \<^verbatim>\<open>Invalidate\<close> is called after a failed dial so that the next request asks the coordinator again. A
  request whose answer arrived before, and which has not stored it yet, puts the old answer back with a
  new time: the next lookups take it for two seconds more.
\<close>

theorem late_answer_undoes_invalidate:
  assumes "rs_requests s i = Some q" and "pq_at q = Answered reps"
  shows "\<exists>s1 s2 e. routing_step s s1 \<and> rs_router s1 = Invalidate (pq_model q) (rs_router s) \<and> rs_heard s2 = rs_heard s \<and>
    routing_step s1 s2 \<and> entry_fresh (pq_model q) s2 e \<and> en_replicas e = reps"
proof -
  let ?r1 = "Invalidate (pq_model q) (rs_router s)"
  let ?s1 = "s\<lparr>rs_router := ?r1\<rparr>"
  let ?e = "\<lparr>en_replicas = reps, en_fetchedAt = rs_now s, en_next = cursor (pq_model q) ?r1\<rparr>"
  have "routing_step s ?s1" by (rule routing_step.invalidate)
  moreover obtain s2 where "routing_step ?s1 s2" "rs_heard s2 = rs_heard s" "entry_fresh (pq_model q) s2 ?e"
    by (rule that [OF routing_step.store [of ?s1 i q reps]])
      (use assms in \<open>simp_all add: entry_fresh_def store_answer_cache cacheTTL_def maxDuration_def\<close>)
  ultimately show ?thesis by (intro exI [of _ ?s1] exI [of _ s2] exI [of _ ?e]) simp
qed

end
