(* ===== verification/GwTransport.thy ===== *)
theory GwTransport
  imports GwProps EngineProps
begin

text \<open>
  The time a request takes between gateway and engine. The gateway's transport gives a replica a bounded
  time to accept the connection, and again to answer with its response headers. The engine serves one
  request after the other; when its headers go out depends on the endpoint and on whether the answer is
  streamed.
\<close>

subsection \<open>When the engine sends its headers\<close>

text \<open>
  A request at the engine: its endpoint, whether it is streamed, how long \<^verbatim>\<open>Generate\<close> takes to return, and
  the tokens with the time each takes.
\<close>

record engine_request =
  er_chat :: bool
  er_stream :: bool
  er_prompt :: duration
  er_tokens :: "(duration \<times> Token) list"

text \<open>How long the request holds the server's lock.\<close>

definition service_time :: "engine_request \<Rightarrow> duration" where
  "service_time q = er_prompt q + sum_list (map fst (er_tokens q))"

text \<open>The first event of a streamed completion: the first token with text, or the one after the last token.\<close>

fun first_event :: "(duration \<times> Token) list \<Rightarrow> duration" where
  "first_event [] = 0"
| "first_event ((d, tok) # rest) = (if tk_Err tok \<noteq> None \<or> tk_Text tok \<noteq> [] then d else d + first_event rest)"

text \<open>
  \<open>ahead\<close> are the requests that get the lock before. A chat stream sends its first event as soon as
  \<^verbatim>\<open>Generate\<close> has returned; an answer that is not streamed is written when it is complete.
\<close>

definition header_time :: "engine_request list \<Rightarrow> engine_request \<Rightarrow> duration" where
  "header_time ahead q =
     sum_list (map service_time ahead) + er_prompt q +
     (if \<not> er_stream q then sum_list (map fst (er_tokens q))
      else if er_chat q then 0
      else first_event (er_tokens q))"

subsection \<open>What the gateway's transport allows\<close>

definition dialTimeout :: duration where
  "dialTimeout = 30 * second"

text \<open>
  The fate of one exchange: whether the address parses, when the connection is there and when the headers
  are, if ever, and the body with whether it could be copied to its end.
\<close>

record arrival =
  ar_parses :: bool
  ar_connect :: "duration option"
  ar_headers :: "duration option"
  ar_body :: string
  ar_complete :: bool

definition in_time :: "duration option \<Rightarrow> bool" where
  "in_time t = (case t of None \<Rightarrow> False | Some d \<Rightarrow> d < dialTimeout)"

definition round_trip :: "arrival \<Rightarrow> exchange" where
  "round_trip a =
     (if \<not> ar_parses a then BadAddress
      else if \<not> in_time (ar_connect a) then NoResponse
      else if \<not> in_time (ar_headers a) then NoResponse
      else if ar_complete a then Complete (ar_body a)
      else BrokenOff (ar_body a))"

text \<open>An engine that is reached at once, whose answer is read to the end.\<close>

definition reached :: "engine_request list \<Rightarrow> engine_request \<Rightarrow> string \<Rightarrow> arrival" where
  "reached ahead q body =
     \<lparr>ar_parses = True, ar_connect = Some 0, ar_headers = Some (header_time ahead q), ar_body = body, ar_complete = True\<rparr>"

lemma round_trip_reached:
  "round_trip (reached ahead q body) = (if header_time ahead q < 30 * second then Complete body else NoResponse)"
  by (simp add: round_trip_def reached_def in_time_def dialTimeout_def)

subsection \<open>Deadlines\<close>

lemma forward_in_time:
  assumes "rq_exchange q n replica = round_trip (reached ahead asked body)" and "header_time ahead asked < 30 * second"
  shows "\<exists>report. forward q n replica = Forwarded report \<and>
    (report = None \<longleftrightarrow> capture (rq_unmarshal q) (rq_decodeFirst q) (rq_stream q) body = None)"
  using assms by (simp add: forward_def round_trip_reached)

lemma forward_too_late:
  assumes "rq_exchange q n replica = round_trip (reached ahead asked body)" and "30 * second \<le> header_time ahead asked"
  shows "forward q n replica = NotForwarded"
  using assms by (simp add: forward_def round_trip_reached)

lemma handleInference_first:
  assumes "peeked e = Some (model, stream)" and "model \<noteq> []"
    and "in_pick e = (now, now', client)" and "Pick now now' client model r = (r1, Inr replica)"
    and "forward ((in_request e)\<lparr>rq_model := model, rq_stream := stream, rq_keyID := keyID\<rparr>) 0 replica = Forwarded report"
  shows "handleInference e keyID (r, rp) = deliver replica report r1 rp"
  using assms by (simp add: handleInference_def)

lemma handleInference_unreachable:
  assumes "peeked e = Some (model, stream)" and "model \<noteq> []"
    and "in_pick e = (now, now', client)" and "Pick now now' client model r = (r1, Inr replica)"
    and "\<And>n rep. forward ((in_request e)\<lparr>rq_model := model, rq_stream := stream, rq_keyID := keyID\<rparr>) n rep = NotForwarded"
  shows "\<exists>r'. handleInference e keyID (r, rp) = ((r', rp), Status 502 ''no reachable replica'')"
  using assms by (cases "in_retry e") (auto simp: handleInference_def split: prod.splits sum.splits)

text \<open>The engines are reached at once, get the request as the client sent it, and answer to the end.\<close>

definition engines_answer ::
  "inference_env \<Rightarrow> bool \<Rightarrow> (nat \<Rightarrow> ReplicaAddr \<Rightarrow> engine_request list) \<Rightarrow> (nat \<Rightarrow> ReplicaAddr \<Rightarrow> engine_request)
     \<Rightarrow> (nat \<Rightarrow> ReplicaAddr \<Rightarrow> string) \<Rightarrow> bool" where
  "engines_answer e stream ahead asked body \<longleftrightarrow>
     rq_exchange (in_request e) = (\<lambda>n rep. round_trip (reached (ahead n rep) (asked n rep) (body n rep))) \<and>
     (\<forall>n rep. er_stream (asked n rep) = stream)"


text \<open>A thousand tokens at twenty a second.\<close>

definition slow_request :: engine_request where
  "slow_request = \<lparr>er_chat = True, er_stream = False, er_prompt = second,
     er_tokens = replicate 1000 (second div 20, zero_Token\<lparr>tk_Text := ''a''\<rparr>)\<rparr>"

definition slow_inference :: "bool \<Rightarrow> inference_env" where
  "slow_inference stream = demo_inference\<lparr>in_peek := \<lambda>_. Some (''qwen'', stream),
     in_request := demo_request\<lparr>rq_exchange :=
       \<lambda>n rep. round_trip (reached [] (slow_request\<lparr>er_stream := stream\<rparr>) ''body'')\<rparr>\<rparr>"


subsection \<open>Request IDs\<close>

text \<open>\<^verbatim>\<open>hex.EncodeToString\<close>, and \<^verbatim>\<open>strconv.FormatInt\<close> with base 36 for a number that is not negative.\<close>

definition digit_char :: "nat \<Rightarrow> char" where
  "digit_char n = char_of (if n < 10 then 48 + n else 87 + n)"

definition EncodeToString :: "8 word list \<Rightarrow> string" where
  "EncodeToString bs = concat (map (\<lambda>b. [digit_char (unat b div 16), digit_char (unat b mod 16)]) bs)"

fun FormatInt36 :: "nat \<Rightarrow> string" where
  "FormatInt36 n = (if n < 36 then [digit_char n] else FormatInt36 (n div 36) @ [digit_char (n mod 36)])"

declare FormatInt36.simps [simp del]

text \<open>\<open>rnd\<close> are the bytes of \<^verbatim>\<open>rand.Read\<close>, sixteen for a request and twelve for the completion that the
  engine answers it with, unless it fails; \<open>nanos\<close> is the clock.\<close>

definition randomID :: "8 word list option \<Rightarrow> nat \<Rightarrow> string" where
  "randomID rnd nanos = (case rnd of None \<Rightarrow> FormatInt36 nanos | Some bs \<Rightarrow> EncodeToString bs)"

definition newRequestID :: "8 word list option \<Rightarrow> nat \<Rightarrow> string" where
  "newRequestID rnd nanos = ''req-'' @ (case rnd of Some bs \<Rightarrow> EncodeToString bs | None \<Rightarrow> FormatInt36 nanos)"

lemma digit_char_inj: "m < 36 \<Longrightarrow> n < 36 \<Longrightarrow> digit_char m = digit_char n \<Longrightarrow> m = n"
  by (auto simp: digit_char_def split: if_splits dest!: arg_cong [where f = "of_char :: char \<Rightarrow> nat"])

lemma length_EncodeToString [simp]: "length (EncodeToString bs) = 2 * length bs"
  by (induction bs) (simp_all add: EncodeToString_def)

lemma EncodeToString_inj: "EncodeToString bs = EncodeToString cs \<Longrightarrow> bs = cs"
proof (induction bs arbitrary: cs)
  case Nil
  then show ?case by (cases cs) (simp_all add: EncodeToString_def)
next
  case (Cons b bs)
  then obtain c cs' where cs: "cs = c # cs'" by (cases cs) (simp_all add: EncodeToString_def)
  have "unat x div 16 < 36" for x :: "8 word"
  proof -
    have "unat x < 2 ^ LENGTH(8)" by (rule unsigned_less)
    then show ?thesis by simp
  qed
  then have "unat b div 16 < 36" "unat c div 16 < 36" by blast+
  moreover have "digit_char (unat b div 16) = digit_char (unat c div 16)" "digit_char (unat b mod 16) = digit_char (unat c mod 16)"
    using Cons.prems by (simp_all add: cs EncodeToString_def)
  moreover have "unat b mod 16 < 36" "unat c mod 16 < 36"
    using mod_less_divisor [of 16 "unat b"] mod_less_divisor [of 16 "unat c"] by linarith+
  ultimately have "unat b div 16 = unat c div 16" "unat b mod 16 = unat c mod 16" using digit_char_inj by blast+
  then have "unat b = unat c" by (metis div_mult_mod_eq)
  then show ?case using Cons by (simp add: cs EncodeToString_def word_unat_eq_iff)
qed

lemma length_FormatInt36: "n < 36 ^ Suc k \<Longrightarrow> length (FormatInt36 n) \<le> Suc k"
proof (induction k arbitrary: n)
  case (Suc k)
  show ?case
  proof (cases "n < 36")
    case False
    have "n div 36 < 36 ^ Suc k" using Suc.prems by (simp add: less_mult_imp_div_less mult.commute)
    then show ?thesis using Suc.IH [of "n div 36"] False by (subst FormatInt36.simps) simp
  qed (simp add: FormatInt36.simps)
qed (simp add: FormatInt36.simps)

lemma FormatInt36_inj: "FormatInt36 m = FormatInt36 n \<Longrightarrow> m = n"
proof (induction m arbitrary: n rule: FormatInt36.induct)
  case (1 m)
  have ne: "FormatInt36 k \<noteq> []" "[] \<noteq> FormatInt36 k" for k by (subst FormatInt36.simps, simp)+
  have d: "digit_char (m mod 36) = digit_char (n mod 36)" "m < 36 \<longleftrightarrow> n < 36"
    using 1(2) ne by (auto simp: FormatInt36.simps [of m] FormatInt36.simps [of n] split: if_splits)
  have "m mod 36 < 36" "n mod 36 < 36" by simp_all
  then have "m mod 36 = n mod 36" using d(1) by (rule digit_char_inj)
  moreover have "m div 36 = n div 36" if "\<not> m < 36"
    using 1(1) [OF that, of "n div 36"] 1(2) that d(2) by (simp add: FormatInt36.simps [of m] FormatInt36.simps [of n])
  moreover have "m div 36 = 0 \<and> n div 36 = 0" if "m < 36" using that d(2) by simp
  ultimately show ?case by (metis div_mult_mod_eq)
qed

text \<open>
  A hexadecimal name of at least seven random bytes is longer than any reading of the clock in base 36, so
  two names are equal only if they were made from the same bytes or the same reading.
\<close>

lemma randomID_distinct:
  assumes "randomID r1 n1 = randomID r2 n2"
    and long: "\<And>bs. r1 = Some bs \<or> r2 = Some bs \<Longrightarrow> 6 < length bs" and "n1 < 2 ^ 63" and "n2 < 2 ^ 63"
  shows "r1 = r2 \<and> (r1 = None \<longrightarrow> n1 = n2)"
proof -
  have short: "length (FormatInt36 n) \<le> 13" if "n < 2 ^ 63" for n
    using length_FormatInt36 [of n 12] that by simp
  have clash: "EncodeToString bs \<noteq> FormatInt36 n" if "6 < length bs" "n < 2 ^ 63" for bs n
  proof
    assume "EncodeToString bs = FormatInt36 n"
    then have "2 * length bs = length (FormatInt36 n)" by (metis length_EncodeToString)
    then show False using that(1) short [OF that(2)] by simp
  qed
  show ?thesis
    using assms(1,3,4) long clash EncodeToString_inj FormatInt36_inj
    by (cases r1; cases r2) (fastforce simp: randomID_def)+
qed

text \<open>
  Two requests have the same ID only if they drew the same sixteen random bytes, or were both numbered by
  the same clock reading: different requests never share one by the way it is written down, so the
  ledger's key merges nothing but repetitions.
\<close>

theorem newRequestID_distinct:
  assumes "newRequestID r1 n1 = newRequestID r2 n2"
    and "\<And>bs. r1 = Some bs \<or> r2 = Some bs \<Longrightarrow> length bs = 16" and "n1 < 2 ^ 63" and "n2 < 2 ^ 63"
  shows "r1 = r2 \<and> (r1 = None \<longrightarrow> n1 = n2)"
  using assms randomID_distinct [of r1 n1 r2 n2] by (simp add: newRequestID_def randomID_def)

end
