(* ===== verification/Failover.thy ===== *)
theory Failover
  imports CoordProps
begin

text \<open>
  What becomes of the deployments of a node that falls silent. The coordinator runs on, with its clock:
  the reaper and the reconciler tick, other nodes come, report and go, deployments are created and
  deleted; only the lost node says nothing any more.
\<close>

subsection \<open>The coordinator while one node is silent\<close>

text \<open>The ID a message registers, if it is a registration.\<close>

definition registers_as :: "event_env \<Rightarrow> AgentMessage \<Rightarrow> string option" where
  "registers_as e msg =
     (case msg of AM_Register reg \<Rightarrow> Some (if rg_node_id reg = [] then ev_newID e else rg_node_id reg) | _ \<Rightarrow> None)"

text \<open>One tick of each of the two background loops, every ten and every fifteen seconds.\<close>

definition StartReaper :: "string list \<Rightarrow> time \<times> Coordinator \<Rightarrow> time \<times> Coordinator" where
  "StartReaper ord s = (let (t, w) = s in (t, w\<lparr>co_reg := reap ord t (10 * second) (co_reg w)\<rparr>))"

definition StartReconciler ::
  "event_env \<Rightarrow> (string \<Rightarrow> string list) \<Rightarrow> (string \<Rightarrow> string list) \<Rightarrow> time \<times> Coordinator \<Rightarrow> time \<times> Coordinator" where
  "StartReconciler e dords nords s =
     (let (t, w) = s in (t, with_deploy w (Reconcile (ev_dord e) dords nords t (ev_net e) (co_reg w))))"

definition reconciler_orders :: "event_env \<Rightarrow> (string \<Rightarrow> string list) \<Rightarrow> (string \<Rightarrow> string list) \<Rightarrow> Coordinator \<Rightarrow> bool" where
  "reconciler_orders e dords nords w \<longleftrightarrow> orders_ok e w \<and> (\<forall>k. map_order (dords k) (deploy (co_deploy w))) \<and>
     (\<forall>k. map_order (nords k) (nodes (co_reg w)))"

inductive quiet_step :: "string \<Rightarrow> time \<times> Coordinator \<Rightarrow> time \<times> Coordinator \<Rightarrow> bool" for k where
  later: "t \<le> t' \<Longrightarrow> quiet_step k (t, w) (t', w)"
| opens: "ev_now e = t \<Longrightarrow> registers_as e first \<noteq> Some k \<Longrightarrow> quiet_step k (t, w) (t, fst (connect_open e str first w))"
| message: "ev_now e = t \<Longrightarrow> nodeID \<noteq> k \<Longrightarrow> registers_as e msg \<noteq> Some k \<Longrightarrow> orders_ok e w \<Longrightarrow>
    quiet_step k (t, w) (t, handle_message e nodeID str msg w)"
| closes: "quiet_step k (t, w) (t, connect_close nodeID w)"
| run_job: "ev_now e = t \<Longrightarrow> quiet_step k (t, w) (t, fst (admin_RunJob e nodeID spec w))"
| create: "ev_now e = t \<Longrightarrow> ev_newID e \<notin> dom (deploy (co_deploy w)) \<Longrightarrow> distinct (ev_dord e) \<Longrightarrow>
    set (ev_dord e) = insert (ev_newID e) (dom (deploy (co_deploy w))) \<Longrightarrow> map_order (ev_nord e) (nodes (co_reg w)) \<Longrightarrow>
    quiet_step k (t, w) (t, fst (CreateDeployment e spec replicas w))"
| delete: "quiet_step k (t, w) (t, fst (DeleteDeployment e dID w))"
| reaper: "map_order ord (nodes (co_reg w)) \<Longrightarrow> quiet_step k (t, w) (StartReaper ord (t, w))"
| reconciler: "reconciler_orders e dords nords w \<Longrightarrow> quiet_step k (t, w) (StartReconciler e dords nords (t, w))"

inductive_cases quiet_stepE: "quiet_step k s s'"

definition tables_inv :: "Coordinator \<Rightarrow> bool" where
  "tables_inv w \<longleftrightarrow> registry_inv (co_reg w) \<and> manager_inv (co_deploy w)"

lemma tick_parts [simp]:
  "StartReaper ord (t, w) = (t, w\<lparr>co_reg := reap ord t (10 * second) (co_reg w)\<rparr>)"
  "StartReconciler e dords nords (t, w) =
     (t, with_deploy w (Reconcile (ev_dord e) dords nords t (ev_net e) (co_reg w)))"
  by (simp_all add: StartReaper_def StartReconciler_def)

lemma handle_message_parts:
  "co_reg (handle_message e nodeID str msg w) =
     (case msg of AM_Heartbeat hb \<Rightarrow> Touch (ev_now e) nodeID hb (co_reg w)
      | AM_Register reg \<Rightarrow> fst (Upsert (ev_newID e) (ev_now e) reg str (co_reg w)) | _ \<Rightarrow> co_reg w)"
  "co_deploy (handle_message e nodeID str msg w) =
     (case msg of AM_Heartbeat hb \<Rightarrow> fst (OnHeartbeat (ev_dord e) (ev_now e) (ev_net e)
          (Touch (ev_now e) nodeID hb (co_reg w)) nodeID (hb_active_deployment_ids hb) (co_deploy w, co_sent w))
      | AM_DeploymentUpdate upd \<Rightarrow> fst (OnUpdate (ev_now e) (ev_net e) (co_reg w) nodeID upd (co_deploy w, co_sent w))
      | _ \<Rightarrow> co_deploy w)"
  by (simp_all add: handle_message_def Let_def split: AgentMessage.split)

lemma tables_inv_step: "tables_inv w \<Longrightarrow> quiet_step k (t, w) (t', w') \<Longrightarrow> tables_inv w'"
  by (erule quiet_stepE)
    (auto simp: tables_inv_def connect_open_parts admin_RunJob_parts deployment_rpc_parts connect_close_def
      handle_message_inv handle_message_parts(2) intro: inv_intros split: AgentMessage.split)

subsection \<open>Properties of all replicas\<close>

definition all_replicas :: "(Replica \<Rightarrow> bool) \<Rightarrow> Manager \<Rightarrow> bool" where
  "all_replicas Q m \<longleftrightarrow> (\<forall>k d r. deploy m k = Some d \<longrightarrow> dp_Replica d = Some r \<longrightarrow> Q r)"

lemma all_replicas_set_replica:
  "all_replicas Q m \<Longrightarrow> (\<And>r. rep = Some r \<Longrightarrow> Q r) \<Longrightarrow> all_replicas Q (set_replica k rep m)"
  by (auto simp: all_replicas_def set_replica_def split: option.splits)

lemma all_replicas_fold: "all_replicas Q m \<Longrightarrow> all_replicas Q (fold (\<lambda>k. set_replica k None) ks m)"
  by (induction ks arbitrary: m) (auto intro!: all_replicas_set_replica)

lemma all_replicas_OnHeartbeat:
  "all_replicas Q (fst mo) \<Longrightarrow> all_replicas Q (fst (OnHeartbeat dord now net reg nodeID active mo))"
  by (auto simp: OnHeartbeat_def all_replicas_fold split: prod.split)

lemma all_replicas_Delete: "all_replicas Q (fst mo) \<Longrightarrow> all_replicas Q (fst (fst (Delete net reg dID mo)))"
  by (auto simp: Delete_def all_replicas_def split: prod.splits option.splits if_splits)

lemma all_replicas_OnUpdate:
  assumes "all_replicas Q (fst mo)"
    and "\<And>r r'. Q r \<Longrightarrow> rp_NodeID r = nodeID \<Longrightarrow> rp_NodeID r' = nodeID \<Longrightarrow> rp_LastUpdate r' = now \<Longrightarrow> Q r'"
  shows "all_replicas Q (fst (OnUpdate now net reg nodeID upd mo))"
proof -
  obtain m ob where mo: "mo = (m, ob)" by (cases mo)
  show ?thesis
  proof (cases "Option.bind (deploy m (du_deployment_id upd)) dp_Replica")
    case None
    with assms(1) show ?thesis by (simp add: mo OnUpdate_def)
  next
    case (Some r)
    then have "Q r" using assms(1) by (auto simp: mo all_replicas_def bind_eq_Some_conv)
    with Some assms show ?thesis by (auto simp: mo OnUpdate_def Let_def intro!: all_replicas_set_replica)
  qed
qed

text \<open>A new replica is on a node the registry has \<^verbatim>\<open>ONLINE\<close>.\<close>

definition placeable :: "(Replica \<Rightarrow> bool) \<Rightarrow> Registry \<Rightarrow> time \<Rightarrow> bool" where
  "placeable Q reg now \<longleftrightarrow>
     (\<forall>n dID. Get (node_ID n) reg = Some n \<longrightarrow> node_Status n = NODE_STATUS_ONLINE \<longrightarrow> Q (new_replica dID (node_ID n) now))"

lemma all_replicas_place:
  assumes "all_replicas Q (fst mo)" and "manager_inv (fst mo)" and "map_order dord (deploy (fst mo))"
    and "directory_valid nord reg" and "placeable Q reg now"
  shows "all_replicas Q (fst (fst (place dord nord now net reg d kind mo)))"
proof (cases "selectNode dord nord now reg d kind (fst mo)")
  case (Inl e)
  with assms(1) show ?thesis by (auto simp: place_def split: prod.split)
next
  case (Inr n)
  then have "Get (node_ID n) reg = Some n" "node_Status n = NODE_STATUS_ONLINE"
    using selectNode_Inr [OF assms(3) manager_inv_keyed [OF assms(2)] assms(4)] by (auto simp: eligible_def)
  with assms(5) have "Q (new_replica (dp_ID d) (node_ID n) now)" by (simp add: placeable_def)
  with Inr assms(1) show ?thesis
    by (auto simp: place_def stream_Send_def intro!: all_replicas_set_replica split: prod.splits if_splits)
qed

lemma all_replicas_place_all:
  assumes "all_replicas Q (fst mo)" and "manager_inv (fst mo)" and "\<forall>k. map_order (dords k) (deploy (fst mo))"
    and "\<forall>k. directory_valid (nords k) reg" and "placeable Q reg now"
  shows "all_replicas Q (fst (place_all dords nords now net reg ds mo))"
  using assms(1-3)
proof (induction ds arbitrary: mo)
  case (Cons d ds)
  show ?case
  proof (cases "requiredRunner (Some (dp_Spec d))")
    case (Inr kind)
    let ?mo = "fst (place (dords (dp_ID d)) (nords (dp_ID d)) now net reg d kind mo)"
    have "all_replicas Q (fst ?mo)" using Cons.prems assms(4,5) by (intro all_replicas_place) auto
    moreover have "manager_inv (fst ?mo)" using Cons.prems(2) by (rule manager_inv_place)
    moreover have "\<forall>k. map_order (dords k) (deploy (fst ?mo))" using Cons.prems(3) by (simp add: map_order_def place_frame)
    ultimately show ?thesis using Cons.IH [of ?mo] Inr by simp
  qed (use Cons in simp)
qed simp

lemma all_replicas_Create:
  assumes "all_replicas Q (fst mo)" and "manager_inv (fst mo)" and "newID \<notin> dom (deploy (fst mo))"
    and "distinct dord" and "set dord = insert newID (dom (deploy (fst mo)))"
    and "directory_valid nord reg" and "placeable Q reg now"
  shows "all_replicas Q (fst (fst (Create newID dord nord now net reg spec replicas mo)))"
proof (cases "spec_refused spec replicas")
  case True
  with assms(1) show ?thesis using Create_refused [of spec replicas newID dord nord now net reg mo] by auto
next
  case False
  obtain m ob where mo: "mo = (m, ob)" by (cases mo)
  let ?m = "m\<lparr>deploy := (deploy m)(newID \<mapsto> fresh_deployment newID spec)\<rparr>"
  have "manager_inv ?m" using assms(2) mo manager_inv_fresh [OF _ False] by simp
  moreover have "all_replicas Q ?m" using assms(1) by (auto simp: mo all_replicas_def fresh_deployment_def)
  moreover have "map_order dord (deploy ?m)" using assms(4,5) by (auto simp: mo map_order_def)
  ultimately show ?thesis
    using Create_accepted [OF False, of newID dord nord now net reg m ob] assms(6,7)
      all_replicas_place [of Q "(?m, ob)" dord nord reg now]
    by (auto simp: mo)
qed

lemma all_replicas_swept:
  assumes "all_replicas Q m"
  shows "all_replicas Q (m\<lparr>deploy := sweep (reconcile_entry now reg) dord (deploy m)\<rparr>)"
proof -
  have "\<forall>r. dp_Replica d = Some r \<longrightarrow> Q r" if "sweep (reconcile_entry now reg) dord (deploy m) k = Some d" for k d
    by (rule sweep_entries [where P = "\<lambda>_ d. \<forall>r. dp_Replica d = Some r \<longrightarrow> Q r", OF _ _ that])
      (use assms in \<open>auto simp: all_replicas_def reconcile_entry_def Let_def split: option.splits if_splits\<close>)
  then show ?thesis by (auto simp: all_replicas_def)
qed

lemma Reconcile_swept:
  assumes "manager_inv (fst mo)" and "\<forall>k. map_order (dords k) (deploy (fst mo))" and "\<forall>k. directory_valid (nords k) reg"
    and "placeable Q reg now"
    and "all_replicas Q ((fst mo)\<lparr>deploy := sweep (reconcile_entry now reg) dord (deploy (fst mo))\<rparr>)"
  shows "all_replicas Q (fst (Reconcile dord dords nords now net reg mo))"
proof -
  let ?m = "(fst mo)\<lparr>deploy := sweep (reconcile_entry now reg) dord (deploy (fst mo))\<rparr>"
  have "manager_inv ?m" using assms(1) by (rule manager_inv_swept)
  moreover have "\<forall>k. map_order (dords k) (deploy ?m)" using assms(2) by (simp add: map_order_def)
  ultimately show ?thesis
    using assms(3-5) all_replicas_place_all [of Q "(?m, snd mo)" dords nords reg now]
    by (cases mo) (simp add: Reconcile_def)
qed

text \<open>
  A property of replicas, which may depend on the time, is kept by every step when time does not break
  it, it holds for new replicas on nodes that are \<^verbatim>\<open>ONLINE\<close>, and updates of other nodes keep it.
\<close>

lemma all_replicas_step:
  assumes "quiet_step k (t, w) (t', w')" and "tables_inv w" and "all_replicas (Q t) (co_deploy w)"
    and "\<And>r. t \<le> t' \<Longrightarrow> Q t r \<Longrightarrow> Q t' r"
    and "placeable (Q t) (co_reg w) t"
    and "\<And>r r'. Q t r \<Longrightarrow> rp_NodeID r \<noteq> k \<Longrightarrow> rp_NodeID r' = rp_NodeID r \<Longrightarrow> rp_LastUpdate r' = t \<Longrightarrow> Q t r'"
  shows "all_replicas (Q t') (co_deploy w')"
  using assms(1)
proof (cases rule: quiet_step.cases)
  case later
  with assms(3,4) show ?thesis by (auto simp: all_replicas_def)
next
  case (opens e first str)
  with assms(3) show ?thesis by (simp add: connect_open_parts)
next
  case (message e nodeID msg str)
  have "all_replicas (Q t) (fst (OnUpdate t (ev_net e) (co_reg w) nodeID upd (co_deploy w, co_sent w)))" for upd
    using assms(3,6) message by (intro all_replicas_OnUpdate) auto
  with assms(3) message show ?thesis
    by (auto simp: handle_message_parts(2) all_replicas_OnHeartbeat split: AgentMessage.split)
next
  case (closes nodeID)
  with assms(3) show ?thesis by (simp add: connect_close_def)
next
  case (run_job e nodeID spec)
  with assms(3) show ?thesis by (simp add: admin_RunJob_parts)
next
  case (create e spec replicas)
  with assms(2,3,5) show ?thesis
    by (auto simp: deployment_rpc_parts tables_inv_def intro!: all_replicas_Create directory_validI)
next
  case (delete e dID)
  with assms(3) show ?thesis by (simp add: deployment_rpc_parts all_replicas_Delete)
next
  case (reaper ord)
  with assms(3) show ?thesis by simp
next
  case (reconciler e dords nords)
  with assms(2,3,5) show ?thesis
    by (auto simp: tables_inv_def reconciler_orders_def intro!: Reconcile_swept all_replicas_swept directory_validI)
qed

subsection \<open>A lost node is left\<close>

definition lost :: "string \<Rightarrow> Coordinator \<Rightarrow> bool" where
  "lost k w \<longleftrightarrow> (\<forall>n. Get k (co_reg w) = Some n \<longrightarrow> node_Status n \<noteq> NODE_STATUS_ONLINE)"

lemma Upsert_ID: "snd (Upsert newID now reg send r) = (if rg_node_id reg = [] then newID else rg_node_id reg)"
  by (simp add: Upsert_def split_beta)

lemma lost_step:
  assumes "lost k w" and "quiet_step k (t, w) (t', w')"
  shows "lost k w'"
  using assms(2)
proof (cases rule: quiet_step.cases)
  case (opens e first str)
  then show ?thesis
    using assms(1) Get_Upsert_other [of k "ev_newID e" "ev_now e" _ str "co_reg w"]
    by (auto simp: lost_def connect_open_def stream_Send_def registers_as_def split_beta Upsert_ID
        Get_MarkDisconnected split: AgentMessage.splits if_splits)
next
  case (message e nodeID msg str)
  then show ?thesis
    using assms(1) Get_Upsert_other [of k "ev_newID e" "ev_now e" _ str "co_reg w"]
    by (auto simp: lost_def handle_message_parts(1) registers_as_def Upsert_ID Get_Touch
        split: AgentMessage.splits if_splits)
next
  case (closes nodeID)
  then show ?thesis using assms(1) by (auto simp: lost_def connect_close_def Get_MarkDisconnected split: if_splits)
next
  case (reaper ord)
  then show ?thesis using assms(1) by (auto simp: lost_def Get_reap reap_node_def Let_def split: if_splits)
qed (use assms(1) in \<open>simp_all add: lost_def admin_RunJob_parts deployment_rpc_parts\<close>)

text \<open>What is known of the replicas on the node: until it is lost, their updates are in the past; then, none is
  later than the loss; and after a reconciler pass more than a minute later there are none.\<close>

definition past :: "time \<Rightarrow> Replica \<Rightarrow> bool" where
  "past t r \<longleftrightarrow> rp_LastUpdate r \<le> t"

definition stale_on :: "string \<Rightarrow> time \<Rightarrow> Replica \<Rightarrow> bool" where
  "stale_on k t r \<longleftrightarrow> (rp_NodeID r = k \<longrightarrow> rp_LastUpdate r \<le> t)"

definition not_on :: "string \<Rightarrow> Replica \<Rightarrow> bool" where
  "not_on k r \<longleftrightarrow> rp_NodeID r \<noteq> k"

lemma placeable_past: "placeable (past t) reg t"
  by (simp add: placeable_def past_def new_replica_def)

lemma placeable_lost: "lost k w \<Longrightarrow> placeable (not_on k) (co_reg w) t" "lost k w \<Longrightarrow> placeable (stale_on k T) (co_reg w) t"
  by (auto simp: placeable_def lost_def not_on_def stale_on_def new_replica_def)

definition unseen :: "string \<Rightarrow> time \<Rightarrow> Coordinator \<Rightarrow> bool" where
  "unseen k seen w \<longleftrightarrow> (\<forall>n. Get k (co_reg w) = Some n \<longrightarrow> node_LastSeen n \<le> seen)"

lemma unseen_step:
  assumes "unseen k seen w" and "quiet_step k (t, w) (t', w')"
  shows "unseen k seen w'"
  using assms(2)
proof (cases rule: quiet_step.cases)
  case (opens e first str)
  then show ?thesis
    using assms(1) Get_Upsert_other [of k "ev_newID e" "ev_now e" _ str "co_reg w"]
    by (auto simp: unseen_def connect_open_def stream_Send_def registers_as_def split_beta Upsert_ID
        Get_MarkDisconnected split: AgentMessage.splits if_splits)
next
  case (message e nodeID msg str)
  then show ?thesis
    using assms(1) Get_Upsert_other [of k "ev_newID e" "ev_now e" _ str "co_reg w"]
    by (auto simp: unseen_def handle_message_parts(1) registers_as_def Upsert_ID Get_Touch
        split: AgentMessage.splits if_splits)
next
  case (closes nodeID)
  then show ?thesis using assms(1) by (auto simp: unseen_def connect_close_def Get_MarkDisconnected split: if_splits)
next
  case (reaper ord)
  then show ?thesis using assms(1) by (auto simp: unseen_def Get_reap reap_node_def Let_def split: if_splits)
qed (use assms(1) in \<open>simp_all add: unseen_def admin_RunJob_parts deployment_rpc_parts\<close>)

definition silent_since :: "string \<Rightarrow> time \<Rightarrow> time \<times> Coordinator \<Rightarrow> bool" where
  "silent_since k seen s \<longleftrightarrow> tables_inv (snd s) \<and> unseen k seen (snd s) \<and> all_replicas (past (fst s)) (co_deploy (snd s))"

definition lost_since :: "string \<Rightarrow> time \<Rightarrow> time \<times> Coordinator \<Rightarrow> bool" where
  "lost_since k T s \<longleftrightarrow> tables_inv (snd s) \<and> lost k (snd s) \<and> all_replicas (stale_on k T) (co_deploy (snd s))"

definition left_behind :: "string \<Rightarrow> time \<times> Coordinator \<Rightarrow> bool" where
  "left_behind k s \<longleftrightarrow> tables_inv (snd s) \<and> lost k (snd s) \<and> all_replicas (not_on k) (co_deploy (snd s))"

interpretation silent: inductive_invariant "silent_since k seen" "quiet_step k" "silent_since k seen" for k seen
proof unfold_locales
  show "silent_since k seen s'" if "silent_since k seen s" "quiet_step k s s'" for s s'
    using that tables_inv_step [of "snd s" k "fst s" "fst s'" "snd s'"] unseen_step [of k seen "snd s" "fst s" "fst s'" "snd s'"]
      all_replicas_step [of k "fst s" "snd s" "fst s'" "snd s'" past] placeable_past
    by (auto simp: silent_since_def past_def)
qed

interpretation gone: inductive_invariant "lost_since k T" "quiet_step k" "lost_since k T" for k T
proof unfold_locales
  show "lost_since k T s'" if "lost_since k T s" "quiet_step k s s'" for s s'
    using that tables_inv_step [of "snd s" k "fst s" "fst s'" "snd s'"] lost_step [of k "snd s" "fst s" "fst s'" "snd s'"]
      all_replicas_step [of k "fst s" "snd s" "fst s'" "snd s'" "\<lambda>_. stale_on k T"] placeable_lost(2)
    by (auto simp: lost_since_def stale_on_def)
qed

interpretation evacuated: inductive_invariant "left_behind k" "quiet_step k" "left_behind k" for k
proof unfold_locales
  show "left_behind k s'" if "left_behind k s" "quiet_step k s s'" for s s'
    using that tables_inv_step [of "snd s" k "fst s" "fst s'" "snd s'"] lost_step [of k "snd s" "fst s" "fst s'" "snd s'"]
      all_replicas_step [of k "fst s" "snd s" "fst s'" "snd s'" "\<lambda>_. not_on k"] placeable_lost(1)
    by (auto simp: left_behind_def not_on_def)
qed

lemma reaped_lost:
  assumes "silent_since k seen (T, w)" and "map_order ord (nodes (co_reg w))" and "30 * second < T - seen"
  shows "lost_since k T (StartReaper ord (T, w))"
proof -
  have "quiet_step k (T, w) (StartReaper ord (T, w))" using assms(2) by (rule quiet_step.reaper)
  then have "tables_inv (snd (StartReaper ord (T, w)))" using assms(1) tables_inv_step by (auto simp: silent_since_def)
  moreover have "lost k (snd (StartReaper ord (T, w)))"
  proof -
    have "node_Status (reap_node T (10 * second) n) \<noteq> NODE_STATUS_ONLINE" if "node_LastSeen n \<le> seen" for n
      using that assms(3) by (simp add: reap_node_def maxDuration_def)
    then show ?thesis using assms(1) by (auto simp: lost_def silent_since_def unseen_def Get_reap [OF assms(2)])
  qed
  moreover have "all_replicas (stale_on k T) (co_deploy w)"
    using assms(1) by (auto simp: silent_since_def all_replicas_def past_def stale_on_def)
  ultimately show ?thesis by (simp add: lost_since_def)
qed

lemma reconciled_left:
  assumes "lost_since k T (t, w)" and "reconciler_orders e dords nords w" and "60 * second < t - T"
  shows "left_behind k (StartReconciler e dords nords (t, w))"
proof -
  have step: "quiet_step k (t, w) (StartReconciler e dords nords (t, w))" using assms(2) by (rule quiet_step.reconciler)
  have inv: "tables_inv w" "lost k w" "all_replicas (stale_on k T) (co_deploy w)"
    using assms(1) by (auto simp: lost_since_def)
  have "dp_Replica (reconcile_entry t (co_reg w) d) = Some r \<Longrightarrow> not_on k r"
    if "deploy (co_deploy w) j = Some d" for j d r
    using that inv(2,3) assms(3)
    by (fastforce simp: reconcile_entry_def Let_def lost_def all_replicas_def stale_on_def not_on_def lostAfter_def
        maxDuration_def split: option.splits if_splits)
  then have "all_replicas (not_on k) ((co_deploy w)\<lparr>deploy := sweep (reconcile_entry t (co_reg w)) (ev_dord e) (deploy (co_deploy w))\<rparr>)"
    using assms(2) by (auto simp: all_replicas_def reconciler_orders_def orders_ok_def sweep_order)
  then have "all_replicas (not_on k) (co_deploy (snd (StartReconciler e dords nords (t, w))))"
    using inv(1,2) assms(2) placeable_lost(1)
    by (auto simp: reconciler_orders_def tables_inv_def intro!: Reconcile_swept directory_validI)
  moreover have "tables_inv (snd (StartReconciler e dords nords (t, w)))" "lost k (snd (StartReconciler e dords nords (t, w)))"
    using step inv tables_inv_step lost_step by (metis prod.collapse)+
  ultimately show ?thesis by (simp add: left_behind_def)
qed


text \<open>A coordinator with one node, which hosts a deployment and is not heard of again.\<close>

lemma demo_served_parts:
  "co_reg demo_served = demo_registry" "co_sched demo_served = New_Scheduler"
  "deploy (co_deploy demo_served) = [''d1'' \<mapsto> \<lparr>dp_ID = ''d1'', dp_Spec = demo_spec\<lparr>spec_deployment_id := ''d1''\<rparr>,
     dp_Replica = Some (new_replica ''d1'' ''n1'' 0), dp_avoid = Map.empty\<rparr>]"
proof -
  show "co_reg demo_served = demo_registry" "co_sched demo_served = New_Scheduler"
    by (simp_all add: demo_served_def deployment_rpc_parts demo_connected_parts)
  have "co_deploy demo_served = fst (fst (Create ''d1'' [''d1''] [''n1''] 0 (\<lambda>_ _ _. True) demo_registry
      (Some demo_spec) 1 (New_Manager, co_sent demo_connected)))"
    by (simp add: demo_served_def deployment_rpc_parts demo_connected_parts demo_env_def)
  then show "deploy (co_deploy demo_served) = [''d1'' \<mapsto> \<lparr>dp_ID = ''d1'', dp_Spec = demo_spec\<lparr>spec_deployment_id := ''d1''\<rparr>,
     dp_Replica = Some (new_replica ''d1'' ''n1'' 0), dp_avoid = Map.empty\<rparr>]"
    by (simp add: Create_def demo_spec_def requiredRunner_def GetNative_def place_def selectNode_def Snapshot_demo
        Get_demo_registry demo_gpu_def demo_system_def occupied_def map_filter_simps New_Manager_def stream_Send_def
        set_replica_def)
qed

lemma demo_silent: "silent_since ''n1'' 0 (0, demo_served)"
proof -
  have "tables_inv demo_served"
    using coordinator.reachable_inv [OF reachable_demo_served] by (simp add: coord_inv_def tables_inv_def placement_inv_def)
  then show ?thesis
    by (auto simp: silent_since_def unseen_def demo_served_parts Get_demo_registry all_replicas_def past_def
        new_replica_def split: if_splits)
qed


end
