(* ===== verification/Migrations.thy ===== *)
theory Migrations
  imports UsageStore
begin

text \<open>
  The schema migrations of \<^verbatim>\<open>store.go\<close> (\<^verbatim>\<open>Postgres.migrate\<close>). What a migration script does to the
  database is the database's business: \<open>sql\<close> maps the text of a script and a database to the changed
  database, or to nothing when the script fails. The rows of \<^verbatim>\<open>schema_migrations\<close> are a list, in the
  order they were inserted.
\<close>

record 'db pg_state =
  pg_db :: 'db
  pg_applied :: "string list"

datatype migrate_error =
    ErrCreateTable
  | ErrCheck string
  | ErrBegin string
  | ErrApply string
  | ErrRecord string
  | ErrCommit string

text \<open>
  Which of the calls around one script fails. A commit that is reported as failed may nevertheless have
  happened.
\<close>

datatype migration_outcome = MigOk | CheckFails | BeginFails | RecordFails | CommitFails bool

record embedded_entry =
  ee_name :: string
  ee_isDir :: bool

primrec migrate_loop ::
  "(string \<Rightarrow> 'db \<Rightarrow> 'db option) \<Rightarrow> (string \<Rightarrow> string) \<Rightarrow> (string \<Rightarrow> migration_outcome) \<Rightarrow> string list
     \<Rightarrow> 'db pg_state \<Rightarrow> 'db pg_state \<times> migrate_error option" where
  "migrate_loop sql body out [] st = (st, None)"
| "migrate_loop sql body out (name # names) st =
     (if out name = CheckFails then (st, Some (ErrCheck name))
      else if name \<in> set (pg_applied st) then migrate_loop sql body out names st
      else if out name = BeginFails then (st, Some (ErrBegin name))
      else case sql (body name) (pg_db st) of
             None \<Rightarrow> (st, Some (ErrApply name))
           | Some db' \<Rightarrow>
               (let st' = st\<lparr>pg_db := db', pg_applied := pg_applied st @ [name]\<rparr>
                in case out name of
                     RecordFails \<Rightarrow> (st, Some (ErrRecord name))
                   | CommitFails happened \<Rightarrow> (if happened then st' else st, Some (ErrCommit name))
                   | _ \<Rightarrow> migrate_loop sql body out names st'))"

definition migration_names :: "embedded_entry list \<Rightarrow> string list" where
  "migration_names entries = sort (map ee_name (filter (\<lambda>e. \<not> ee_isDir e) entries))"

definition migrate ::
  "(string \<Rightarrow> 'db \<Rightarrow> 'db option) \<Rightarrow> (string \<Rightarrow> string) \<Rightarrow> embedded_entry list \<Rightarrow> bool
     \<Rightarrow> (string \<Rightarrow> migration_outcome) \<Rightarrow> 'db pg_state \<Rightarrow> 'db pg_state \<times> migrate_error option" where
  "migrate sql body entries created out st =
     (if \<not> created then (st, Some ErrCreateTable)
      else migrate_loop sql body out (migration_names entries) st)"

subsection \<open>Running the scripts in order\<close>

fun run_scripts :: "(string \<Rightarrow> 'db \<Rightarrow> 'db option) \<Rightarrow> (string \<Rightarrow> string) \<Rightarrow> string list \<Rightarrow> 'db \<Rightarrow> 'db option" where
  "run_scripts sql body [] db = Some db"
| "run_scripts sql body (name # names) db =
     (case sql (body name) db of None \<Rightarrow> None | Some db' \<Rightarrow> run_scripts sql body names db')"

lemma run_scripts_snoc:
  "run_scripts sql body (names @ [name]) db =
     Option.bind (run_scripts sql body names db) (sql (body name))"
  by (induction names arbitrary: db) (auto split: option.split)

text \<open>The state of a database that has applied the first scripts of \<open>names\<close> to \<open>db0\<close>.\<close>

definition migrated :: "(string \<Rightarrow> 'db \<Rightarrow> 'db option) \<Rightarrow> (string \<Rightarrow> string) \<Rightarrow> string list \<Rightarrow> 'db \<Rightarrow> 'db pg_state \<Rightarrow> bool" where
  "migrated sql body names db0 st \<longleftrightarrow>
     prefix (pg_applied st) names \<and> run_scripts sql body (pg_applied st) db0 = Some (pg_db st)"

lemma migrated_snoc:
  assumes "migrated sql body (pre @ name # names) db0 st" and "distinct (pre @ name # names)"
    and "set pre \<subseteq> set (pg_applied st)" and "name \<notin> set (pg_applied st)" and "sql (body name) (pg_db st) = Some db'"
  shows "migrated sql body (pre @ name # names) db0 (st\<lparr>pg_db := db', pg_applied := pg_applied st @ [name]\<rparr>)"
proof -
  from assms(1) obtain rest where rest: "pre @ name # names = pg_applied st @ rest"
    by (auto simp: migrated_def prefix_def)
  have "pg_applied st = pre"
  proof (cases "length (pg_applied st) \<le> length pre")
    case True
    then have "prefix (pg_applied st) pre" using rest by (metis prefixI prefix_length_prefix)
    then obtain zs where zs: "pre = pg_applied st @ zs" by (auto simp: prefix_def)
    with assms(2,3) have "zs = []" by (cases zs) auto
    with zs show ?thesis by simp
  next
    case False
    then have "prefix (pre @ [name]) (pg_applied st)"
      using rest by (metis (no_types) Cons_prefix_Cons Nil_prefix append_Cons append_Nil append_assoc
          length_append_singleton not_less_eq_eq prefixI prefix_length_prefix same_prefix_prefix)
    then have "name \<in> set (pg_applied st)" by (auto simp: prefix_def)
    with assms(4) show ?thesis by simp
  qed
  with assms(1,5) show ?thesis by (simp add: migrated_def run_scripts_snoc prefix_def)
qed

lemma migrate_loop_migrated:
  assumes "migrated sql body (pre @ names) db0 st" and "distinct (pre @ names)" and "set pre \<subseteq> set (pg_applied st)"
    and "migrate_loop sql body out names st = (st', err)"
  shows "migrated sql body (pre @ names) db0 st' \<and> (err = None \<longrightarrow> set (pre @ names) \<subseteq> set (pg_applied st'))"
  using assms
proof (induction names arbitrary: pre st)
  case (Cons name names)
  show ?case
  proof (cases "name \<in> set (pg_applied st)")
    case True
    then show ?thesis using Cons.IH [of "pre @ [name]" st] Cons.prems by (auto split: if_splits)
  next
    case False
    show ?thesis
    proof (cases "sql (body name) (pg_db st)")
      case None
      with False Cons.prems show ?thesis by (auto split: if_splits)
    next
      case (Some db')
      let ?st = "st\<lparr>pg_db := db', pg_applied := pg_applied st @ [name]\<rparr>"
      have "migrated sql body (pre @ name # names) db0 ?st"
        using migrated_snoc [OF Cons.prems(1,2,3) False Some] .
      moreover from this have "set (pre @ [name]) \<subseteq> set (pg_applied ?st)" using Cons.prems(3) by auto
      ultimately show ?thesis
        using Cons.IH [of "pre @ [name]" ?st] Cons.prems False Some
        by (auto split: if_splits migration_outcome.splits)
    qed
  qed
qed simp

subsection \<open>Any number of starts\<close>

fun migrate_runs ::
  "(string \<Rightarrow> 'db \<Rightarrow> 'db option) \<Rightarrow> (string \<Rightarrow> string) \<Rightarrow> embedded_entry list
     \<Rightarrow> (bool \<times> (string \<Rightarrow> migration_outcome)) list \<Rightarrow> 'db pg_state \<Rightarrow> 'db pg_state" where
  "migrate_runs sql body entries [] st = st"
| "migrate_runs sql body entries ((created, out) # starts) st =
     migrate_runs sql body entries starts (fst (migrate sql body entries created out st))"

lemma migrate_migrated:
  assumes "migrated sql body (migration_names entries) db0 st" and "distinct (migration_names entries)"
    and "migrate sql body entries created out st = (st', err)"
  shows "migrated sql body (migration_names entries) db0 st' \<and>
    (err = None \<longrightarrow> set (migration_names entries) \<subseteq> set (pg_applied st'))"
  using migrate_loop_migrated [of sql body "[]" "migration_names entries" db0 st out st' err] assms
  by (auto simp: migrate_def split: if_splits)

text \<open>Migrations that were all recorded, on a database that had applied a prefix of them, make it the
  database after all scripts.\<close>

lemma migrate_complete:
  assumes "migrated sql body (migration_names entries) db0 st" and "distinct (migration_names entries)"
    and "migrate sql body entries created out st = (st', None)"
  shows "pg_applied st' = migration_names entries \<and> run_scripts sql body (migration_names entries) db0 = Some (pg_db st')"
proof -
  have st': "migrated sql body (migration_names entries) db0 st'" "set (migration_names entries) \<subseteq> set (pg_applied st')"
    using migrate_migrated [OF assms] by auto
  then obtain rest where rest: "migration_names entries = pg_applied st' @ rest" by (auto simp: migrated_def prefix_def)
  with assms(2) st'(2) have "rest = []" by (cases rest) auto
  with rest st'(1) show ?thesis by (simp add: migrated_def)
qed

lemma migrate_runs_migrated:
  "migrated sql body (migration_names entries) db0 st \<Longrightarrow> distinct (migration_names entries) \<Longrightarrow>
     migrated sql body (migration_names entries) db0 (migrate_runs sql body entries starts st)"
proof (induction starts arbitrary: st)
  case (Cons s starts)
  obtain created out where s: "s = (created, out)" by (cases s)
  have "migrated sql body (migration_names entries) db0 (fst (migrate sql body entries created out st))"
    using migrate_migrated [OF Cons.prems] by (metis prod.collapse)
  with Cons show ?case by (simp add: s)
qed simp

text \<open>C34. Migrations are applied in filename order, each at most once, whatever fails. After any number
  of starts on a new database, with calls failing anywhere and commits whose outcome was lost, the
  recorded migrations are the first ones in order and the database is exactly what these scripts make
  of it; and a start that reports success has recorded all of them.\<close>

theorem migrate_resumable:
  assumes "distinct (migration_names entries)"
    and "st = migrate_runs sql body entries starts \<lparr>pg_db = db0, pg_applied = []\<rparr>"
    and "migrate sql body entries created out st = (st', err)"
  shows "prefix (pg_applied st') (migration_names entries) \<and>
    run_scripts sql body (pg_applied st') db0 = Some (pg_db st') \<and>
    (err = None \<longrightarrow> pg_applied st' = migration_names entries)"
proof -
  have "migrated sql body (migration_names entries) db0 st"
    unfolding assms(2) by (rule migrate_runs_migrated) (simp_all add: migrated_def assms(1))
  then show ?thesis
    using migrate_migrated [OF _ assms(1,3)] migrate_complete [of sql body entries db0 st created out st'] assms(1,3)
    by (auto simp: migrated_def)
qed

text \<open>A second script that only works after the first, and a first start that loses a commit.\<close>

theorem migrate_resumable_witness:
  "pg_applied (fst (migrate (\<lambda>s db. if s = ''b'' \<and> db = [] then None else Some (db @ [s])) tl
     [\<lparr>ee_name = ''2b'', ee_isDir = False\<rparr>, \<lparr>ee_name = ''1a'', ee_isDir = False\<rparr>] True (\<lambda>_. MigOk)
     (migrate_runs (\<lambda>s db. if s = ''b'' \<and> db = [] then None else Some (db @ [s])) tl
       [\<lparr>ee_name = ''2b'', ee_isDir = False\<rparr>, \<lparr>ee_name = ''1a'', ee_isDir = False\<rparr>]
       [(True, \<lambda>_. CommitFails True)] \<lparr>pg_db = [], pg_applied = []\<rparr>))) = [''1a'', ''2b'']"
proof -
  let ?sql = "\<lambda>s (db :: string list). if s = ''b'' \<and> db = [] then None else Some (db @ [s])"
  let ?es = "[\<lparr>ee_name = ''2b'', ee_isDir = False\<rparr>, \<lparr>ee_name = ''1a'', ee_isDir = False\<rparr>]"
  let ?st = "migrate_runs ?sql tl ?es [(True, \<lambda>_. CommitFails True)] \<lparr>pg_db = [], pg_applied = []\<rparr>"
  let ?m = "migrate ?sql tl ?es True (\<lambda>_. MigOk) ?st"
  have names: "migration_names ?es = [''1a'', ''2b'']" by code_simp
  have "?m = (fst ?m, snd ?m)" by simp
  note r = migrate_resumable [OF _ refl this]
  have "snd ?m = None" by (simp add: migrate_def names)
  with r show ?thesis unfolding names by (simp add: names)
qed

end
