(* ===== verification/AgentHost.thy ===== *)
theory AgentHost
  imports AgentClient Placement
begin

text \<open>
  What an agent finds out about its machine and how it composes what it advertises: GPU detection
  (\<^verbatim>\<open>agent/internal/gpu/detect.go\<close>), host facts (\<^verbatim>\<open>agent/internal/sysinfo/sysinfo.go\<close>) and the start of the
  agent (\<^verbatim>\<open>agent/cmd/agent/main.go\<close>, \<^verbatim>\<open>doctor.go\<close>). Commands run on the host are an argument: the name with
  its arguments gives the standard output, or \<open>None\<close> for an error or timeout.
\<close>

type_synonym exec_fun = "string list \<Rightarrow> string option"

subsection \<open>Reading command output\<close>

text \<open>\<^verbatim>\<open>strconv.ParseUint(s, 10, 64)\<close> takes digits only and refuses what does not fit.\<close>

definition parseUint :: "string \<Rightarrow> u64" where
  "parseUint s =
     (let t = TrimSpace s
      in if t = [] \<or> (\<exists>c \<in> set t. \<not> is_digit c) \<or> 2 ^ 64 \<le> dec_value t then 0 else of_nat (dec_value t))"

definition nonEmptyLines :: "string \<Rightarrow> string list" where
  "nonEmptyLines s = filter (\<lambda>l. l \<noteq> []) (map TrimSpace (Split (CHR 0x0A) s))"

text \<open>\<^verbatim>\<open>strings.Join\<close> with a separator of any length.\<close>

fun JoinWith :: "string \<Rightarrow> string list \<Rightarrow> string" where
  "JoinWith sep [] = []"
| "JoinWith sep [p] = p"
| "JoinWith sep (p # q # ps) = p @ sep @ JoinWith sep (q # ps)"

definition splitSmiLine :: "string \<Rightarrow> nat \<Rightarrow> string list option" where
  "splitSmiLine line want =
     (let parts = Split (CHR '','') line
      in if length parts < want then None
         else
           (let parts' = map TrimSpace parts; cut = length parts' - (want - 1)
            in Some (if want < length parts' then JoinWith '', '' (take cut parts') # drop cut parts' else parts')))"

text \<open>
  The leftmost match of \<^verbatim>\<open>CUDA Version:\s*([0-9][0-9.]*)\<close>; \<^verbatim>\<open>\s\<close> is tab, line feed, form feed, carriage
  return and blank.
\<close>

definition re_space :: "char \<Rightarrow> bool" where
  "re_space c \<longleftrightarrow> (let n = of_char c :: nat in n = 9 \<or> n = 10 \<or> n = 12 \<or> n = 13 \<or> n = 32)"

fun find_cuda :: "string \<Rightarrow> string option" where
  "find_cuda [] = None"
| "find_cuda (c # cs) =
     (let rest = dropWhile re_space (drop 13 (c # cs))
      in if HasPrefix (c # cs) ''CUDA Version:'' \<and> rest \<noteq> [] \<and> is_digit (hd rest)
         then Some (takeWhile (\<lambda>d. is_digit d \<or> d = CHR ''.'') rest)
         else find_cuda cs)"

definition cudaVersion :: "exec_fun \<Rightarrow> string" where
  "cudaVersion run =
     (case run [''nvidia-smi''] of
        None \<Rightarrow> []
      | Some out \<Rightarrow> (case find_cuda out of None \<Rightarrow> [] | Some v \<Rightarrow> v))"

subsection \<open>GPU detection\<close>

datatype gpu_error = ErrNoGPU | ErrUtilizationUnsupported | UnexpectedOutput | ParseFailed

definition unifiedMemoryMB :: "exec_fun \<Rightarrow> u64" where
  "unifiedMemoryMB run =
     (case run [''sysctl'', ''-n'', ''hw.memsize''] of
        None \<Rightarrow> 0
      | Some out \<Rightarrow> parseUint (TrimSpace out) div (1024 * 1024))"

definition macOSVersion :: "exec_fun \<Rightarrow> string" where
  "macOSVersion run =
     (case run [''sw_vers'', ''-productVersion''] of
        None \<Rightarrow> []
      | Some out \<Rightarrow> (let v = TrimSpace out in if v = [] then [] else ''macOS '' @ v))"

record spGPU =
  sp_Name :: string
  sp_Model :: string
  sp_Cores :: string
  sp_DeviceType :: string

definition appleGPUDeviceType :: string where
  "appleGPUDeviceType = ''spdisplays_gpu''"

text \<open>The first usable entry of the report.\<close>

fun apple_loop :: "spGPU list \<Rightarrow> string option" where
  "apple_loop [] = None"
| "apple_loop (g # gs) =
     (if sp_DeviceType g \<noteq> [] \<and> sp_DeviceType g \<noteq> appleGPUDeviceType then apple_loop gs
      else
        (let model = (if sp_Model g = [] then sp_Name g else sp_Model g);
             cores = parseUint (sp_Cores g)
         in if model = [] then apple_loop gs
            else Some (if 0 < cores then model @ '' ('' @ itoa (unat cores) @ ''-core GPU)'' else model)))"

text \<open>\<open>decode\<close> is the JSON decoder of the report.\<close>

definition detectApple :: "(string \<Rightarrow> spGPU list option) \<Rightarrow> exec_fun \<Rightarrow> gpu_error + GpuInfo" where
  "detectApple decode run =
     (case run [''system_profiler'', ''SPDisplaysDataType'', ''-json''] of
        None \<Rightarrow> Inl ErrNoGPU
      | Some out \<Rightarrow>
          (case decode out of
             None \<Rightarrow> Inl ParseFailed
           | Some gpus \<Rightarrow>
               (case apple_loop gpus of
                  None \<Rightarrow> Inl ErrNoGPU
                | Some model \<Rightarrow> Inr \<lparr>gpu_vendor = ''apple'', gpu_model = model, gpu_vram_total_mb = unifiedMemoryMB run,
                    gpu_driver_version = macOSVersion run, gpu_cuda_version = [], gpu_count = 1,
                    gpu_usable_vram_mb = 0\<rparr>)))"

definition smi_fields :: "string option \<Rightarrow> gpu_error + (string list \<times> nat)" where
  "smi_fields answer =
     (case answer of
        None \<Rightarrow> Inl ErrNoGPU
      | Some out \<Rightarrow>
          (case nonEmptyLines out of
             [] \<Rightarrow> Inl ErrNoGPU
           | line # ls \<Rightarrow>
               (case splitSmiLine line 3 of
                  None \<Rightarrow> Inl UnexpectedOutput
                | Some fs \<Rightarrow> Inr (fs, length (line # ls)))))"

definition gpu_detect ::
  "(string \<Rightarrow> spGPU list option) \<Rightarrow> exec_fun \<Rightarrow> (string \<Rightarrow> string) \<Rightarrow> string \<Rightarrow> gpu_error + GpuInfo" where
  "gpu_detect decode run getenv goos =
     (if getenv ''GRIDLINK_FAKE_GPU'' = ''1''
      then Inr \<lparr>gpu_vendor = ''nvidia'', gpu_model = ''FAKE GPU (GRIDLINK_FAKE_GPU=1)'', gpu_vram_total_mb = 24576,
             gpu_driver_version = ''0.0-fake'', gpu_cuda_version = ''12.4'', gpu_count = 1, gpu_usable_vram_mb = 0\<rparr>
      else if goos = ''darwin'' then detectApple decode run
      else
        (case smi_fields (run [''nvidia-smi'', ''--query-gpu=name,memory.total,driver_version'',
                               ''--format=csv,noheader,nounits'']) of
           Inl err \<Rightarrow> Inl err
         | Inr (fs, n) \<Rightarrow>
             Inr \<lparr>gpu_vendor = ''nvidia'', gpu_model = fs ! 0, gpu_vram_total_mb = parseUint (fs ! 1),
               gpu_driver_version = fs ! 2, gpu_cuda_version = cudaVersion run, gpu_count = of_nat n,
               gpu_usable_vram_mb = 0\<rparr>))"

definition utilization :: "exec_fun \<Rightarrow> (string \<Rightarrow> string) \<Rightarrow> string \<Rightarrow> gpu_error + GpuUtilization" where
  "utilization run getenv goos =
     (if getenv ''GRIDLINK_FAKE_GPU'' = ''1''
      then Inr \<lparr>util_gpu_percent = 0, util_vram_used_mb = 0, util_temperature_c = 0\<rparr>
      else if goos = ''darwin'' then Inl ErrUtilizationUnsupported
      else
        (case smi_fields (run [''nvidia-smi'', ''--query-gpu=utilization.gpu,memory.used,temperature.gpu'',
                               ''--format=csv,noheader,nounits'']) of
           Inl err \<Rightarrow> Inl err
         | Inr (fs, n) \<Rightarrow>
             Inr \<lparr>util_gpu_percent = ucast (parseUint (fs ! 0)), util_vram_used_mb = parseUint (fs ! 1),
               util_temperature_c = ucast (parseUint (fs ! 2))\<rparr>))"

subsection \<open>Host facts\<close>

text \<open>\<^verbatim>\<open>strings.Fields\<close>.\<close>

fun split_spaces :: "string \<Rightarrow> string list" where
  "split_spaces [] = [[]]"
| "split_spaces (c # cs) =
     (if is_space c then [] # split_spaces cs
      else case split_spaces cs of [] \<Rightarrow> [[c]] | p # ps \<Rightarrow> (c # p) # ps)"

definition Fields :: "string \<Rightarrow> string list" where
  "Fields s = filter (\<lambda>p. p \<noteq> []) (split_spaces s)"

fun meminfo_loop :: "string list \<Rightarrow> u64" where
  "meminfo_loop [] = 0"
| "meminfo_loop (line # ls) =
     (if \<not> HasPrefix line ''MemTotal:'' then meminfo_loop ls
      else
        (let fs = Fields line
         in if length fs < 2 then 0 else parseUint (fs ! 1) div 1024))"

definition ramTotalMB :: "exec_fun \<Rightarrow> string \<Rightarrow> u64" where
  "ramTotalMB run goos =
     (if goos = ''darwin''
      then (case run [''sysctl'', ''-n'', ''hw.memsize''] of
              None \<Rightarrow> 0 | Some out \<Rightarrow> parseUint (TrimSpace out) div (1024 * 1024))
      else if goos = ''linux''
      then (case run [''cat'', ''/proc/meminfo''] of
              None \<Rightarrow> 0 | Some out \<Rightarrow> meminfo_loop (Split (CHR 0x0A) out))
      else 0)"

definition sysinfo_detect :: "exec_fun \<Rightarrow> string \<Rightarrow> string \<Rightarrow> nat \<Rightarrow> SystemInfo" where
  "sysinfo_detect run goos goarch numCPU =
     \<lparr>sys_os = goos, sys_arch = goarch, sys_cpu_cores = of_nat numCPU, sys_ram_total_mb = ramTotalMB run goos,
      sys_docker_version = [], sys_nvidia_container_toolkit = False, sys_runners = []\<rparr>"

subsection \<open>Starting an agent\<close>

definition envOr :: "(string \<Rightarrow> string) \<Rightarrow> string \<Rightarrow> string \<Rightarrow> string" where
  "envOr getenv key dflt = (if getenv key \<noteq> [] then getenv key else dflt)"

text \<open>
  What the start meets: the environment, the detected hardware, whether a Docker daemon answers, whether
  the build has the Metal engine and it could be set up, and the free memory of the GPU device in bytes.
\<close>

record host_env =
  ho_getenv :: "string \<Rightarrow> string"
  ho_gpu :: "gpu_error + GpuInfo"
  ho_system :: SystemInfo
  ho_docker :: bool
  ho_supported :: bool
  ho_native :: bool
  ho_device :: "u64 option"
  ho_hostname :: string

definition GPUStats :: "host_env \<Rightarrow> u64 option" where
  "GPUStats h = (if \<not> ho_supported h then None else map_option (\<lambda>free. free div (1024 * 1024)) (ho_device h))"

text \<open>The configuration of the client, unless the token is missing.\<close>

definition agent_main :: "host_env \<Rightarrow> ClientConfig option" where
  "agent_main h =
     (let dataPlaneAddr = envOr (ho_getenv h) ''GRIDLINK_DATA_ADDR'' ''127.0.0.1''
      in if ho_getenv h ''GRIDLINK_TOKEN'' = [] then None
         else
           (let info = (case ho_gpu h of
                          Inl err \<Rightarrow> \<lparr>gpu_vendor = ''none'', gpu_model = [], gpu_vram_total_mb = 0, gpu_driver_version = [],
                                      gpu_cuda_version = [], gpu_count = 0, gpu_usable_vram_mb = 0\<rparr>
                        | Inr i \<Rightarrow> i);
                sys1 = (if ho_docker h
                        then (ho_system h)\<lparr>sys_runners := sys_runners (ho_system h) @ [RUNNER_KIND_DOCKER]\<rparr>
                        else ho_system h);
                metal = ho_supported h \<and> ho_native h;
                sys2 = (if metal then sys1\<lparr>sys_runners := sys_runners sys1 @ [RUNNER_KIND_NATIVE_METAL]\<rparr> else sys1);
                info' = (if metal
                         then (case GPUStats h of None \<Rightarrow> info | Some mb \<Rightarrow> info\<lparr>gpu_usable_vram_mb := mb\<rparr>)
                         else info)
            in Some \<lparr>cfg_GPU = Some info', cfg_System = Some sys2, cfg_Runner = ho_docker h, cfg_Deployments = metal,
                 cfg_DataPlaneAddr = dataPlaneAddr, cfg_hostname = ho_hostname h\<rparr>))"

text \<open>The verdict of \<^verbatim>\<open>agent doctor\<close>.\<close>

definition runDoctor :: "host_env \<Rightarrow> bool" where
  "runDoctor h \<longleftrightarrow> (ho_supported h \<and> GPUStats h \<noteq> None) \<or> ho_docker h"

end
