(* ===== verification/AgentHostProps.thy ===== *)
theory AgentHostProps
  imports AgentHost
begin

text \<open>
  The properties of hardware detection and of what an agent advertises.
\<close>

subsection \<open>Trimmed text\<close>

lemma TrimSpace_id: "TrimSpace s = s \<longleftrightarrow> s = [] \<or> \<not> is_space (hd s) \<and> \<not> is_space (last s)"
proof
  assume t: "TrimSpace s = s"
  have "\<not> is_space (hd s)" if "s \<noteq> []"
  proof
    assume "is_space (hd s)"
    with that have "length (dropWhile is_space s) < length s"
      by (cases s) (auto simp: less_Suc_eq_le length_dropWhile_le)
    moreover have "length (TrimSpace s) \<le> length (dropWhile is_space s)"
      unfolding TrimSpace_def by (metis length_dropWhile_le length_rev)
    ultimately show False using t by simp
  qed
  moreover have "\<not> is_space (last s)" if "s \<noteq> []"
  proof -
    have "hd (dropWhile is_space (rev (dropWhile is_space s))) = last s"
      using t that unfolding TrimSpace_def by (metis hd_rev rev_rev_ident)
    moreover have "dropWhile is_space (rev (dropWhile is_space s)) \<noteq> []"
      using t that unfolding TrimSpace_def by (metis rev.simps(1))
    ultimately show ?thesis by (metis hd_dropWhile dropWhile_eq_Nil_conv)
  qed
  ultimately show "s = [] \<or> \<not> is_space (hd s) \<and> \<not> is_space (last s)" by blast
next
  assume s: "s = [] \<or> \<not> is_space (hd s) \<and> \<not> is_space (last s)"
  show "TrimSpace s = s"
  proof (cases s rule: rev_cases)
    case (snoc ys y)
    then have "dropWhile is_space s = s" using s by (metis dropWhile_eq_self_iff)
    moreover have "dropWhile is_space (rev s) = rev s" using s snoc by simp
    ultimately show ?thesis by (simp add: TrimSpace_def)
  qed (simp add: TrimSpace_def)
qed

lemma TrimSpace_blank: "TrimSpace (CHR '' '' # s) = TrimSpace s"
  by (simp add: TrimSpace_def is_space_def)

lemma digit_not_space: "is_digit c \<Longrightarrow> \<not> is_space c"
  by (auto simp: is_digit_def is_space_def Let_def)

lemma TrimSpace_itoa: "TrimSpace (itoa n) = itoa n"
  using itoa_digits [of "hd (itoa n)" n] itoa_digits [of "last (itoa n)" n] digit_not_space
  by (auto simp: TrimSpace_id)

lemma parseUint_itoa: "parseUint (itoa n) = (if n < 2 ^ 64 then of_nat n else 0)"
  using itoa_digits [of _ n] by (auto simp: parseUint_def TrimSpace_itoa dec_value_itoa Let_def)

subsection \<open>The table nvidia-smi prints\<close>

text \<open>A field as the tool prints it: not empty, no comma or line feed, no blank at its ends.\<close>

definition smi_field :: "string \<Rightarrow> bool" where
  "smi_field f \<longleftrightarrow> f \<noteq> [] \<and> TrimSpace f = f \<and> CHR '','' \<notin> set f \<and> CHR 0x0A \<notin> set f"

lemma Split_JoinWith:
  "\<forall>p \<in> set (p # ps). CHR '','' \<notin> set p \<Longrightarrow>
     Split (CHR '','') (JoinWith '', '' (p # ps)) = p # map ((#) (CHR '' '')) ps"
proof (induction ps arbitrary: p)
  case (Cons q ps)
  have "Split (CHR '','') (CHR '' '' # JoinWith '', '' (q # ps)) = (CHR '' '' # q) # map ((#) (CHR '' '')) ps"
    using Cons by simp
  then show ?case using Cons.prems Split_cons [of "CHR '',''" p] by simp
qed (simp add: Split_no_sep)

lemma splitSmiLine_join:
  assumes "\<forall>p \<in> set (name @ [f2, f3]). smi_field p" and "name \<noteq> []"
  shows "splitSmiLine (JoinWith '', '' (name @ [f2, f3])) 3 = Some [JoinWith '', '' name, f2, f3]"
proof -
  obtain p ps where n: "name @ [f2, f3] = p # ps" using assms(2) by (cases name) auto
  have "map TrimSpace (Split (CHR '','') (JoinWith '', '' (p # ps))) = p # ps"
    using assms(1) unfolding n
    by (subst Split_JoinWith) (auto simp: smi_field_def TrimSpace_blank intro!: map_idI)
  then have parts: "map TrimSpace (Split (CHR '','') (JoinWith '', '' (name @ [f2, f3]))) = name @ [f2, f3]"
    by (simp add: n)
  have len: "length (Split (CHR '','') (JoinWith '', '' (name @ [f2, f3]))) = length name + 2"
    using arg_cong [OF parts, of length] by simp
  show ?thesis
  proof (cases "length name = 1")
    case True
    then obtain a where "name = [a]" by (cases name) auto
    then show ?thesis using parts len by (simp add: splitSmiLine_def)
  next
    case False
    with assms(2) have "3 < length name + 2" by (cases name; cases "tl name") auto
    then show ?thesis using assms(2) unfolding splitSmiLine_def Let_def parts len by simp
  qed
qed

lemma JoinWith_ends:
  "p \<noteq> [] \<Longrightarrow> hd (JoinWith sep (p # ps)) = hd p" "p \<noteq> [] \<Longrightarrow> JoinWith sep (p # ps) \<noteq> []"
  "\<forall>q \<in> set (p # ps). q \<noteq> [] \<Longrightarrow> last (JoinWith sep (p # ps)) = last (last (p # ps))"
  by (induction ps arbitrary: p) auto

lemma set_JoinWith: "set (JoinWith sep ps) \<subseteq> set sep \<union> (\<Union>p \<in> set ps. set p)"
  by (induction sep ps rule: JoinWith.induct) auto

lemma smi_line_trimmed:
  assumes "\<forall>p \<in> set fs. smi_field p" and "fs \<noteq> []"
  shows "TrimSpace (JoinWith '', '' fs) = JoinWith '', '' fs \<and> JoinWith '', '' fs \<noteq> [] \<and>
    CHR 0x0A \<notin> set (JoinWith '', '' fs)"
proof -
  obtain p ps where fs: "fs = p # ps" using assms(2) by (cases fs) auto
  have ne: "\<forall>q \<in> set (p # ps). q \<noteq> []" using assms(1) by (auto simp: fs smi_field_def)
  have "\<not> is_space (hd p)" "\<not> is_space (last (last fs))"
    using assms ne by (auto simp: smi_field_def TrimSpace_id fs)
  moreover have "CHR 0x0A \<notin> set (JoinWith '', '' fs)"
    using set_JoinWith [of "'', ''" fs] assms(1) by (auto simp: smi_field_def)
  ultimately show ?thesis
    using JoinWith_ends [where p = p and ps = ps and sep = "'', ''"] ne by (auto simp: TrimSpace_id fs)
qed

lemma nonEmptyLines_join:
  assumes "ls \<noteq> []" and "\<forall>l \<in> set ls. TrimSpace l = l \<and> l \<noteq> [] \<and> CHR 0x0A \<notin> set l"
  shows "nonEmptyLines (Join (CHR 0x0A) ls) = ls"
proof -
  have "Split (CHR 0x0A) (Join (CHR 0x0A) ls) = ls" using assms by (intro Split_Join) auto
  moreover have "map TrimSpace ls = ls" using assms(2) by (intro map_idI) auto
  ultimately show ?thesis using assms(2) by (simp add: nonEmptyLines_def)
qed

text \<open>One row of the table: the parts of the name, the memory in megabytes, the driver.\<close>

definition smi_row :: "string list \<times> nat \<times> string \<Rightarrow> string" where
  "smi_row g = (case g of (name, mb, driver) \<Rightarrow> JoinWith '', '' (name @ [itoa mb, driver]))"

definition smi_ok :: "string list \<times> nat \<times> string \<Rightarrow> bool" where
  "smi_ok g \<longleftrightarrow> (case g of (name, mb, driver) \<Rightarrow> name \<noteq> [] \<and> (\<forall>p \<in> set name. smi_field p) \<and> smi_field driver)"

lemma smi_field_itoa: "smi_field (itoa n)"
  using itoa_digits [of "CHR '',''" n] itoa_digits [of "CHR 0x0A" n]
  by (auto simp: smi_field_def TrimSpace_itoa is_digit_def)

text \<open>The GPUs nvidia-smi prints are the ones reported. For a table with one row per GPU, of a name
  that may itself contain commas, a memory size and a driver version, detection returns the first GPU's
  name, driver and exact memory size (as long as it fits 64 bits) and the number of rows.\<close>

theorem nvidia_report_roundtrip:
  assumes "\<forall>g \<in> set ((name, mb, driver) # gs). smi_ok g" and "mb < 2 ^ 64"
    and "getenv ''GRIDLINK_FAKE_GPU'' \<noteq> ''1''" and "goos \<noteq> ''darwin''"
    and "run [''nvidia-smi'', ''--query-gpu=name,memory.total,driver_version'', ''--format=csv,noheader,nounits''] =
      Some (Join (CHR 0x0A) (map smi_row ((name, mb, driver) # gs)))"
  shows "gpu_detect decode run getenv goos =
    Inr \<lparr>gpu_vendor = ''nvidia'', gpu_model = JoinWith '', '' name, gpu_vram_total_mb = of_nat mb,
      gpu_driver_version = driver, gpu_cuda_version = cudaVersion run, gpu_count = of_nat (Suc (length gs)),
      gpu_usable_vram_mb = 0\<rparr>"
proof -
  let ?rows = "map smi_row ((name, mb, driver) # gs)"
  have "\<forall>l \<in> set ?rows. TrimSpace l = l \<and> l \<noteq> [] \<and> CHR 0x0A \<notin> set l"
  proof
    fix l
    assume "l \<in> set ?rows"
    then obtain nm n d where "smi_ok (nm, n, d)" "l = JoinWith '', '' (nm @ [itoa n, d])"
      using assms(1) by (auto simp: smi_row_def)
    then show "TrimSpace l = l \<and> l \<noteq> [] \<and> CHR 0x0A \<notin> set l"
      using smi_line_trimmed [of "nm @ [itoa n, d]"] smi_field_itoa [of n] by (auto simp: smi_ok_def)
  qed
  then have "nonEmptyLines (Join (CHR 0x0A) ?rows) = ?rows" by (intro nonEmptyLines_join) auto
  moreover have "splitSmiLine (smi_row (name, mb, driver)) 3 = Some [JoinWith '', '' name, itoa mb, driver]"
    using assms(1) smi_field_itoa [of mb] splitSmiLine_join [of name "itoa mb" driver]
    by (auto simp: smi_row_def smi_ok_def)
  ultimately show ?thesis
    using assms(2-5) by (simp add: gpu_detect_def smi_fields_def parseUint_itoa del: Join.simps)
qed

theorem nvidia_report_roundtrip_witness:
  "\<exists>i. gpu_detect (\<lambda>_. None) (\<lambda>cmd. if length cmd = 3 then Some ''NVIDIA H100, PCIe, 81559, 550.54'' else None) (\<lambda>_. []) ''linux'' = Inr i \<and>
     gpu_model i = ''NVIDIA H100, PCIe'' \<and> gpu_vram_total_mb i = 81559"
proof -
  let ?g = "([''NVIDIA H100'', ''PCIe''], 81559 :: nat, ''550.54'')"
  have "smi_ok ?g" by (simp add: smi_ok_def smi_field_def TrimSpace_id is_space_def)
  moreover have "Join (CHR 0x0A) (map smi_row [?g]) = ''NVIDIA H100, PCIe, 81559, 550.54''"
    by (simp add: smi_row_def itoa.simps)
  ultimately show ?thesis
    using nvidia_report_roundtrip [of "[''NVIDIA H100'', ''PCIe'']" 81559 "''550.54''" "[]" "\<lambda>_. []" "''linux''"
        "\<lambda>cmd. if length cmd = 3 then Some ''NVIDIA H100, PCIe, 81559, 550.54'' else None" "\<lambda>_. None"]
    by (simp add: smi_row_def)
qed

subsection \<open>What is advertised and what is accepted\<close>

lemma gpu_detect_usable:
  assumes "gpu_detect decode run getenv goos = Inr i" shows "gpu_usable_vram_mb i = 0"
  using assms
  by (auto simp: gpu_detect_def detectApple_def split: if_splits option.splits sum.splits)

text \<open>Placement and the agents agree on native deployments, and never on containers. A node that is
  eligible for any deployment, described the way its agent describes it when it starts, has a deployment
  engine, and for a native deployment its first report is \<^verbatim>\<open>PULLING\<close>. For a container deployment the
  coordinator also finds nodes eligible, but whatever node it picks, the agent answers with nothing but a
  failure: no agent can run one.\<close>

theorem placed_deployments_meet_agents:
  assumes "agent_main h = Some cfg" and "ho_gpu h = gpu_detect decode run getenv goos"
    and "node_GPU n = cfg_GPU cfg" and "node_System n = cfg_System cfg"
    and "requiredRunner (Some spec) = Inr kind" and "eligible now kind avoid occ minVRAM n"
  shows "cfg_Deployments cfg \<and>
    (kind = RUNNER_KIND_NATIVE_METAL \<longrightarrow> (\<forall>native. spec_engine spec = Some (Native native) \<and> ne_model_file native \<noteq> [] \<longrightarrow>
       du_state (hd (runDeployment spec e)) = DEPLOYMENT_STATE_PULLING)) \<and>
    (kind = RUNNER_KIND_DOCKER \<longrightarrow> map du_state (runDeployment spec e) = [DEPLOYMENT_STATE_FAILED])"
proof -
  have "cfg_Deployments cfg"
  proof (rule ccontr)
    assume "\<not> cfg_Deployments cfg"
    with assms(1) have "\<not> (ho_supported h \<and> ho_native h)"
      by (auto simp: agent_main_def Let_def split: if_splits)
    then have "GetUsableVramMb (cfg_GPU cfg) = 0"
      using assms(1,2) gpu_detect_usable [of decode run getenv goos]
      by (auto simp: agent_main_def Let_def split: if_splits sum.splits)
    with assms(3,6) show False by (simp add: eligible_def)
  qed
  moreover have "map du_state (runDeployment spec e) = [DEPLOYMENT_STATE_FAILED]" if "kind = RUNNER_KIND_DOCKER"
    using assms(5) that \<open>cfg_Deployments cfg\<close>
    by (auto simp: requiredRunner_def runDeployment_def Start_def GetNative_def
        split: option.splits Engine.splits)
  moreover have "du_state (hd (runDeployment spec e)) = DEPLOYMENT_STATE_PULLING"
    if "spec_engine spec = Some (Native native)" "ne_model_file native \<noteq> []" for native
    using that \<open>cfg_Deployments cfg\<close>
    by (simp add: runDeployment_def Start_def GetNative_def native_run_def deployment_message_def)
  ultimately show ?thesis by blast
qed

text \<open>A Mac with a Docker daemon, and a container deployment.\<close>

definition demo_mac_getenv :: "string \<Rightarrow> string" where
  "demo_mac_getenv k =
     (if k = ''GRIDLINK_TOKEN'' then ''t'' else if k = ''GRIDLINK_FAKE_GPU'' then ''1'' else [])"

definition demo_mac :: host_env where
  "demo_mac = \<lparr>ho_getenv = demo_mac_getenv, ho_gpu = gpu_detect Map.empty Map.empty demo_mac_getenv ''darwin'',
     ho_system = sysinfo_detect Map.empty ''darwin'' ''arm64'' 10, ho_docker = True, ho_supported = True,
     ho_native = True, ho_device = Some 17179869184, ho_hostname = ''mac''\<rparr>"

definition demo_mac_node :: Node where
  "demo_mac_node = (zero_Node ''n1'')\<lparr>node_GPU := cfg_GPU (the (agent_main demo_mac)),
     node_System := cfg_System (the (agent_main demo_mac)), node_Status := NODE_STATUS_ONLINE, node_Send := Some 7\<rparr>"

definition demo_container :: DeploymentSpec where
  "demo_container = demo_native_spec\<lparr>spec_engine := Some (Container \<lparr>ce_model_ref = ''m'', ce_image = ''vllm'',
     ce_extra_args = [], ce_env = Map.empty, ce_container_port = 8000\<rparr>)\<rparr>"

theorem placed_deployments_meet_agents_witness:
  "eligible 0 RUNNER_KIND_DOCKER Map.empty {} 1000 demo_mac_node \<and>
   map du_state (runDeployment demo_container demo_native) = [DEPLOYMENT_STATE_FAILED]"
proof -
  have some: "agent_main demo_mac = Some (the (agent_main demo_mac))"
    by (simp add: agent_main_def demo_mac_def demo_mac_getenv_def Let_def)
  have elig: "eligible 0 RUNNER_KIND_DOCKER Map.empty {} 1000 demo_mac_node"
    by (simp add: eligible_def demo_mac_node_def agent_main_def demo_mac_def demo_mac_getenv_def GPUStats_def
        gpu_detect_def sysinfo_detect_def zero_Node_def Let_def)
  have "requiredRunner (Some demo_container) = Inr RUNNER_KIND_DOCKER"
    by (simp add: requiredRunner_def demo_container_def)
  from placed_deployments_meet_agents [OF some _ _ _ this elig, of _ _ demo_mac_getenv] elig show ?thesis
    by (simp add: demo_mac_node_def demo_mac_def)
qed

end
