(* ===== verification/EngineCmd.thy ===== *)
theory EngineCmd
  imports AgentNative
begin

text \<open>
  The \<^verbatim>\<open>agent engine\<close> subcommand (\<^verbatim>\<open>agent/cmd/agent/engine.go\<close>): the flags it is started with, the line
  that announces its address, and the model it ends up serving; with the part of Go's \<^verbatim>\<open>flag\<close> package it
  uses. What the machine does (the listener, llama.cpp's loader) is an argument.
\<close>

subsection \<open>Unsigned numbers in any base\<close>

text \<open>
  \<^verbatim>\<open>strconv.ParseUint(s, 0, 64)\<close>: the base is given by the prefix, and underscores may stand between
  digits.
\<close>

definition char_digit :: "char \<Rightarrow> nat option" where
  "char_digit c =
     (let n = of_char (lower_char c) :: nat
      in if 48 \<le> n \<and> n \<le> 57 then Some (n - 48)
         else if 97 \<le> n \<and> n \<le> 122 then Some (n - 97 + 10)
         else None)"

definition base_prefix :: "string \<Rightarrow> nat \<times> string" where
  "base_prefix s =
     (if s \<noteq> [] \<and> hd s = CHR ''0''
      then if 3 \<le> length s \<and> lower_char (s ! 1) = CHR ''b'' then (2, drop 2 s)
           else if 3 \<le> length s \<and> lower_char (s ! 1) = CHR ''o'' then (8, drop 2 s)
           else if 3 \<le> length s \<and> lower_char (s ! 1) = CHR ''x'' then (16, drop 2 s)
           else (8, tl s)
      else (10, s))"

fun digits_loop :: "nat \<Rightarrow> string \<Rightarrow> nat \<Rightarrow> nat option" where
  "digits_loop base [] n = Some n"
| "digits_loop base (c # cs) n =
     (if c = CHR ''_'' then digits_loop base cs n
      else case char_digit c of
             None \<Rightarrow> None
           | Some d \<Rightarrow>
               if base \<le> d then None
               else if 2 ^ 64 \<le> n * base + d then None
               else digits_loop base cs (n * base + d))"

text \<open>\<^verbatim>\<open>underscoreOK\<close>: \<open>seen\<close> is the class of the byte before, \<^verbatim>\<open>^\<close> at the start.\<close>

fun underscore_loop :: "bool \<Rightarrow> string \<Rightarrow> char \<Rightarrow> bool" where
  "underscore_loop hex [] seen = (seen \<noteq> CHR ''_'')"
| "underscore_loop hex (c # cs) seen =
     (if is_digit c \<or> hex \<and> CHR ''a'' \<le> lower_char c \<and> lower_char c \<le> CHR ''f''
      then underscore_loop hex cs (CHR ''0'')
      else if c = CHR ''_'' then (if seen \<noteq> CHR ''0'' then False else underscore_loop hex cs (CHR ''_''))
      else if seen = CHR ''_'' then False
      else underscore_loop hex cs (CHR ''!''))"

definition underscoreOK :: "string \<Rightarrow> bool" where
  "underscoreOK s =
     (if 2 \<le> length s \<and> hd s = CHR ''0'' \<and> lower_char (s ! 1) \<in> set ''box''
      then underscore_loop (lower_char (s ! 1) = CHR ''x'') (drop 2 s) (CHR ''0'')
      else underscore_loop False s (CHR ''^''))"

definition ParseUint0 :: "string \<Rightarrow> u64 option" where
  "ParseUint0 s =
     (if s = [] then None
      else
        (let (base, ds) = base_prefix s
         in case digits_loop base ds 0 of
              None \<Rightarrow> None
            | Some n \<Rightarrow> if CHR ''_'' \<in> set ds \<and> \<not> underscoreOK s then None else Some (of_nat n)))"

subsection \<open>Flags\<close>

record engine_flags =
  fl_model :: string
  fl_served_model_name :: string
  fl_addr :: string
  fl_context_length :: u64

definition default_flags :: engine_flags where
  "default_flags = \<lparr>fl_model = [], fl_served_model_name = [], fl_addr = ''127.0.0.1:0'', fl_context_length = 0\<rparr>"

definition set_flag :: "string \<Rightarrow> string \<Rightarrow> engine_flags \<Rightarrow> engine_flags option" where
  "set_flag name v fl =
     (if name = ''model'' then Some (fl\<lparr>fl_model := v\<rparr>)
      else if name = ''served-model-name'' then Some (fl\<lparr>fl_served_model_name := v\<rparr>)
      else if name = ''addr'' then Some (fl\<lparr>fl_addr := v\<rparr>)
      else if name = ''context-length''
      then (case ParseUint0 v of None \<Rightarrow> None | Some n \<Rightarrow> Some (fl\<lparr>fl_context_length := n\<rparr>))
      else None)"

text \<open>A flag with its dashes removed, cut at the first equals sign that is not its first byte.\<close>

definition cut_value :: "string \<Rightarrow> string \<times> string option" where
  "cut_value s =
     (let name = hd s # takeWhile (\<lambda>c. c \<noteq> CHR ''='') (tl s)
      in (name, if name = s then None else Some (drop (length name + 1) s)))"

fun parse_flags :: "string list \<Rightarrow> engine_flags \<Rightarrow> engine_flags option" where
  "parse_flags [] fl = Some fl"
| "parse_flags (s # rest) fl =
     (if length s < 2 \<or> hd s \<noteq> CHR ''-'' then Some fl
      else if s = ''--'' then Some fl
      else
        (let body = (if s ! 1 = CHR ''-'' then drop 2 s else tl s)
         in if hd body = CHR ''-'' \<or> hd body = CHR ''='' then None
            else
              (case cut_value body of
                 (name, Some v) \<Rightarrow> (case set_flag name v fl of None \<Rightarrow> None | Some fl' \<Rightarrow> parse_flags rest fl')
               | (name, None) \<Rightarrow>
                   (case rest of
                      [] \<Rightarrow> None
                    | v # rest' \<Rightarrow> (case set_flag name v fl of None \<Rightarrow> None | Some fl' \<Rightarrow> parse_flags rest' fl')))))"

subsection \<open>Starting\<close>

text \<open>
  The machine: whether the build has the engine, the address a listener gets for a requested one, and
  whether a model file loads with a context length.
\<close>

record engine_host =
  eh_supported :: bool
  eh_listen :: "string \<Rightarrow> string option"
  eh_load :: "string \<Rightarrow> u32 \<Rightarrow> bool"

datatype engine_start = EngineError string | EngineServing (es_path: string) (es_context: u32) (es_name: string)

text \<open>What the process prints on its standard output, and whether it gets as far as serving.\<close>

definition runEngine :: "engine_host \<Rightarrow> string list \<Rightarrow> string \<times> engine_start" where
  "runEngine h args =
     (case parse_flags args default_flags of
        None \<Rightarrow> ([], EngineError ''flags'')
      | Some fl \<Rightarrow>
          if fl_model fl = [] \<or> fl_served_model_name fl = []
          then ([], EngineError ''engine: -model and -served-model-name are required'')
          else if \<not> eh_supported h then ([], EngineError ''no gpu engine in this build'')
          else
            (case eh_listen h (fl_addr fl) of
               None \<Rightarrow> ([], EngineError ''listen'')
             | Some bound \<Rightarrow>
                 (let out = ''GRIDLINK_ENGINE_LISTENING '' @ bound @ [CHR 0x0A]
                  in if \<not> eh_load h (fl_model fl) (ucast (fl_context_length fl))
                     then (out, EngineError ''load model'')
                     else (out, EngineServing (fl_model fl) (ucast (fl_context_length fl)) (fl_served_model_name fl)))))"

subsection \<open>The agent's command line is understood\<close>

lemma digit_char:
  assumes "is_digit c"
  shows "char_digit c = Some (digit_value c)" "digit_value c < 10" "c \<noteq> CHR ''_''" "lower_char c = c"
proof -
  show l: "lower_char c = c" using assms by (auto simp: is_digit_def lower_char_def)
  show "char_digit c = Some (digit_value c)" "digit_value c < 10"
    using assms by (auto simp: char_digit_def l is_digit_def digit_value_def)
  show "c \<noteq> CHR ''_''" using assms by (auto simp: is_digit_def)
qed

lemma digits_loop_dec:
  assumes "\<forall>c \<in> set ds. is_digit c" and "foldl (\<lambda>n d. 10 * n + digit_value d) n ds < 2 ^ 64"
  shows "digits_loop 10 ds n = Some (foldl (\<lambda>n d. 10 * n + digit_value d) n ds)"
  using assms
proof (induction ds arbitrary: n)
  case (Cons c ds)
  have mono: "k \<le> foldl (\<lambda>n d. 10 * n + digit_value d) k es" for k and es :: string
    by (induction es rule: rev_induct) auto
  have "10 * n + digit_value c < 2 ^ 64"
    using Cons.prems(2) mono [of "10 * n + digit_value c" ds] by simp
  then show ?case
    using Cons digit_char [of c] by (simp add: algebra_simps)
qed simp

lemma itoa_hd: "0 < n \<Longrightarrow> hd (itoa n) \<noteq> CHR ''0''"
proof (induction n rule: itoa.induct)
  case (1 n)
  show ?case
  proof (cases "n < 10")
    case True
    with 1 have "n \<in> {1, 2, 3, 4, 5, 6, 7, 8, 9}" by auto
    then show ?thesis by (subst itoa.simps) auto
  next
    case False
    with 1 show ?thesis by (subst itoa.simps) simp
  qed
qed

lemma ParseUint0_itoa:
  assumes "0 < n" and "n < 2 ^ 64" shows "ParseUint0 (itoa n) = Some (of_nat n)"
proof -
  have "digits_loop 10 (itoa n) 0 = Some n"
    using digits_loop_dec [of "itoa n" 0] itoa_digits [of _ n] dec_value_itoa [of n] assms(2)
    by (auto simp: dec_value_def)
  moreover have "CHR ''_'' \<notin> set (itoa n)" using itoa_digits [of "CHR ''_''" n] by (auto simp: is_digit_def)
  ultimately show ?thesis using itoa_hd [OF assms(1)] by (simp add: ParseUint0_def base_prefix_def)
qed

lemma parse_engine_args:
  "parse_flags (drop 2 (engine_args agentBin modelPath name bindHost ctx)) default_flags =
     Some \<lparr>fl_model = modelPath, fl_served_model_name = name,
       fl_addr = JoinHostPort (if bindHost = [] then ''127.0.0.1'' else bindHost) ''0'', fl_context_length = ucast ctx\<rparr>"
proof -
  have "ParseUint0 (itoa (unat ctx)) = Some (ucast ctx)" if "0 < ctx"
  proof -
    have "unat ctx < 2 ^ 64" using unsigned_less [of ctx, where ?'a = nat] by simp
    moreover have "0 < unat ctx" using that by (simp add: word_less_nat_alt)
    ultimately show ?thesis by (simp add: ParseUint0_itoa of_nat_unat)
  qed
  then show ?thesis
    by (cases "0 < ctx")
      (simp_all add: engine_args_def cut_value_def set_flag_def default_flags_def word_gt_0)
qed

lemma raw_lines_first:
  "CHR 0x0A \<notin> set l \<Longrightarrow> \<exists>ls. raw_lines (l @ CHR 0x0A # s) = l # ls"
  by (auto simp: raw_lines_def Split_cons)

lemma readEngineAddr_announced:
  assumes "bound \<noteq> []" and "TrimSpace bound = bound" and "CHR 0x0A \<notin> set bound" and "CHR 0x0D \<notin> set bound"
    and "length bound < 1024"
  shows "readEngineAddr (StdoutRead (''GRIDLINK_ENGINE_LISTENING '' @ bound @ CHR 0x0A # extra)) = Some bound"
proof -
  let ?line = "enginePortPrefix @ bound"
  have "last bound \<noteq> CHR 0x0D" using assms(1,4) last_in_set by metis
  then have line: "?line \<noteq> []" "CHR 0x0A \<notin> set ?line" "last ?line \<noteq> CHR 0x0D" "length ?line < 64 * 1024"
    using assms by (auto simp: enginePortPrefix_def)
  obtain ls where "raw_lines (?line @ CHR 0x0A # extra) = ?line # ls" using raw_lines_first line(2) by blast
  then obtain ls' where "scan_lines (64 * 1024) (?line @ CHR 0x0A # extra) = ?line # ls'"
    using line by (auto simp: scan_lines_def dropCR_def)
  then show ?thesis
    using assms(1,2) by (simp add: readEngineAddr_def flip: enginePortPrefix_def)
qed

lemma runEngine_spawned:
  assumes "modelPath \<noteq> []" and "name \<noteq> []" and "eh_supported h" and "eh_load h modelPath ctx"
    and "eh_listen h (JoinHostPort (if bindHost = [] then ''127.0.0.1'' else bindHost) ''0'') = Some bound"
  shows "runEngine h (drop 2 (engine_args agentBin modelPath name bindHost ctx)) =
    (''GRIDLINK_ENGINE_LISTENING '' @ bound @ [CHR 0x0A], EngineServing modelPath ctx name)"
proof -
  have "(ucast (ucast ctx :: u64) :: u32) = ctx" by (rule bit_word_eqI) (simp add: bit_simps)
  then show ?thesis using assms by (simp add: runEngine_def parse_engine_args)
qed

text \<open>C29. The engine process does what the agent's command line says, and is heard. Whatever model path,
  model name, bind address and context length the command is built from, an engine started with it whose
  listener and loader succeed serves that file under that name with that context length, on a port of
  that address, and the agent reads back from its output the very address the engine is bound to,
  whatever else the engine prints afterwards.\<close>

theorem engine_started_as_told:
  assumes "modelPath \<noteq> []" and "name \<noteq> []" and "eh_supported h" and "eh_load h modelPath ctx"
    and "eh_listen h (JoinHostPort (if bindHost = [] then ''127.0.0.1'' else bindHost) ''0'') = Some bound"
    and "bound \<noteq> []" and "TrimSpace bound = bound" and "CHR 0x0A \<notin> set bound" and "CHR 0x0D \<notin> set bound"
    and "length bound < 1024"
  shows "\<exists>out. runEngine h (drop 2 (engine_args agentBin modelPath name bindHost ctx)) =
      (out, EngineServing modelPath ctx name) \<and>
    (\<forall>extra. readEngineAddr (StdoutRead (out @ extra)) = Some bound)"
  using runEngine_spawned [OF assms(1-5)] readEngineAddr_announced [OF assms(6-10)] by simp

theorem engine_started_as_told_witness:
  "\<exists>out. runEngine \<lparr>eh_supported = True, eh_listen = (\<lambda>_. Some ''10.0.0.5:49152''), eh_load = (\<lambda>_ _. True)\<rparr>
       (drop 2 (engine_args ''/agent'' ''/models/q.gguf'' ''qwen'' ''10.0.0.5'' 4096)) =
      (out, EngineServing ''/models/q.gguf'' 4096 ''qwen'') \<and>
    readEngineAddr (StdoutRead (out @ ''loaded'')) = Some ''10.0.0.5:49152''"
  using engine_started_as_told [of "''/models/q.gguf''" "''qwen''"
      "\<lparr>eh_supported = True, eh_listen = (\<lambda>_. Some ''10.0.0.5:49152''), eh_load = (\<lambda>_ _. True)\<rparr>" 4096
      "''10.0.0.5''" "''10.0.0.5:49152''" "''/agent''"]
  by (auto simp: TrimSpace_def is_space_def)

end
