(* ===== verification/Startup.thy ===== *)
theory Startup
  imports CoordProps Migrations AgentHostProps EngineCmd GwProps
begin

text \<open>
  The starts of the three programs (\<^verbatim>\<open>cmd/coordinator\<close>, \<^verbatim>\<open>cmd/gateway\<close> and \<^verbatim>\<open>cmd/agent\<close>): what they read
  from the environment, what they refuse to start without, and what they start with. The environment is
  a function that gives the empty string for a variable that is not set, as \<^verbatim>\<open>os.Getenv\<close> does.
\<close>

subsection \<open>The coordinator's ledger\<close>

datatype open_error =
    ErrConnect
  | ErrPing
  | ErrMigrate migrate_error
  | ErrNoLedger

datatype ledger = LedgerPostgres | LedgerJSONL string

text \<open>
  What the calls to the database meet: whether a pool can be made for a connection string, whether the
  ping is answered, and for the migrations as in \<open>migrate\<close>.
\<close>

record pg_calls =
  pc_pool :: "string \<Rightarrow> bool"
  pc_ping :: bool
  pc_created :: bool
  pc_out :: "string \<Rightarrow> migration_outcome"

text \<open>The scripts that are built into the program, and what a script does.\<close>

record 'db schema =
  sm_sql :: "string \<Rightarrow> 'db \<Rightarrow> 'db option"
  sm_body :: "string \<Rightarrow> string"
  sm_entries :: "embedded_entry list"

definition schema_names :: "'db schema \<Rightarrow> string list" where
  "schema_names sm = migration_names (sm_entries sm)"

text \<open>The second component counts the pools left open.\<close>

definition OpenPostgres ::
  "'db schema \<Rightarrow> pg_calls \<Rightarrow> string \<Rightarrow> 'db pg_state \<Rightarrow> 'db pg_state \<times> nat \<times> (open_error + ledger)" where
  "OpenPostgres sm pc dsn st =
     (if \<not> pc_pool pc dsn then (st, 0, Inl ErrConnect)
      else if \<not> pc_ping pc then (st, 0, Inl ErrPing)
      else case migrate (sm_sql sm) (sm_body sm) (sm_entries sm) (pc_created pc) (pc_out pc) st of
             (st', Some e) \<Rightarrow> (st', 0, Inl (ErrMigrate e))
           | (st', None) \<Rightarrow> (st', 1, Inr LedgerPostgres))"

definition openStore ::
  "'db schema \<Rightarrow> pg_calls \<Rightarrow> (string \<Rightarrow> string) \<Rightarrow> 'db pg_state \<Rightarrow> 'db pg_state \<times> nat \<times> (open_error + ledger)" where
  "openStore sm pc getenv st =
     (let dsn = getenv ''GRIDLINK_DATABASE_URL''; path = getenv ''GRIDLINK_USAGE_LOG''
      in if dsn \<noteq> [] then OpenPostgres sm pc dsn st
         else if path = [] then (st, 0, Inl ErrNoLedger)
         else (st, 0, Inr (LedgerJSONL path)))"

text \<open>\<^verbatim>\<open>Store.Close\<close>: the pool for Postgres, nothing for the file.\<close>

definition Store_Close :: "ledger \<Rightarrow> nat \<Rightarrow> nat" where
  "Store_Close l pools = (case l of LedgerPostgres \<Rightarrow> pools - 1 | LedgerJSONL _ \<Rightarrow> pools)"

subsection \<open>The coordinator\<close>

record server_config =
  sv_Addr :: string
  sv_Token :: string
  sv_State :: Coordinator
  sv_Store :: ledger

datatype serve_error = ErrListen | ErrServe

text \<open>
  How serving goes: whether the address can be bound, whether \<^verbatim>\<open>srv.Serve\<close> ends with an error, whether a
  signal has come by then, and how long \<^verbatim>\<open>GracefulStop\<close> would wait for the open streams, if it returns.
\<close>

record serve_env =
  sn_listen :: "string \<Rightarrow> bool"
  sn_fails :: bool
  sn_signal :: bool
  sn_graceful :: "duration option"

definition shutdownGrace :: duration where
  "shutdownGrace = 5 * second"

text \<open>How long after the signal the server has stopped, and whether streams were cut off.\<close>

definition server_stops :: "duration option \<Rightarrow> duration \<times> bool" where
  "server_stops graceful =
     (case graceful of
        Some d \<Rightarrow> if d < shutdownGrace then (d, False) else (shutdownGrace, True)
      | None \<Rightarrow> (shutdownGrace, True))"

text \<open>The error, and how long after the signal \<^verbatim>\<open>Serve\<close> returns.\<close>

definition Serve :: "serve_env \<Rightarrow> server_config \<Rightarrow> serve_error option \<times> duration" where
  "Serve sn cfg =
     (if \<not> sn_listen sn (sv_Addr cfg) then (Some ErrListen, 0)
      else if sn_fails sn then (Some ErrServe, 0)
      else (None, fst (server_stops (sn_graceful sn))))"

lemma Serve_bounded: "snd (Serve sn cfg) \<le> 5 * second"
  by (auto simp: Serve_def server_stops_def shutdownGrace_def split: option.split)

text \<open>The database, what was served with, the pools open at the end, and the exit status.\<close>

definition coordinator_main ::
  "'db schema \<Rightarrow> pg_calls \<Rightarrow> serve_env \<Rightarrow> (string \<Rightarrow> string) \<Rightarrow> 'db pg_state
     \<Rightarrow> 'db pg_state \<times> server_config option \<times> nat \<times> nat" where
  "coordinator_main sm pc sn getenv st =
     (let addr = envOr getenv ''GRIDLINK_LISTEN'' '':50051''; token = getenv ''GRIDLINK_TOKEN''
      in if token = [] then (st, None, 0, 1)
         else case openStore sm pc getenv st of
                (st', pools, Inl e) \<Rightarrow> (st', None, pools, 1)
              | (st', pools, Inr store) \<Rightarrow>
                  (let cfg = \<lparr>sv_Addr = addr, sv_Token = token, sv_State = New_Coordinator, sv_Store = store\<rparr>
                   in if fst (Serve sn cfg) \<noteq> None \<and> \<not> sn_signal sn then (st', Some cfg, pools, 1)
                      else (st', Some cfg, Store_Close store pools, 0)))"

lemma OpenPostgres_complete:
  assumes "migrated (sm_sql sm) (sm_body sm) (schema_names sm) db0 st" and "distinct (schema_names sm)"
    and "OpenPostgres sm pc dsn st = (st', pools, Inr l)"
  shows "l = LedgerPostgres \<and> pools = 1 \<and> pg_applied st' = schema_names sm \<and>
    run_scripts (sm_sql sm) (sm_body sm) (schema_names sm) db0 = Some (pg_db st')"
  using assms migrate_complete [of "sm_sql sm" "sm_body sm" "sm_entries sm" db0 st "pc_created pc" "pc_out pc" st']
  by (auto simp: OpenPostgres_def schema_names_def split: if_splits option.splits prod.splits)

lemma OpenPostgres_error_closed: "OpenPostgres sm pc dsn st = (st', pools, Inl e) \<Longrightarrow> pools = 0"
  by (auto simp: OpenPostgres_def split: if_splits option.splits prod.splits)

text \<open>Every RPC of the server passes the interceptors that \<^verbatim>\<open>buildServer\<close> installs, with the configured
  token.\<close>

definition buildServer ::
  "server_config \<Rightarrow> string list option \<Rightarrow> ('s \<Rightarrow> 's \<times> (status_code + 'a)) \<Rightarrow> ('s \<Rightarrow> 's \<times> status_code option)
     \<Rightarrow> ('s \<Rightarrow> 's \<times> (status_code + 'a)) \<times> ('s \<Rightarrow> 's \<times> status_code option)" where
  "buildServer cfg md unary stream =
     (unaryAuthInterceptor (sv_Token cfg) md unary, streamAuthInterceptor (sv_Token cfg) md stream)"

definition ledger_ready ::
  "'db schema \<Rightarrow> (string \<Rightarrow> string) \<Rightarrow> 'db \<Rightarrow> 'db pg_state \<Rightarrow> 'db pg_state \<Rightarrow> ledger \<Rightarrow> bool" where
  "ledger_ready sm getenv db0 st st' l \<longleftrightarrow>
     (case l of
        LedgerPostgres \<Rightarrow> getenv ''GRIDLINK_DATABASE_URL'' \<noteq> [] \<and> pg_applied st' = schema_names sm \<and>
          run_scripts (sm_sql sm) (sm_body sm) (schema_names sm) db0 = Some (pg_db st')
      | LedgerJSONL path \<Rightarrow> getenv ''GRIDLINK_DATABASE_URL'' = [] \<and> path = getenv ''GRIDLINK_USAGE_LOG'' \<and>
          path \<noteq> [] \<and> st' = st)"

lemma openStore_ready:
  assumes "migrated (sm_sql sm) (sm_body sm) (schema_names sm) db0 st" and "distinct (schema_names sm)"
    and "openStore sm pc getenv st = (st', pools, res)"
  shows "case res of Inl e \<Rightarrow> pools = 0 | Inr l \<Rightarrow> ledger_ready sm getenv db0 st st' l \<and> Store_Close l pools = 0"
proof (cases "getenv ''GRIDLINK_DATABASE_URL'' = []")
  case True
  with assms(3) show ?thesis
    by (auto simp: openStore_def ledger_ready_def Store_Close_def split: if_splits)
next
  case False
  with assms(3) have "OpenPostgres sm pc (getenv ''GRIDLINK_DATABASE_URL'') st = (st', pools, res)"
    by (simp add: openStore_def)
  with False OpenPostgres_complete [OF assms(1,2)] OpenPostgres_error_closed show ?thesis
    by (cases res) (fastforce simp: ledger_ready_def Store_Close_def)+
qed

text \<open>C25. The coordinator serves only when it can charge for it and keep others out. If it serves at all,
  it does so with a token that is not empty, so that a request with no metadata or an empty bearer token
  is refused before any handler runs, from the initial state, and with a ledger that is ready: with
  Postgres every embedded migration has been recorded and the database is the one all scripts make, in
  order, from the original one, however many earlier starts had failed half way; otherwise it is the file that the
  environment names. When it does not serve, it exits with status 1 and leaves no connection pool open;
  a clean shutdown leaves none either.\<close>

theorem coordinator_starts_ready:
  assumes "migrated (sm_sql sm) (sm_body sm) (schema_names sm) db0 st" and "distinct (schema_names sm)"
    and "coordinator_main sm pc sn getenv st = (st', served, pools, code)"
  shows "(served = None \<longrightarrow> code = 1 \<and> pools = 0) \<and> (code = 0 \<longrightarrow> pools = 0) \<and>
    (\<forall>cfg. served = Some cfg \<longrightarrow>
       sv_Token cfg \<noteq> [] \<and> sv_State cfg = New_Coordinator \<and> ledger_ready sm getenv db0 st st' (sv_Store cfg) \<and>
       (\<forall>md unary stream c. md = None \<or> md = Some [''bearer ''] \<longrightarrow>
          fst (buildServer cfg md unary stream) c = (c, Inl Unauthenticated) \<and>
          snd (buildServer cfg md unary stream) c = (c, Some Unauthenticated)))"
proof -
  obtain st1 pools1 res where os: "openStore sm pc getenv st = (st1, pools1, res)" by (cases "openStore sm pc getenv st")
  have refused: "token \<noteq> [] \<Longrightarrow> md = None \<or> md = Some [''bearer ''] \<Longrightarrow> checkToken md token = Some Unauthenticated" for md token
    by (auto simp: checkToken_def)
  from openStore_ready [OF assms(1,2) os] assms(3) os show ?thesis
    by (cases res) (auto simp: coordinator_main_def Let_def buildServer_def unaryAuthInterceptor_def
        streamAuthInterceptor_def refused split: if_splits)
qed

definition demo_getenv :: "string \<Rightarrow> string" where
  "demo_getenv k = (if k = ''GRIDLINK_TOKEN'' then ''s3'' else if k = ''GRIDLINK_DATABASE_URL'' then ''postgres://db'' else [])"

definition demo_schema :: "nat schema" where
  "demo_schema = \<lparr>sm_sql = (\<lambda>script n. Some (n + length script)), sm_body = (\<lambda>name. name),
     sm_entries = [\<lparr>ee_name = ''0002.sql'', ee_isDir = False\<rparr>, \<lparr>ee_name = ''0001.sql'', ee_isDir = False\<rparr>]\<rparr>"

definition demo_pg :: pg_calls where
  "demo_pg = \<lparr>pc_pool = (\<lambda>_. True), pc_ping = True, pc_created = True, pc_out = (\<lambda>_. MigOk)\<rparr>"

definition demo_serve :: serve_env where
  "demo_serve = \<lparr>sn_listen = (\<lambda>_. True), sn_fails = False, sn_signal = True, sn_graceful = None\<rparr>"

lemma demo_names: "schema_names demo_schema = [''0001.sql'', ''0002.sql'']"
  by code_simp

lemma demo_coordinator:
  "coordinator_main demo_schema demo_pg demo_serve demo_getenv \<lparr>pg_db = 0, pg_applied = []\<rparr> =
     (\<lparr>pg_db = 16, pg_applied = [''0001.sql'', ''0002.sql'']\<rparr>,
      Some \<lparr>sv_Addr = '':50051'', sv_Token = ''s3'', sv_State = New_Coordinator, sv_Store = LedgerPostgres\<rparr>, 0, 0)"
  using demo_names
  by (simp add: coordinator_main_def openStore_def OpenPostgres_def migrate_def schema_names_def demo_pg_def
      demo_serve_def demo_getenv_def envOr_def Store_Close_def Serve_def)
    (simp add: demo_schema_def)

theorem coordinator_starts_ready_witness:
  "ledger_ready demo_schema demo_getenv 0 \<lparr>pg_db = 0, pg_applied = []\<rparr>
     \<lparr>pg_db = 16, pg_applied = [''0001.sql'', ''0002.sql'']\<rparr> LedgerPostgres"
proof -
  have m: "migrated (sm_sql demo_schema) (sm_body demo_schema) (schema_names demo_schema) 0 \<lparr>pg_db = 0, pg_applied = []\<rparr>"
    by (simp add: migrated_def)
  have d: "distinct (schema_names demo_schema)" by (simp add: demo_names)
  show ?thesis using coordinator_starts_ready [OF m d demo_coordinator] by auto
qed

subsection \<open>The gateway\<close>

record gateway_config =
  gc_Addr :: string
  gc_Coordinator :: string
  gc_Token :: string
  gc_APIKeys :: "(string \<times> string) list"

definition gateway_main :: "(string \<Rightarrow> string) \<Rightarrow> gateway_config option" where
  "gateway_main getenv =
     (let token = getenv ''GRIDLINK_TOKEN''
      in if token = [] then None
         else Some \<lparr>gc_Addr = envOr getenv ''GRIDLINK_GATEWAY_LISTEN'' '':8080'',
                gc_Coordinator = envOr getenv ''GRIDLINK_COORDINATOR'' ''localhost:50051'', gc_Token = token,
                gc_APIKeys = KeysFromEnv (getenv ''GRIDLINK_API_KEYS'')\<rparr>)"

subsection \<open>The agent\<close>

text \<open>\<^verbatim>\<open>os.UserHomeDir\<close> and \<^verbatim>\<open>os.Hostname\<close> may fail. The home directory is a clean path, as \<^verbatim>\<open>filepath.Join\<close>
  would make it.\<close>

definition DefaultNodeIDPath :: "string option \<Rightarrow> string" where
  "DefaultNodeIDPath home = (case home of None \<Rightarrow> ''.gridlink/node_id'' | Some h \<Rightarrow> h @ ''/.gridlink/node_id'')"

definition hostname :: "string option \<Rightarrow> string" where
  "hostname h = (case h of None \<Rightarrow> ''unknown'' | Some n \<Rightarrow> n)"

text \<open>The metadata of the agent's stream.\<close>

definition agent_authorization :: "string \<Rightarrow> string" where
  "agent_authorization token = ''bearer '' @ token"

record native_manager =
  nm_agentBin :: string
  nm_modelsDir :: string
  nm_bindHost :: string

definition NewNativeManager :: "string option \<Rightarrow> string option \<Rightarrow> string \<Rightarrow> native_manager option" where
  "NewNativeManager executable home bindHost =
     (case executable of
        None \<Rightarrow> None
      | Some bin \<Rightarrow>
          (case home of
             None \<Rightarrow> None
           | Some h \<Rightarrow> Some \<lparr>nm_agentBin = bin, nm_modelsDir = h @ ''/.gridlink/models'',
                        nm_bindHost = (if bindHost = [] then ''127.0.0.1'' else bindHost)\<rparr>))"

text \<open>One program, several roles: what the process becomes, or the status it exits with.\<close>

datatype agent_role =
    AgentExits nat
  | AgentRuns ClientConfig
  | EngineRuns string u32 string

definition agent_command :: "host_env \<Rightarrow> engine_host \<Rightarrow> string list \<Rightarrow> agent_role" where
  "agent_command h eh args =
     (case args of
        cmd # rest \<Rightarrow>
          if cmd = ''engine''
          then (case snd (runEngine eh rest) of
                  EngineError e \<Rightarrow> AgentExits 1
                | EngineServing path ctx name \<Rightarrow> EngineRuns path ctx name)
          else if cmd = ''doctor'' then AgentExits (if runDoctor h then 0 else 1)
          else if cmd \<in> {''-h'', ''--help'', ''help''} then AgentExits 0
          else AgentExits 2
      | [] \<Rightarrow> (case agent_main h of None \<Rightarrow> AgentExits 1 | Some cfg \<Rightarrow> AgentRuns cfg))"

subsection \<open>The programs fit together\<close>

lemma checkToken_bearer: "checkToken (Some [''bearer '' @ token]) want = None \<longleftrightarrow> token = want"
  by (simp add: checkToken_def EqualFold_def)

text \<open>The three programs work together exactly when they were given the same token. Take any starts
  of a coordinator, a gateway and an agent that got as far as running: the coordinator accepts the
  gateway's calls if and only if the two have the same \<^verbatim>\<open>GRIDLINK_TOKEN\<close>, and likewise the agent's stream;
  and an agent without arguments runs if and only if it has a token.\<close>

theorem programs_share_token:
  assumes "coordinator_main sm pc sn cenv st = (st', Some cfg, pools, code)"
    and "gateway_main genv = Some g"
    and "agent_command h eh [] = AgentRuns acfg"
  shows "(checkToken (Some [GetRequestMetadata (gc_Token g)]) (sv_Token cfg) = None \<longleftrightarrow>
      genv ''GRIDLINK_TOKEN'' = cenv ''GRIDLINK_TOKEN'') \<and>
    (checkToken (Some [agent_authorization (ho_getenv h ''GRIDLINK_TOKEN'')]) (sv_Token cfg) = None \<longleftrightarrow>
      ho_getenv h ''GRIDLINK_TOKEN'' = cenv ''GRIDLINK_TOKEN'') \<and>
    ho_getenv h ''GRIDLINK_TOKEN'' \<noteq> [] \<and> gc_Token g \<noteq> [] \<and> sv_Token cfg \<noteq> []"
proof -
  have "sv_Token cfg = cenv ''GRIDLINK_TOKEN''" "cenv ''GRIDLINK_TOKEN'' \<noteq> []"
    using assms(1) by (auto simp: coordinator_main_def Let_def split: if_splits prod.splits sum.splits)
  moreover have "gc_Token g = genv ''GRIDLINK_TOKEN''" "gc_Token g \<noteq> []"
    using assms(2) by (auto simp: gateway_main_def Let_def split: if_splits)
  moreover have "ho_getenv h ''GRIDLINK_TOKEN'' \<noteq> []"
    using assms(3) by (auto simp: agent_command_def agent_main_def Let_def split: option.splits if_splits)
  ultimately show ?thesis
    unfolding GetRequestMetadata_def agent_authorization_def checkToken_bearer by simp
qed

theorem programs_share_token_witness:
  "checkToken (Some [GetRequestMetadata ''s3'']) ''s3'' = None \<and> checkToken (Some [GetRequestMetadata ''s4'']) ''s3'' \<noteq> None"
proof -
  have agent: "\<exists>acfg. agent_command demo_mac eh [] = AgentRuns acfg" for eh
    by (simp add: agent_command_def agent_main_def demo_mac_def demo_mac_getenv_def Let_def)
  have g: "\<exists>g. gateway_main (\<lambda>k. if k = ''GRIDLINK_TOKEN'' then t else []) = Some g \<and> gc_Token g = t" if "t \<noteq> []" for t
    using that by (simp add: gateway_main_def)
  show ?thesis
    using programs_share_token [OF demo_coordinator] g [of "''s3''"] g [of "''s4''"] agent
    by (fastforce simp: demo_getenv_def)
qed

text \<open>
  The command that a native deployment spawns makes the process an engine, for the model file, the
  served name and the context length of the deployment, whenever the build has the engine, the address
  can be bound and the model loads.
\<close>

lemma spawned_process_is_engine:
  assumes "modelPath \<noteq> []" and "name \<noteq> []" and "eh_supported eh" and "eh_load eh modelPath ctx"
    and "eh_listen eh (JoinHostPort (if bindHost = [] then ''127.0.0.1'' else bindHost) ''0'') = Some bound"
  shows "agent_command h eh (tl (engine_args agentBin modelPath name bindHost ctx)) = EngineRuns modelPath ctx name"
proof -
  have "tl (engine_args agentBin modelPath name bindHost ctx) = ''engine'' # drop 2 (engine_args agentBin modelPath name bindHost ctx)"
    by (simp add: engine_args_def Let_def)
  then show ?thesis using runEngine_spawned [OF assms, of agentBin] by (simp add: agent_command_def)
qed

end
