(* ===== verification/Shutdown.thy ===== *)
theory Shutdown
  imports GwUsage
begin

text \<open>
  How the two HTTP servers stop: the gateway (\<^verbatim>\<open>proxy.Serve\<close> and the deferred calls of its \<^verbatim>\<open>main\<close>) and the
  engine (the end of \<^verbatim>\<open>runEngine\<close>). Both call \<^verbatim>\<open>http.Server.Shutdown\<close> with ten seconds; the engine waits
  for it to return, the gateway calls it from a goroutine that nobody waits for.
\<close>

subsection \<open>The HTTP server\<close>

text \<open>
  What the sources use of \<^verbatim>\<open>http.Server\<close>. \<^verbatim>\<open>Shutdown\<close> closes the listener, which makes \<^verbatim>\<open>Serve\<close> return
  \<^verbatim>\<open>ErrServerClosed\<close> at once; it then waits until no request is being answered and returns, with an
  error if its deadline passes first. It does not interrupt any request. \<open>hs_active\<close> are the requests
  being answered.
\<close>

datatype shutdown_call = NotCalled | Waiting | ShutdownReturned bool

record 'q http_server =
  hs_listening :: bool
  hs_active :: "'q list"
  hs_shutdown :: shutdown_call

definition http_serving :: "'q http_server" where
  "http_serving = \<lparr>hs_listening = True, hs_active = [], hs_shutdown = NotCalled\<rparr>"

definition call_Shutdown :: "'q http_server \<Rightarrow> 'q http_server" where
  "call_Shutdown h = h\<lparr>hs_listening := False, hs_shutdown := Waiting\<rparr>"

datatype 'q http_event = HAccept 'q | HFinish 'q | HReturn

inductive http_step :: "'q http_server \<Rightarrow> 'q http_event \<Rightarrow> 'q http_server \<Rightarrow> bool" where
  accepts: "hs_listening h \<Longrightarrow> http_step h (HAccept q) (h\<lparr>hs_active := hs_active h @ [q]\<rparr>)"
| finishes: "hs_active h = xs @ q # ys \<Longrightarrow> http_step h (HFinish q) (h\<lparr>hs_active := xs @ ys\<rparr>)"
| idle: "hs_shutdown h = Waiting \<Longrightarrow> hs_active h = [] \<Longrightarrow>
    http_step h HReturn (h\<lparr>hs_shutdown := ShutdownReturned True\<rparr>)"
| deadline: "hs_shutdown h = Waiting \<Longrightarrow> http_step h HReturn (h\<lparr>hs_shutdown := ShutdownReturned False\<rparr>)"

inductive_cases http_stepE: "http_step h ev h'"

text \<open>A request that is being answered will have been answered.\<close>

lemma http_finish_exists: "hs_active h \<noteq> [] \<Longrightarrow> \<exists>q h'. http_step h (HFinish q) h'"
  by (cases "hs_active h") (auto intro!: exI finishes [where xs = "[]"])

subsection \<open>The gateway\<close>

text \<open>
  Where \<^verbatim>\<open>main\<close> is: inside \<^verbatim>\<open>httpSrv.Serve\<close>, in the deferred \<^verbatim>\<open>u.Close\<close>, in the deferred \<^verbatim>\<open>r.Close\<close>, or gone
  with an exit status. \<^verbatim>\<open>os.Exit\<close> runs no deferred call.
\<close>

datatype gateway_at = Serving | ClosingUsage | ClosingRouter | GatewayExited nat

text \<open>
  A request stands for what its handler will report: a record, or nothing. \<open>gr_answered\<close> lists the requests
  whose handlers have returned, in that order; \<open>gr_accepted\<close> counts all requests.
\<close>

record gateway_run =
  gr_main :: gateway_at
  gr_signal :: bool
  gr_http :: "UsageReport option http_server"
  gr_reporter :: Reporter
  gr_answered :: "UsageReport option list"
  gr_accepted :: nat

abbreviation gr_exited :: "gateway_run \<Rightarrow> bool" where
  "gr_exited s \<equiv> \<exists>n. gr_main s = GatewayExited n"

text \<open>\<open>ok\<close>: the coordinator's address could be parsed; \<open>bound\<close>: the gateway's own could be bound.\<close>

definition gateway_started :: "bool \<Rightarrow> bool \<Rightarrow> gateway_run" where
  "gateway_started ok bound = \<lparr>gr_main = (if bound then Serving else GatewayExited 1), gr_signal = False,
     gr_http = http_serving, gr_reporter = NewReporter ok, gr_answered = [], gr_accepted = 0\<rparr>"

text \<open>What an event of the HTTP server does to the rest of the gateway.\<close>

definition gateway_http :: "UsageReport option http_event \<Rightarrow> gateway_run \<Rightarrow> gateway_run" where
  "gateway_http ev s =
     (case ev of
        HAccept q \<Rightarrow> s\<lparr>gr_accepted := gr_accepted s + 1\<rparr>
      | HFinish q \<Rightarrow> s\<lparr>gr_answered := gr_answered s @ [q],
          gr_reporter := (case q of None \<Rightarrow> gr_reporter s | Some rec \<Rightarrow> Report rec (gr_reporter s))\<rparr>
      | HReturn \<Rightarrow> s)"

text \<open>
  \<^verbatim>\<open>u.Close\<close> tells the drain goroutine to stop and waits for it; the goroutine returns when it finds the
  queue empty after that.
\<close>

inductive gateway_step :: "gateway_run \<Rightarrow> gateway_run \<Rightarrow> bool" where
  requests: "\<not> gr_exited s \<Longrightarrow> http_step (gr_http s) ev h \<Longrightarrow> gateway_step s ((gateway_http ev s)\<lparr>gr_http := h\<rparr>)"
| drains: "\<not> gr_exited s \<Longrightarrow> rp_draining (gr_reporter s) \<Longrightarrow> rp_ch (gr_reporter s) \<noteq> [] \<Longrightarrow>
    gateway_step s (s\<lparr>gr_reporter := drain_one (gr_reporter s)\<rparr>)"
| signalled: "\<not> gr_exited s \<Longrightarrow> \<not> gr_signal s \<Longrightarrow> gateway_step s (s\<lparr>gr_signal := True\<rparr>)"
| shuts_down: "\<not> gr_exited s \<Longrightarrow> gr_signal s \<Longrightarrow> hs_shutdown (gr_http s) = NotCalled \<Longrightarrow>
    gateway_step s (s\<lparr>gr_http := call_Shutdown (gr_http s)\<rparr>)"
| serve_closed: "gr_main s = Serving \<Longrightarrow> hs_shutdown (gr_http s) \<noteq> NotCalled \<Longrightarrow>
    gateway_step s (s\<lparr>gr_main := ClosingUsage\<rparr>)"
| serve_fails: "gr_main s = Serving \<Longrightarrow> hs_shutdown (gr_http s) = NotCalled \<Longrightarrow>
    gateway_step s (s\<lparr>gr_main := (if gr_signal s then ClosingUsage else GatewayExited 1),
      gr_http := (gr_http s)\<lparr>hs_listening := False\<rparr>\<rparr>)"
| flushed: "gr_main s = ClosingUsage \<Longrightarrow> rp_draining (gr_reporter s) \<Longrightarrow> rp_ch (gr_reporter s) = [] \<Longrightarrow>
    gateway_step s (s\<lparr>gr_reporter := Close_Reporter (gr_reporter s)\<rparr>)"
| usage_closed: "gr_main s = ClosingUsage \<Longrightarrow> \<not> rp_draining (gr_reporter s) \<Longrightarrow>
    gateway_step s (s\<lparr>gr_main := ClosingRouter\<rparr>)"
| router_closed: "gr_main s = ClosingRouter \<Longrightarrow> gateway_step s (s\<lparr>gr_main := GatewayExited 0\<rparr>)"

inductive_cases gateway_stepE: "gateway_step s t"

text \<open>The records that handlers have handed to the reporter.\<close>

definition gr_reported :: "gateway_run \<Rightarrow> UsageReport list" where
  "gr_reported s = List.map_filter id (gr_answered s)"

subsection \<open>The invariant of the gateway\<close>

text \<open>The reporter is in a state that its own operations lead to, given the reports made.\<close>

definition reporter_ok :: "bool \<Rightarrow> gateway_run \<Rightarrow> bool" where
  "reporter_ok ok s \<longleftrightarrow> (\<exists>evs. gr_reporter s = reporter_run evs (NewReporter ok) \<and> reports_of evs = gr_reported s)"

definition phase_ok :: "bool \<Rightarrow> gateway_run \<Rightarrow> bool" where
  "phase_ok ok s \<longleftrightarrow>
     (rp_draining (gr_reporter s) \<longrightarrow> ok) \<and> (gr_main s = Serving \<longrightarrow> rp_draining (gr_reporter s) = ok) \<and>
     (gr_main s \<in> {ClosingRouter, GatewayExited 0} \<longrightarrow> \<not> rp_draining (gr_reporter s)) \<and>
     (\<forall>n. gr_main s = GatewayExited n \<longrightarrow> n = 0 \<or> n = 1) \<and>
     (hs_shutdown (gr_http s) \<noteq> NotCalled \<longrightarrow> gr_signal s \<and> \<not> hs_listening (gr_http s) \<and> gr_main s \<noteq> GatewayExited 1) \<and>
     (gr_main s \<in> {ClosingUsage, ClosingRouter, GatewayExited 0} \<longrightarrow> gr_signal s)"

definition gateway_inv :: "bool \<Rightarrow> gateway_run \<Rightarrow> bool" where
  "gateway_inv ok s \<longleftrightarrow> reporter_ok ok s \<and> phase_ok ok s \<and>
     gr_accepted s = length (gr_answered s) + length (hs_active (gr_http s))"

lemma reports_of_append: "reports_of (evs @ evs') = reports_of evs @ reports_of evs'"
  by (induction evs rule: reports_of.induct) simp_all

lemma reporter_ok_cong:
  "gr_reporter t = gr_reporter s \<Longrightarrow> gr_answered t = gr_answered s \<Longrightarrow> reporter_ok ok t = reporter_ok ok s"
  by (simp add: reporter_ok_def gr_reported_def)

lemma reporter_ok_event:
  assumes "reporter_ok ok s" and "gr_reporter t = reporter_run evs' (gr_reporter s)"
    and "gr_reported t = gr_reported s @ reports_of evs'"
  shows "reporter_ok ok t"
proof -
  obtain evs where "gr_reporter s = reporter_run evs (NewReporter ok)" "reports_of evs = gr_reported s"
    using assms(1) by (auto simp: reporter_ok_def)
  then show ?thesis using assms(2,3) unfolding reporter_ok_def
    by (intro exI [of _ "evs @ evs'"]) (simp add: reporter_run_append reports_of_append)
qed

lemma draining_simps [simp]:
  "rp_draining (Report rec r) = rp_draining r" "rp_draining (drain_one r) = rp_draining r"
  "rp_draining (NewReporter ok) = ok" "rp_hasClient (NewReporter ok) = ok"
  by (auto simp: Report_def drain_one_def NewReporter_def split: list.split)

lemma reporter_ok_client: "reporter_ok ok s \<Longrightarrow> rp_hasClient (gr_reporter s) = ok"
  by (auto simp: reporter_ok_def hasClient_run)

lemma reporter_ok_step:
  assumes "reporter_ok ok s" and "gateway_step s t"
  shows "reporter_ok ok t"
  using assms(2)
proof (cases rule: gateway_step.cases)
  case (requests ev h)
  then show ?thesis
  proof (cases ev)
    case (HFinish q)
    then show ?thesis
      using reporter_ok_event [OF assms(1), of t "case q of None \<Rightarrow> [] | Some rec \<Rightarrow> [EvReport rec]"] requests(1)
      by (auto simp: gateway_http_def gr_reported_def List.map_filter_def split: option.split)
  qed (use assms(1) reporter_ok_cong [of t s] in \<open>auto simp: gateway_http_def\<close>)
next
  case drains
  then show ?thesis
    using reporter_ok_event [OF assms(1), of t "[EvDrain]"] by (simp add: gr_reported_def)
next
  case flushed
  then show ?thesis
    using reporter_ok_event [OF assms(1), of t "[EvClose]"] by (simp add: gr_reported_def)
qed (use assms(1) reporter_ok_cong [of t s] in auto)

lemma gateway_http_simps [simp]:
  "gr_main (gateway_http ev s) = gr_main s" "gr_signal (gateway_http ev s) = gr_signal s"
  "rp_draining (gr_reporter (gateway_http ev s)) = rp_draining (gr_reporter s)"
  by (auto simp: gateway_http_def split: http_event.split option.split)

lemma http_step_keeps:
  "http_step h ev h' \<Longrightarrow> hs_listening h' = hs_listening h \<and> (hs_shutdown h' = NotCalled \<longleftrightarrow> hs_shutdown h = NotCalled)"
  by (auto elim: http_stepE)

lemma phase_ok_step:
  assumes "phase_ok ok s" and "gateway_step s t"
  shows "phase_ok ok t"
  using assms(2)
proof (cases rule: gateway_step.cases)
  case (requests ev h)
  then show ?thesis using assms(1) http_step_keeps [OF requests(3)] by (simp add: phase_ok_def)
qed (use assms(1) in \<open>auto simp: phase_ok_def call_Shutdown_def\<close>)

lemma accepted_step_count:
  assumes "gr_accepted s = length (gr_answered s) + length (hs_active (gr_http s))" and "gateway_step s t"
  shows "gr_accepted t = length (gr_answered t) + length (hs_active (gr_http t))"
  using assms(2)
proof (cases rule: gateway_step.cases)
  case (requests ev h)
  then show ?thesis using assms(1) by (auto simp: gateway_http_def elim!: http_stepE)
qed (use assms(1) in \<open>auto simp: call_Shutdown_def\<close>)

lemma gateway_inv_step: "gateway_inv ok s \<Longrightarrow> gateway_step s t \<Longrightarrow> gateway_inv ok t"
  unfolding gateway_inv_def using reporter_ok_step phase_ok_step accepted_step_count by blast

definition gateway_init :: "bool \<Rightarrow> gateway_run \<Rightarrow> bool" where
  "gateway_init ok s \<longleftrightarrow> (\<exists>bound. s = gateway_started ok bound)"

lemma gateway_inv_init: "gateway_init ok s \<Longrightarrow> gateway_inv ok s"
  by (auto simp: gateway_init_def gateway_inv_def gateway_started_def reporter_ok_def phase_ok_def gr_reported_def
      http_serving_def List.map_filter_def intro!: exI [of _ "[]"] split: if_splits)

interpretation gateway: inductive_invariant "gateway_init ok" gateway_step "gateway_inv ok" for ok
  by unfold_locales (auto intro: gateway_inv_init gateway_inv_step)

subsection \<open>Every shutdown ends\<close>

text \<open>The steps that are left once \<^verbatim>\<open>Shutdown\<close> was called.\<close>

definition gateway_left :: "gateway_run \<Rightarrow> nat" where
  "gateway_left s =
     (case gr_main s of Serving \<Rightarrow> 3 | ClosingUsage \<Rightarrow> 2 | ClosingRouter \<Rightarrow> 1 | GatewayExited n \<Rightarrow> 0) +
     (if hs_shutdown (gr_http s) = Waiting then 1 else 0) + 2 * length (hs_active (gr_http s)) +
     length (rp_ch (gr_reporter s)) + (if rp_draining (gr_reporter s) then 1 else 0)"

definition gateway_stopping :: "bool \<Rightarrow> gateway_run \<Rightarrow> bool" where
  "gateway_stopping ok s \<longleftrightarrow> gateway_inv ok s \<and> hs_shutdown (gr_http s) \<noteq> NotCalled"

lemma gateway_stopping_step: "gateway_stopping ok s \<Longrightarrow> gateway_step s t \<Longrightarrow> gateway_stopping ok t"
  using gateway_inv_step [of ok s t]
  by (auto simp: gateway_stopping_def call_Shutdown_def gateway_http_def elim!: gateway_stepE http_stepE
      split: http_event.splits)

lemma gateway_advances:
  assumes "gateway_stopping ok s" and "gr_main s \<noteq> GatewayExited 0"
  shows "\<exists>t. gateway_step s t"
proof (cases "gr_main s")
  case Serving
  then show ?thesis using assms(1) by (auto simp: gateway_stopping_def intro: serve_closed)
next
  case ClosingUsage
  then show ?thesis
    using drains [of s] flushed [of s] usage_closed [of s] by (metis gateway_at.distinct(9))
next
  case ClosingRouter
  then show ?thesis by (auto intro: router_closed)
next
  case (GatewayExited n)
  then show ?thesis using assms by (auto simp: gateway_stopping_def gateway_inv_def phase_ok_def)
qed

lemma Report_queue: "length (rp_ch (Report rec r)) \<le> Suc (length (rp_ch r))"
  by (simp add: Report_def)

lemma gateway_shrinks:
  assumes "gateway_stopping ok s" and "gateway_step s t"
  shows "gateway_left t < gateway_left s"
  using assms(2)
proof (cases rule: gateway_step.cases)
  case (requests ev h)
  have closed: "\<not> hs_listening (gr_http s)"
    using assms(1) by (simp add: gateway_stopping_def gateway_inv_def phase_ok_def)
  show ?thesis using requests(3)
  proof (cases rule: http_step.cases)
    case (finishes xs q ys)
    have "length (rp_ch (gr_reporter t)) \<le> Suc (length (rp_ch (gr_reporter s)))"
      "rp_draining (gr_reporter t) = rp_draining (gr_reporter s)"
      using requests(1) finishes Report_queue by (auto simp: gateway_http_def split: option.split)
    then show ?thesis using requests(1) finishes by (simp add: gateway_left_def gateway_http_def)
  qed (use requests closed in \<open>auto simp: gateway_left_def gateway_http_def\<close>)
next
  case drains
  then show ?thesis by (auto simp: gateway_left_def drain_one_def neq_Nil_conv)
next
  case flushed
  then show ?thesis
    using reporter_ok_client [of ok s] assms(1)
    by (auto simp: gateway_left_def Close_Reporter_def gateway_stopping_def gateway_inv_def phase_ok_def)
qed (use assms(1) in \<open>auto simp: gateway_left_def gateway_stopping_def gateway_inv_def phase_ok_def\<close>)

interpretation stopping: ending_system "gateway_stopping ok" gateway_step "gateway_stopping ok"
    "\<lambda>s. gr_main s = GatewayExited 0" gateway_left for ok
  by unfold_locales (auto intro: gateway_stopping_step gateway_advances gateway_shrinks)

text \<open>What was accepted at some moment while the drain goroutine ran stays accepted, and is sent before it returns.\<close>

lemma accepted_is_sent:
  assumes "gateway_step\<^sup>*\<^sup>* s t" and "rp_draining (gr_reporter s)"
  shows "prefix (accepted (gr_reporter s)) (accepted (gr_reporter t)) \<and>
    (rp_draining (gr_reporter t) \<or> prefix (accepted (gr_reporter s)) (rp_sent (gr_reporter t)))"
  using assms(1)
proof (induction rule: rtranclp_induct)
  case base
  show ?case using assms(2) by simp
next
  case (step t u)
  let ?a = "accepted (gr_reporter s)"
  have grows: "prefix ?a (accepted r) \<Longrightarrow> prefix ?a (accepted (Report rec r))" for r rec
  proof -
    have "\<exists>zs. accepted (Report rec r) = accepted r @ zs" by (simp add: Report_def)
    then show "prefix ?a (accepted r) \<Longrightarrow> ?thesis" by (metis prefix_prefix)
  qed
  have sent: "rp_sent (Report rec r) = rp_sent r" for r rec by (simp add: Report_def)
  from step.hyps(2) show ?case
  proof (cases rule: gateway_step.cases)
    case (requests ev h)
    then show ?thesis using step.IH grows
      by (auto simp: gateway_http_def sent split: http_event.split option.split)
  next
    case flushed
    then show ?thesis using step.IH by (auto simp: Close_Reporter_def)
  qed (use step.IH in simp_all)
qed

text \<open>C35. No usage that the gateway accepted is lost in a clean shutdown, and every shutdown ends. Take any
  state that the gateway can get into, with requests answered in any order. Its reporter has sent, or
  holds in its queue, an in-order selection of the records that the handlers reported, and counted each
  other one as dropped; the queue is within its bound. If it is still serving and later exits
  with status 0, everything it had accepted by now has been sent. Once \<^verbatim>\<open>Shutdown\<close> has been called, every schedule
  ends after at most as many steps as \<open>gateway_left\<close> says, with the gateway exited with status 0.\<close>

theorem gateway_shutdown_accounts:
  assumes "reachable (gateway_init True) gateway_step s"
  shows "length (rp_ch (gr_reporter s)) \<le> 1024 \<and>
    (\<exists>acc. subseq acc (gr_reported s) \<and>
       rp_sent (gr_reporter s) @ map send_request (rp_ch (gr_reporter s)) = map send_request acc \<and>
       Dropped (gr_reporter s) = of_nat (length (gr_reported s) - length acc)) \<and>
    (\<forall>t. gr_main s = Serving \<and> gateway_step\<^sup>*\<^sup>* s t \<and> gr_main t = GatewayExited 0 \<longrightarrow>
       prefix (rp_sent (gr_reporter s) @ map send_request (rp_ch (gr_reporter s))) (rp_sent (gr_reporter t))) \<and>
    (hs_shutdown (gr_http s) \<noteq> NotCalled \<longrightarrow>
       (\<forall>n t. (gateway_step ^^ n) s t \<longrightarrow> n \<le> gateway_left s) \<and>
       (\<forall>t. gateway_step\<^sup>*\<^sup>* s t \<and> (\<forall>u. \<not> gateway_step t u) \<longrightarrow> gr_main t = GatewayExited 0))"
proof (intro conjI allI impI)
  have inv: "gateway_inv True s" by (rule gateway.reachable_inv [OF assms])
  then obtain evs where evs: "gr_reporter s = reporter_run evs (NewReporter True)" "reports_of evs = gr_reported s"
    by (auto simp: gateway_inv_def reporter_ok_def)
  show "length (rp_ch (gr_reporter s)) \<le> 1024"
    using queue_bounded [of "NewReporter True" evs] by (simp add: evs(1) NewReporter_def queueSize_def)
  show "\<exists>acc. subseq acc (gr_reported s) \<and>
      rp_sent (gr_reporter s) @ map send_request (rp_ch (gr_reporter s)) = map send_request acc \<and>
      Dropped (gr_reporter s) = of_nat (length (gr_reported s) - length acc)"
    using reporter_conservation [of "NewReporter True" evs] evs by (simp add: NewReporter_def Dropped_def)
  fix t
  assume t: "gr_main s = Serving \<and> gateway_step\<^sup>*\<^sup>* s t \<and> gr_main t = GatewayExited 0"
  then have "rp_draining (gr_reporter s)" using inv by (simp add: gateway_inv_def phase_ok_def)
  moreover have "\<not> rp_draining (gr_reporter t)"
    using gateway.run_inv [OF inv, of t] t by (simp add: gateway_inv_def phase_ok_def)
  ultimately show "prefix (accepted (gr_reporter s)) (rp_sent (gr_reporter t))"
    using accepted_is_sent [of s t] t by simp
next
  assume "hs_shutdown (gr_http s) \<noteq> NotCalled"
  then have st: "gateway_stopping True s"
    using gateway.reachable_inv [OF assms] by (simp add: gateway_stopping_def)
  show "n \<le> gateway_left s" if "(gateway_step ^^ n) s t" for n t
    using stopping.run_bounded [OF st that] by simp
  show "gr_main t = GatewayExited 0" if "gateway_step\<^sup>*\<^sup>* s t \<and> (\<forall>u. \<not> gateway_step t u)" for t
    using stopping.stuck_final [OF st, of t] that by blast
qed

subsection \<open>Nobody waits for the answers\<close>

text \<open>The requests being answered and those answered are the same.\<close>

definition no_answer :: "gateway_run \<Rightarrow> gateway_run \<Rightarrow> bool" where
  "no_answer s t \<longleftrightarrow> hs_active (gr_http t) = hs_active (gr_http s) \<and> gr_answered t = gr_answered s"

lemma stop_serving:
  assumes "gr_main s = Serving"
  obtains t where "gateway_step\<^sup>*\<^sup>* s t" and "gr_main t = ClosingUsage" and "no_answer s t" and "gr_reporter t = gr_reporter s"
proof -
  let ?s1 = "s\<lparr>gr_signal := True\<rparr>"
  let ?s2 = "if hs_shutdown (gr_http s) = NotCalled then ?s1\<lparr>gr_http := call_Shutdown (gr_http s)\<rparr> else ?s1"
  have "gateway_step\<^sup>*\<^sup>* s ?s1"
  proof (cases "gr_signal s")
    case True
    then have "?s1 = s" by (cases s) simp
    then show ?thesis by simp
  qed (use signalled [of s] assms in auto)
  also have "gateway_step\<^sup>*\<^sup>* ?s1 ?s2" using shuts_down [of ?s1] assms by auto
  also have "gateway_step\<^sup>*\<^sup>* ?s2 (?s2\<lparr>gr_main := ClosingUsage\<rparr>)"
    using serve_closed [of ?s2] assms by (auto simp: call_Shutdown_def)
  finally show ?thesis by (rule that) (auto simp: no_answer_def call_Shutdown_def)
qed

lemma close_gateway:
  assumes "gr_main s = ClosingUsage" and "rp_draining (gr_reporter s)" and "rp_hasClient (gr_reporter s)"
  shows "\<exists>t. gateway_step\<^sup>*\<^sup>* s t \<and> gr_main t = GatewayExited 0 \<and> no_answer s t \<and>
    gr_reporter t = Close_Reporter (gr_reporter s)"
  using assms
proof (induction "rp_ch (gr_reporter s)" arbitrary: s)
  case Nil
  let ?s1 = "s\<lparr>gr_reporter := Close_Reporter (gr_reporter s)\<rparr>"
  have "gateway_step\<^sup>*\<^sup>* s ?s1" using flushed [of s] Nil by simp
  also have "gateway_step\<^sup>*\<^sup>* ?s1 (?s1\<lparr>gr_main := ClosingRouter\<rparr>)"
    using usage_closed [of ?s1] Nil by (simp add: Close_Reporter_def)
  also have "gateway_step\<^sup>*\<^sup>* (?s1\<lparr>gr_main := ClosingRouter\<rparr>) (?s1\<lparr>gr_main := GatewayExited 0\<rparr>)"
    using router_closed [of "?s1\<lparr>gr_main := ClosingRouter\<rparr>"] by simp
  finally show ?case by (intro exI conjI) (assumption, simp_all add: no_answer_def)
next
  case (Cons rec ch)
  let ?s1 = "s\<lparr>gr_reporter := drain_one (gr_reporter s)\<rparr>"
  have q: "rp_ch (gr_reporter s) = rec # ch" using Cons.hyps(2) by simp
  have one: "drain_one (gr_reporter s) = (gr_reporter s)\<lparr>rp_ch := ch, rp_sent := rp_sent (gr_reporter s) @ [send_request rec]\<rparr>"
    using Cons.prems by (simp add: drain_one_def q)
  have "gateway_step s ?s1" using drains [of s] Cons.prems by (simp add: q)
  moreover obtain t where "gateway_step\<^sup>*\<^sup>* ?s1 t" "gr_main t = GatewayExited 0" "no_answer ?s1 t"
    "gr_reporter t = Close_Reporter (gr_reporter ?s1)"
    using Cons.hyps(1) [of ?s1] Cons.prems by (auto simp: one)
  moreover from this have "gr_reporter t = Close_Reporter (gr_reporter s)"
    using Cons.prems by (simp add: one q Close_Reporter_def)
  ultimately show ?case
    by (intro exI [of _ t] conjI converse_rtranclp_into_rtranclp [of gateway_step s ?s1]) (simp_all add: no_answer_def)
qed

text \<open>The gateway does not wait for the answers it is giving. From any state in which it serves, whatever
  requests it is answering, it can exit with status 0 while none of them has got any further: \<^verbatim>\<open>Serve\<close>
  returns as soon as \<^verbatim>\<open>Shutdown\<close> is called, and the ten seconds that are meant for them run in a
  goroutine that ends with the process. Those requests are cut off and never reported. When \<^verbatim>\<open>Serve\<close>
  fails instead, \<^verbatim>\<open>os.Exit\<close> runs before the deferred \<^verbatim>\<open>u.Close\<close>, and the queued usage is lost as well.\<close>

theorem shutdown_cuts_answers_off:
  assumes "reachable (gateway_init True) gateway_step s" and "gr_main s = Serving"
  shows "(\<exists>t. gateway_step\<^sup>*\<^sup>* s t \<and> gr_main t = GatewayExited 0 \<and> no_answer s t \<and> gr_reported t = gr_reported s) \<and>
    (\<not> gr_signal s \<longrightarrow>
       (\<exists>t. gateway_step s t \<and> gr_main t = GatewayExited 1 \<and> gr_reporter t = gr_reporter s \<and> (\<forall>u. \<not> gateway_step t u)))"
proof (intro conjI impI)
  have inv: "gateway_inv True s" by (rule gateway.reachable_inv [OF assms(1)])
  then have r: "rp_draining (gr_reporter s)" "rp_hasClient (gr_reporter s)"
    using assms(2) reporter_ok_client [of True s] by (auto simp: gateway_inv_def phase_ok_def)
  obtain t where t: "gateway_step\<^sup>*\<^sup>* s t" "gr_main t = ClosingUsage" "no_answer s t" "gr_reporter t = gr_reporter s"
    using stop_serving [OF assms(2)] by blast
  then obtain u where "gateway_step\<^sup>*\<^sup>* t u" "gr_main u = GatewayExited 0" "no_answer t u"
    using close_gateway [of t] r by auto
  with t show "\<exists>t. gateway_step\<^sup>*\<^sup>* s t \<and> gr_main t = GatewayExited 0 \<and> no_answer s t \<and> gr_reported t = gr_reported s"
    by (intro exI [of _ u]) (auto simp: no_answer_def gr_reported_def)
  assume nosig: "\<not> gr_signal s"
  then have "hs_shutdown (gr_http s) = NotCalled" using inv by (auto simp: gateway_inv_def phase_ok_def)
  with nosig assms(2) have st: "gateway_step s (s\<lparr>gr_main := GatewayExited 1, gr_http := (gr_http s)\<lparr>hs_listening := False\<rparr>\<rparr>)"
    using serve_fails [of s] by simp
  show "\<exists>t. gateway_step s t \<and> gr_main t = GatewayExited 1 \<and> gr_reporter t = gr_reporter s \<and> (\<forall>u. \<not> gateway_step t u)"
    by (intro exI [of _ "s\<lparr>gr_main := GatewayExited 1, gr_http := (gr_http s)\<lparr>hs_listening := False\<rparr>\<rparr>"] conjI st)
      (auto elim: gateway_stepE)
qed

text \<open>A gateway with one answer reported and one being given.\<close>

definition demo_gateway :: gateway_run where
  "demo_gateway = \<lparr>gr_main = Serving, gr_signal = False,
     gr_http = \<lparr>hs_listening = True, hs_active = [Some (demo_usage_report ''r2'')], hs_shutdown = NotCalled\<rparr>,
     gr_reporter = Report (demo_usage_report ''r1'') (NewReporter True),
     gr_answered = [Some (demo_usage_report ''r1'')], gr_accepted = 2\<rparr>"

lemma demo_gateway_reachable: "reachable (gateway_init True) gateway_step demo_gateway"
proof -
  let ?a = "Some (demo_usage_report ''r1'')" and ?b = "Some (demo_usage_report ''r2'')"
  let ?s0 = "gateway_started True True"
  let ?s1 = "?s0\<lparr>gr_accepted := 1, gr_http := http_serving\<lparr>hs_active := [?a]\<rparr>\<rparr>"
  let ?s2 = "?s1\<lparr>gr_accepted := 2, gr_http := http_serving\<lparr>hs_active := [?a, ?b]\<rparr>\<rparr>"
  have "reachable (gateway_init True) gateway_step ?s0" by (rule reach_init) (auto simp: gateway_init_def)
  moreover have "gateway_step ?s0 ?s1"
    using requests [of ?s0 "HAccept ?a", OF _ accepts] by (simp add: gateway_started_def http_serving_def gateway_http_def)
  moreover have "gateway_step ?s1 ?s2"
    using requests [of ?s1 "HAccept ?b", OF _ accepts]
    by (simp add: gateway_started_def http_serving_def gateway_http_def numeral_2_eq_2)
  moreover have "gateway_step ?s2 demo_gateway"
    using requests [of ?s2 "HFinish ?a", OF _ finishes [of _ "[]" _ "[?b]"]]
    by (simp add: gateway_started_def http_serving_def gateway_http_def demo_gateway_def)
  ultimately show ?thesis by (blast intro: reach_step)
qed

theorem shutdown_cuts_answers_off_witness:
  "\<exists>t. gateway_step\<^sup>*\<^sup>* demo_gateway t \<and> gr_main t = GatewayExited 0 \<and>
     hs_active (gr_http t) = [Some (demo_usage_report ''r2'')] \<and> gr_reported t = [demo_usage_report ''r1'']"
proof -
  have "gr_main demo_gateway = Serving" "hs_active (gr_http demo_gateway) = [Some (demo_usage_report ''r2'')]"
    "gr_reported demo_gateway = [demo_usage_report ''r1'']"
    by (simp_all add: demo_gateway_def gr_reported_def List.map_filter_def)
  then show ?thesis using shutdown_cuts_answers_off [OF demo_gateway_reachable] by (auto simp: no_answer_def)
qed

theorem gateway_shutdown_accounts_witness:
  "\<exists>t. gateway_step\<^sup>*\<^sup>* demo_gateway t \<and> gr_main t = GatewayExited 0 \<and>
     prefix [send_request (demo_usage_report ''r1'')] (rp_sent (gr_reporter t))"
proof -
  have main: "gr_main demo_gateway = Serving" by (simp add: demo_gateway_def)
  have queue: "rp_sent (gr_reporter demo_gateway) = []" "rp_ch (gr_reporter demo_gateway) = [demo_usage_report ''r1'']"
    by (simp_all add: demo_gateway_def Report_def NewReporter_def queueSize_def)
  have reporter: "rp_draining (gr_reporter demo_gateway)" "rp_hasClient (gr_reporter demo_gateway)"
    by (simp_all add: demo_gateway_def)
  obtain u where u: "gateway_step\<^sup>*\<^sup>* demo_gateway u" "gr_main u = ClosingUsage" "gr_reporter u = gr_reporter demo_gateway"
    using stop_serving [OF main] by blast
  then obtain t where "gateway_step\<^sup>*\<^sup>* u t" "gr_main t = GatewayExited 0"
    using close_gateway [of u] reporter by auto
  with u(1) have "gateway_step\<^sup>*\<^sup>* demo_gateway t" "gr_main t = GatewayExited 0" by auto
  then show ?thesis
    using gateway_shutdown_accounts [OF demo_gateway_reachable] main queue by auto
qed

subsection \<open>The engine\<close>

text \<open>
  Where \<^verbatim>\<open>runEngine\<close> is once the model is loaded: at its \<^verbatim>\<open>select\<close>, waiting for \<^verbatim>\<open>Shutdown\<close>, in the deferred
  \<^verbatim>\<open>model.Close\<close>, or gone. \<^verbatim>\<open>Close\<close> waits for a generation that is running (see \<^verbatim>\<open>EngineConc\<close>); here it may
  return at any moment. \<^verbatim>\<open>Serve\<close> cannot end with \<^verbatim>\<open>ErrServerClosed\<close> at the \<^verbatim>\<open>select\<close>, since
  nobody else calls \<^verbatim>\<open>Shutdown\<close>.
\<close>

datatype engine_at = Selecting | AwaitShutdown | ClosingModel nat | EngineExited nat

record 'q engine_run =
  en_main :: engine_at
  en_signal :: bool
  en_http :: "'q http_server"
  en_answered :: "'q list"
  en_accepted :: nat

definition engine_serving :: "'q engine_run" where
  "engine_serving = \<lparr>en_main = Selecting, en_signal = False, en_http = http_serving, en_answered = [], en_accepted = 0\<rparr>"

definition engine_http :: "'q http_event \<Rightarrow> 'q engine_run \<Rightarrow> 'q engine_run" where
  "engine_http ev s =
     (case ev of
        HAccept q \<Rightarrow> s\<lparr>en_accepted := en_accepted s + 1\<rparr>
      | HFinish q \<Rightarrow> s\<lparr>en_answered := en_answered s @ [q]\<rparr>
      | HReturn \<Rightarrow> s)"

inductive engine_step :: "'q engine_run \<Rightarrow> 'q engine_run \<Rightarrow> bool" where
  en_requests: "\<nexists>n. en_main s = EngineExited n \<Longrightarrow> http_step (en_http s) ev h \<Longrightarrow>
    engine_step s ((engine_http ev s)\<lparr>en_http := h\<rparr>)"
| en_signalled: "\<nexists>n. en_main s = EngineExited n \<Longrightarrow> \<not> en_signal s \<Longrightarrow> engine_step s (s\<lparr>en_signal := True\<rparr>)"
| en_stops: "en_main s = Selecting \<Longrightarrow> en_signal s \<Longrightarrow>
    engine_step s (s\<lparr>en_main := AwaitShutdown, en_http := call_Shutdown (en_http s)\<rparr>)"
| en_serve_fails: "en_main s = Selecting \<Longrightarrow>
    engine_step s (s\<lparr>en_main := ClosingModel 1, en_http := (en_http s)\<lparr>hs_listening := False\<rparr>\<rparr>)"
| en_shut_down: "en_main s = AwaitShutdown \<Longrightarrow> hs_shutdown (en_http s) = ShutdownReturned ok \<Longrightarrow>
    engine_step s (s\<lparr>en_main := ClosingModel (if ok then 0 else 1)\<rparr>)"
| en_closed: "en_main s = ClosingModel n \<Longrightarrow> engine_step s (s\<lparr>en_main := EngineExited n\<rparr>)"

definition engine_inv :: "'q engine_run \<Rightarrow> bool" where
  "engine_inv s \<longleftrightarrow>
     en_accepted s = length (en_answered s) + length (hs_active (en_http s)) \<and>
     (en_main s = Selecting \<longrightarrow> hs_shutdown (en_http s) = NotCalled) \<and>
     (en_main s = AwaitShutdown \<longrightarrow> hs_shutdown (en_http s) \<noteq> NotCalled) \<and>
     (hs_shutdown (en_http s) \<noteq> NotCalled \<longrightarrow> en_signal s \<and> \<not> hs_listening (en_http s)) \<and>
     (en_main s \<noteq> Selecting \<longrightarrow> \<not> hs_listening (en_http s)) \<and>
     (hs_shutdown (en_http s) = ShutdownReturned True \<longrightarrow> hs_active (en_http s) = []) \<and>
     (en_main s \<in> {ClosingModel 0, EngineExited 0} \<longrightarrow> hs_shutdown (en_http s) = ShutdownReturned True)"

lemma engine_inv_step:
  assumes "engine_inv s" and "engine_step s t"
  shows "engine_inv t"
  using assms(2)
proof (cases rule: engine_step.cases)
  case (en_requests ev h)
  from en_requests(3) show ?thesis
    by (cases rule: http_step.cases) (use en_requests(1,2) assms(1) in \<open>auto simp: engine_inv_def engine_http_def\<close>)
qed (use assms(1) in \<open>auto simp: engine_inv_def call_Shutdown_def\<close>)

interpretation engine: inductive_invariant "\<lambda>s. s = engine_serving" engine_step engine_inv
  by unfold_locales (simp add: engine_inv_def engine_serving_def http_serving_def, erule (1) engine_inv_step)

definition engine_left :: "'q engine_run \<Rightarrow> nat" where
  "engine_left s =
     (case en_main s of Selecting \<Rightarrow> 5 | AwaitShutdown \<Rightarrow> 3 | ClosingModel n \<Rightarrow> 2 | EngineExited n \<Rightarrow> 0) +
     (if hs_shutdown (en_http s) = Waiting then 1 else 0) + length (hs_active (en_http s)) + (if en_signal s then 0 else 1)"

definition engine_stopping :: "'q engine_run \<Rightarrow> bool" where
  "engine_stopping s \<longleftrightarrow> engine_inv s \<and> en_main s \<noteq> Selecting"

lemma engine_shrinks:
  assumes "engine_stopping s" and "engine_step s t"
  shows "engine_left t < engine_left s"
  using assms(2)
proof (cases rule: engine_step.cases)
  case (en_requests ev h)
  from en_requests(3) show ?thesis
    by (cases rule: http_step.cases)
      (use en_requests(1,2) assms(1) in \<open>auto simp: engine_stopping_def engine_inv_def engine_left_def engine_http_def\<close>)
qed (use assms(1) in \<open>auto simp: engine_stopping_def engine_left_def\<close>)

lemma engine_stopping_step: "engine_stopping s \<Longrightarrow> engine_step s t \<Longrightarrow> engine_stopping t"
  using engine_inv_step [of s t]
  by (auto simp: engine_stopping_def engine_http_def elim!: engine_step.cases split: http_event.splits)

lemma engine_advances:
  assumes "engine_stopping s" and "\<nexists>n. en_main s = EngineExited n"
  shows "\<exists>t. engine_step s t"
proof (cases "en_main s")
  case AwaitShutdown
  then show ?thesis
    using assms en_shut_down [of s] en_requests [OF _ deadline, of s] by (cases "hs_shutdown (en_http s)")
      (auto simp: engine_stopping_def engine_inv_def)
next
  case (ClosingModel n)
  then show ?thesis by (blast intro: en_closed)
qed (use assms in \<open>auto simp: engine_stopping_def\<close>)

interpretation engine_stop: ending_system engine_stopping engine_step engine_stopping
    "\<lambda>s. \<exists>n. en_main s = EngineExited n" engine_left
  by unfold_locales (auto intro: engine_stopping_step engine_shrinks engine_advances)

text \<open>The engine waits for its answers, as the gateway does not. When it exits with status 0, it was told to
  stop and every request it ever accepted has been answered. Once it has left its \<^verbatim>\<open>select\<close>, every schedule
  is bounded and ends with the process gone.\<close>

theorem engine_waits_for_answers:
  assumes "reachable (\<lambda>s. s = engine_serving) engine_step s"
  shows "(en_main s = EngineExited 0 \<longrightarrow> en_signal s \<and> hs_active (en_http s) = [] \<and> en_accepted s = length (en_answered s)) \<and>
    (en_main s \<noteq> Selecting \<longrightarrow>
       (\<forall>n t. (engine_step ^^ n) s t \<longrightarrow> n \<le> engine_left s) \<and>
       (\<forall>t. engine_step\<^sup>*\<^sup>* s t \<and> (\<forall>u. \<not> engine_step t u) \<longrightarrow> (\<exists>n. en_main t = EngineExited n)))"
proof (intro conjI impI allI)
  have inv: "engine_inv s" by (rule engine.reachable_inv [OF assms])
  show "en_signal s" "hs_active (en_http s) = []" "en_accepted s = length (en_answered s)" if "en_main s = EngineExited 0"
    using inv that by (simp_all add: engine_inv_def)
  assume "en_main s \<noteq> Selecting"
  with inv have st: "engine_stopping s" by (simp add: engine_stopping_def)
  show "n \<le> engine_left s" if "(engine_step ^^ n) s t" for n t
    using engine_stop.run_bounded [OF st that] by simp
  show "\<exists>n. en_main t = EngineExited n" if "engine_step\<^sup>*\<^sup>* s t \<and> (\<forall>u. \<not> engine_step t u)" for t
    using engine_stop.stuck_final [OF st, of t] that by blast
qed

theorem engine_waits_for_answers_witness:
  "\<forall>n t. (engine_step ^^ n) (engine_serving\<lparr>en_signal := True, en_main := AwaitShutdown,
     en_http := call_Shutdown http_serving\<rparr>) (t :: nat engine_run) \<longrightarrow> n \<le> 4"
proof -
  let ?start = "engine_serving :: nat engine_run"
  let ?s = "?start\<lparr>en_signal := True, en_main := AwaitShutdown, en_http := call_Shutdown http_serving\<rparr>"
  let ?s1 = "?start\<lparr>en_signal := True\<rparr>"
  have main: "en_main ?start = Selecting" "\<not> en_signal ?start" "en_http ?start = http_serving" by (simp_all add: engine_serving_def)
  have "engine_step ?start ?s1" by (rule en_signalled) (simp_all add: main)
  moreover have "engine_step ?s1 ?s" using en_stops [of ?s1] by (simp add: main)
  ultimately have "reachable (\<lambda>s. s = engine_serving) engine_step ?s" by (blast intro: reach_init reach_step)
  moreover have "engine_left ?s = 4" by (simp add: engine_left_def call_Shutdown_def http_serving_def engine_serving_def)
  ultimately show ?thesis using engine_waits_for_answers [of ?s] by auto
qed

end
