(* ===== verification/RunnerConc.thy ===== *)
theory RunnerConc
  imports AgentRunner
begin

text \<open>
  A job goroutine by goroutine (\<^verbatim>\<open>agent/internal/runner/docker.go\<close>): \<^verbatim>\<open>run\<close>, the goroutine that copies the
  container's log stream, the flusher of the coalescer, and the consumer of the update channel. Here the
  channel is bounded, the buffer of the coalescer is shared, and \<^verbatim>\<open>run\<close> waits for the two others before
  it sends the terminal update and closes the channel. The sequential \<open>docker_run\<close> is what every schedule
  comes to.
\<close>

subsection \<open>What \<^verbatim>\<open>run\<close> sends by itself\<close>

definition updateBufferSize :: nat where
  "updateBufferSize = 16"

text \<open>The updates up to the start of the container, and whether it has started.\<close>

definition job_prologue :: "docker_env \<Rightarrow> RunnerUpdate list \<times> bool" where
  "job_prologue e =
     (let pending = job_update JOB_STATE_PENDING;
          (statuses, pulled) = pull (dk_pull e);
          us = pending # map (\<lambda>s. pending\<lparr>ru_LogChunk := s\<rparr>) statuses
      in if \<not> pulled then (us @ [terminalForCtx (dk_ctx e) ''pull''], False)
         else case dk_create e of
                None \<Rightarrow> (us @ [terminalForCtx (dk_ctx e) ''create container''], False)
              | Some cid \<Rightarrow>
                  if \<not> dk_start e then (us @ [terminalForCtx (dk_ctx e) ''start container''], False)
                  else (us @ [job_update JOB_STATE_RUNNING], True))"

text \<open>The terminal update after the wait.\<close>

definition job_outcome :: "docker_env \<Rightarrow> RunnerUpdate" where
  "job_outcome e =
     (case dk_wait e of
        WaitCtxDone \<Rightarrow> terminalForCtx (dk_ctx e) ''context done''
      | WaitError \<Rightarrow> terminalForCtx (dk_ctx e) ''wait for container''
      | WaitExited err status \<Rightarrow> exit_update err status)"

text \<open>
  The pieces that \<^verbatim>\<open>stdcopy.StdCopy\<close> writes, both streams to the same writer, until the container exits or
  the context dies; none when the logs cannot be attached, which is only logged.
\<close>

definition streamLogs :: "string list option \<Rightarrow> string list" where
  "streamLogs rc = (case rc of None \<Rightarrow> [] | Some pieces \<Rightarrow> pieces)"

subsection \<open>The goroutines\<close>

text \<open>
  Where \<^verbatim>\<open>run\<close> is: sending updates, at the \<^verbatim>\<open>select\<close> on the container, waiting for \<^verbatim>\<open>logsDone\<close>, waiting for
  the flusher after \<^verbatim>\<open>close(c.done)\<close>, sending the last update, in the deferred calls, returned.
\<close>

datatype run_at =
    Sending "RunnerUpdate list"
  | AtWait
  | AwaitLogs
  | AwaitFlusher
  | SendingLast
  | Deferred
  | RunReturned

datatype copier_at = NoCopier | Copying "string list" | CopyDone

text \<open>The flusher at its \<^verbatim>\<open>select\<close>, or with a chunk in its hand; the flag says that it was the last flush.\<close>

datatype flusher_at = NoFlusher | FlusherIdle | Emitting string bool | FlusherDone

text \<open>
  \<open>jr_events\<close> is the history of the coalescer: what was written and when a tick took the buffer.
  \<open>jr_panicked\<close> would be set by a send on the closed channel.
\<close>

record job_run =
  jr_main :: run_at
  jr_copier :: copier_at
  jr_flusher :: flusher_at
  jr_buf :: string
  jr_stop :: bool
  jr_chan :: "RunnerUpdate list"
  jr_closed :: bool
  jr_panicked :: bool
  jr_received :: "RunnerUpdate list"
  jr_events :: "log_event list"

definition job_started :: "docker_env \<Rightarrow> job_run" where
  "job_started e = \<lparr>jr_main = Sending (fst (job_prologue e)), jr_copier = NoCopier, jr_flusher = NoFlusher,
     jr_buf = [], jr_stop = False, jr_chan = [], jr_closed = False, jr_panicked = False, jr_received = [],
     jr_events = []\<rparr>"

text \<open>\<^verbatim>\<open>updates <- u\<close>, when there is room.\<close>

definition chan_send :: "RunnerUpdate \<Rightarrow> job_run \<Rightarrow> job_run" where
  "chan_send u s = (if jr_closed s then s\<lparr>jr_panicked := True\<rparr> else s\<lparr>jr_chan := jr_chan s @ [u]\<rparr>)"

abbreviation log_update :: "string \<Rightarrow> RunnerUpdate" where
  "log_update chunk \<equiv> (job_update JOB_STATE_RUNNING)\<lparr>ru_LogChunk := chunk\<rparr>"

text \<open>The state of the flusher after a flush of \<open>buf\<close>; nothing is emitted for an empty buffer.\<close>

definition after_flush :: "string \<Rightarrow> bool \<Rightarrow> flusher_at" where
  "after_flush buf final = (if buf \<noteq> [] then Emitting buf final else if final then FlusherDone else FlusherIdle)"

text \<open>A tick that finds the buffer empty changes nothing and is not a step.\<close>

inductive job_step :: "docker_env \<Rightarrow> string list option \<Rightarrow> job_run \<Rightarrow> job_run \<Rightarrow> bool" for e rc where
  run_sends: "jr_main s = Sending (u # us) \<Longrightarrow> length (jr_chan s) < updateBufferSize \<Longrightarrow>
    job_step e rc s ((chan_send u s)\<lparr>jr_main := Sending us\<rparr>)"
| run_gives_up: "jr_main s = Sending [] \<Longrightarrow> \<not> snd (job_prologue e) \<Longrightarrow> job_step e rc s (s\<lparr>jr_main := Deferred\<rparr>)"
| run_starts_logs: "jr_main s = Sending [] \<Longrightarrow> snd (job_prologue e) \<Longrightarrow>
    job_step e rc s (s\<lparr>jr_main := AtWait, jr_flusher := FlusherIdle, jr_copier := Copying (streamLogs rc)\<rparr>)"
| run_waited: "jr_main s = AtWait \<Longrightarrow> job_step e rc s (s\<lparr>jr_main := AwaitLogs\<rparr>)"
| run_stops_logs: "jr_main s = AwaitLogs \<Longrightarrow> jr_copier s = CopyDone \<Longrightarrow>
    job_step e rc s (s\<lparr>jr_main := AwaitFlusher, jr_stop := True\<rparr>)"
| run_joined: "jr_main s = AwaitFlusher \<Longrightarrow> jr_flusher s = FlusherDone \<Longrightarrow>
    job_step e rc s (s\<lparr>jr_main := SendingLast\<rparr>)"
| run_sends_last: "jr_main s = SendingLast \<Longrightarrow> length (jr_chan s) < updateBufferSize \<Longrightarrow>
    job_step e rc s ((chan_send (job_outcome e) s)\<lparr>jr_main := Deferred\<rparr>)"
| run_returns: "jr_main s = Deferred \<Longrightarrow> job_step e rc s (s\<lparr>jr_main := RunReturned, jr_closed := True\<rparr>)"
| copies: "jr_copier s = Copying (p # ps) \<Longrightarrow>
    job_step e rc s (s\<lparr>jr_copier := Copying ps, jr_buf := jr_buf s @ p, jr_events := jr_events s @ [LogWrite p]\<rparr>)"
| copied: "jr_copier s = Copying [] \<Longrightarrow> job_step e rc s (s\<lparr>jr_copier := CopyDone\<rparr>)"
| ticks: "jr_flusher s = FlusherIdle \<Longrightarrow> jr_buf s \<noteq> [] \<Longrightarrow>
    job_step e rc s (s\<lparr>jr_flusher := after_flush (jr_buf s) False, jr_buf := [], jr_events := jr_events s @ [LogTick]\<rparr>)"
| stops: "jr_flusher s = FlusherIdle \<Longrightarrow> jr_stop s \<Longrightarrow>
    job_step e rc s (s\<lparr>jr_flusher := after_flush (jr_buf s) True, jr_buf := []\<rparr>)"
| emits_chunk: "jr_flusher s = Emitting chunk final \<Longrightarrow> length (jr_chan s) < updateBufferSize \<Longrightarrow>
    job_step e rc s ((chan_send (log_update chunk) s)\<lparr>jr_flusher := (if final then FlusherDone else FlusherIdle)\<rparr>)"
| consumes: "jr_chan s = u # us \<Longrightarrow> job_step e rc s (s\<lparr>jr_chan := us, jr_received := jr_received s @ [u]\<rparr>)"

text \<open>Everything that was put into the channel.\<close>

definition jr_sent :: "job_run \<Rightarrow> RunnerUpdate list" where
  "jr_sent s = jr_received s @ jr_chan s"

subsection \<open>The sequential run in these terms\<close>

lemma docker_run_parts:
  "fst (docker_run spec e) =
     (let (us, started) = job_prologue e
      in if started then us @ map log_update (coalesce [] (dk_logs e)) @ [job_outcome e] else us)"
  by (auto simp: docker_run_def job_prologue_def job_outcome_def split_beta split: option.split)

lemma job_prologue_logs [simp]: "job_prologue (e\<lparr>dk_logs := evs\<rparr>) = job_prologue e" "job_outcome (e\<lparr>dk_logs := evs\<rparr>) = job_outcome e"
  by (simp_all add: job_prologue_def job_outcome_def split_beta split: option.split wait_result.split)

text \<open>The chunks a history has given so far, and what is left in the buffer.\<close>

fun chunks_of :: "string \<Rightarrow> log_event list \<Rightarrow> string list \<times> string" where
  "chunks_of buf [] = ([], buf)"
| "chunks_of buf (LogWrite s # evs) = chunks_of (buf @ s) evs"
| "chunks_of buf (LogTick # evs) = (let (cs, b) = chunks_of [] evs in (flush buf @ cs, b))"

lemma coalesce_chunks: "coalesce buf evs = (let (cs, b) = chunks_of buf evs in cs @ flush b)"
  by (induction buf evs rule: chunks_of.induct) (auto simp: split_beta)

lemma chunks_of_append:
  "chunks_of buf (evs @ evs') = (let (cs, b) = chunks_of buf evs; (cs', b') = chunks_of b evs' in (cs @ cs', b'))"
  by (induction buf evs rule: chunks_of.induct) (auto simp: split_beta)

lemma written_append: "written (evs @ evs') = written evs @ written evs'"
  by (induction evs rule: written.induct) simp_all

subsection \<open>The invariant\<close>

definition hand :: "job_run \<Rightarrow> string list" where
  "hand s = (case jr_flusher s of Emitting chunk final \<Rightarrow> [chunk] | _ \<Rightarrow> [])"

text \<open>The flusher has taken the buffer for the last time.\<close>

definition settled :: "job_run \<Rightarrow> bool" where
  "settled s \<longleftrightarrow> jr_flusher s = FlusherDone \<or> (\<exists>chunk. jr_flusher s = Emitting chunk True)"

definition quiet :: "job_run \<Rightarrow> bool" where
  "quiet s \<longleftrightarrow> jr_copier s = NoCopier \<and> jr_flusher s = NoFlusher \<and> \<not> jr_stop s"

definition copier_ok :: "string list option \<Rightarrow> job_run \<Rightarrow> bool" where
  "copier_ok rc s \<longleftrightarrow>
     (case jr_copier s of
        NoCopier \<Rightarrow> False
      | Copying ps \<Rightarrow> \<not> jr_stop s \<and> written (jr_events s) @ concat ps = concat (streamLogs rc)
      | CopyDone \<Rightarrow> written (jr_events s) = concat (streamLogs rc))"

text \<open>While the flusher is at work, its chunks and the buffer are those of the history.\<close>

definition flusher_ok :: "docker_env \<Rightarrow> job_run \<Rightarrow> bool" where
  "flusher_ok e s \<longleftrightarrow> jr_flusher s \<noteq> NoFlusher \<and> (settled s \<longrightarrow> jr_stop s) \<and>
     jr_buf s = (if settled s then [] else snd (chunks_of [] (jr_events s))) \<and>
     jr_sent s @ map log_update (hand s) = fst (job_prologue e) @
       map log_update (if settled s then coalesce [] (jr_events s) else fst (chunks_of [] (jr_events s)))"

definition logging :: "docker_env \<Rightarrow> string list option \<Rightarrow> job_run \<Rightarrow> bool" where
  "logging e rc s \<longleftrightarrow> snd (job_prologue e) \<and> copier_ok rc s \<and> flusher_ok e s"

definition finished :: "docker_env \<Rightarrow> string list option \<Rightarrow> job_run \<Rightarrow> bool" where
  "finished e rc s \<longleftrightarrow>
     (if snd (job_prologue e)
      then jr_copier s = CopyDone \<and> jr_flusher s = FlusherDone \<and> written (jr_events s) = concat (streamLogs rc) \<and>
        jr_sent s = fst (job_prologue e) @ map log_update (coalesce [] (jr_events s)) @ [job_outcome e]
      else quiet s \<and> jr_sent s = fst (job_prologue e))"

definition job_inv :: "docker_env \<Rightarrow> string list option \<Rightarrow> job_run \<Rightarrow> bool" where
  "job_inv e rc s \<longleftrightarrow> \<not> jr_panicked s \<and> length (jr_chan s) \<le> updateBufferSize \<and>
     (jr_closed s \<longleftrightarrow> jr_main s = RunReturned) \<and>
     (case jr_main s of
        Sending us \<Rightarrow> quiet s \<and> jr_buf s = [] \<and> jr_events s = [] \<and> jr_sent s @ us = fst (job_prologue e)
      | AtWait \<Rightarrow> logging e rc s \<and> \<not> jr_stop s
      | AwaitLogs \<Rightarrow> logging e rc s \<and> \<not> jr_stop s
      | AwaitFlusher \<Rightarrow> logging e rc s \<and> jr_stop s
      | SendingLast \<Rightarrow> logging e rc s \<and> jr_stop s \<and> jr_flusher s = FlusherDone
      | Deferred \<Rightarrow> finished e rc s
      | RunReturned \<Rightarrow> finished e rc s)"

lemma chan_send_simps [simp]:
  "jr_main (chan_send u s) = jr_main s" "jr_copier (chan_send u s) = jr_copier s"
  "jr_flusher (chan_send u s) = jr_flusher s" "jr_buf (chan_send u s) = jr_buf s" "jr_stop (chan_send u s) = jr_stop s"
  "jr_closed (chan_send u s) = jr_closed s" "jr_received (chan_send u s) = jr_received s"
  "jr_events (chan_send u s) = jr_events s"
  "\<not> jr_closed s \<Longrightarrow> jr_panicked (chan_send u s) = jr_panicked s"
  "\<not> jr_closed s \<Longrightarrow> jr_chan (chan_send u s) = jr_chan s @ [u]"
  by (simp_all add: chan_send_def)

lemmas job_defs = hand_def settled_def quiet_def copier_ok_def flusher_ok_def logging_def finished_def jr_sent_def

lemma sent_cong:
  assumes "jr_sent t = jr_sent s" and "jr_copier t = jr_copier s" and "jr_flusher t = jr_flusher s" and "jr_buf t = jr_buf s"
    and "jr_stop t = jr_stop s" and "jr_events t = jr_events s"
  shows "logging e rc t = logging e rc s" and "finished e rc t = finished e rc s" and "quiet t = quiet s"
proof -
  have "copier_ok rc t = copier_ok rc s" using assms by (cases "jr_copier s") (simp_all add: copier_ok_def)
  then show "logging e rc t = logging e rc s" using assms by (simp add: logging_def flusher_ok_def hand_def settled_def)
  show "finished e rc t = finished e rc s" "quiet t = quiet s" using assms by (simp_all add: finished_def quiet_def)
qed

text \<open>The coalescer's goroutines work while \<^verbatim>\<open>run\<close> is between the start of the logs and its last update.\<close>

lemma logging_phase:
  assumes "job_inv e rc s" and "jr_copier s = Copying ps \<or> jr_flusher s = FlusherIdle \<or> jr_flusher s = Emitting c f"
  shows "jr_main s \<in> {AtWait, AwaitLogs, AwaitFlusher} \<and> logging e rc s \<and> \<not> jr_closed s \<and>
    (jr_stop s \<longleftrightarrow> jr_main s = AwaitFlusher)"
  using assms by (auto simp: job_inv_def quiet_def finished_def logging_def copier_ok_def split: run_at.splits if_splits)

text \<open>A step of those goroutines that keeps \<open>logging\<close> keeps the invariant.\<close>

lemma job_inv_logging:
  assumes "job_inv e rc s" and "jr_main s \<in> {AtWait, AwaitLogs, AwaitFlusher}" and "logging e rc t"
    and "jr_main t = jr_main s" and "jr_stop t = jr_stop s" and "jr_closed t = jr_closed s"
    and "jr_panicked t = jr_panicked s" and "length (jr_chan t) \<le> updateBufferSize"
  shows "job_inv e rc t"
  using assms by (auto simp: job_inv_def)

lemma copies_inv:
  assumes "job_inv e rc s" and "jr_copier s = Copying (p # ps)"
  shows "job_inv e rc (s\<lparr>jr_copier := Copying ps, jr_buf := jr_buf s @ p, jr_events := jr_events s @ [LogWrite p]\<rparr>)"
    (is "job_inv e rc ?t")
proof -
  note ph = logging_phase [OF assms(1) disjI1, OF assms(2)]
  have "\<not> jr_stop s" "\<not> settled s"
    using ph assms(2) by (auto simp: logging_def copier_ok_def flusher_ok_def)
  then have "logging e rc ?t"
    using ph assms(2)
    by (auto simp: logging_def copier_ok_def flusher_ok_def written_append chunks_of_append split_beta
        jr_sent_def hand_def settled_def)
  then show ?thesis using ph assms(1) by (intro job_inv_logging [OF assms(1)]) (auto simp: job_inv_def)
qed

lemma ticks_inv:
  assumes "job_inv e rc s" and "jr_flusher s = FlusherIdle" and "jr_buf s \<noteq> []"
  shows "job_inv e rc (s\<lparr>jr_flusher := after_flush (jr_buf s) False, jr_buf := [], jr_events := jr_events s @ [LogTick]\<rparr>)"
    (is "job_inv e rc ?t")
proof -
  note ph = logging_phase [OF assms(1) disjI2, OF disjI1, OF assms(2)]
  have "logging e rc ?t"
    using ph assms(2,3)
    by (auto simp: logging_def copier_ok_def flusher_ok_def written_append chunks_of_append split_beta
        jr_sent_def hand_def settled_def after_flush_def flush_def split: copier_at.splits)
  then show ?thesis using ph assms(1) by (intro job_inv_logging [OF assms(1)]) (auto simp: job_inv_def)
qed

lemma stops_inv:
  assumes "job_inv e rc s" and "jr_flusher s = FlusherIdle" and "jr_stop s"
  shows "job_inv e rc (s\<lparr>jr_flusher := after_flush (jr_buf s) True, jr_buf := []\<rparr>)" (is "job_inv e rc ?t")
proof -
  note ph = logging_phase [OF assms(1) disjI2, OF disjI1, OF assms(2)]
  have "logging e rc ?t"
    using ph assms(2,3)
    by (auto simp: logging_def copier_ok_def flusher_ok_def coalesce_chunks split_beta
        jr_sent_def hand_def settled_def after_flush_def flush_def split: copier_at.splits)
  then show ?thesis using ph assms(1) by (intro job_inv_logging [OF assms(1)]) (auto simp: job_inv_def)
qed

lemma emits_inv:
  assumes "job_inv e rc s" and "jr_flusher s = Emitting chunk final" and "length (jr_chan s) < updateBufferSize"
  shows "job_inv e rc ((chan_send (log_update chunk) s)\<lparr>jr_flusher := (if final then FlusherDone else FlusherIdle)\<rparr>)"
    (is "job_inv e rc ?t")
proof -
  note ph = logging_phase [OF assms(1) disjI2, OF disjI2, OF assms(2)]
  have "logging e rc ?t"
    using ph assms(2)
    by (auto simp: logging_def copier_ok_def flusher_ok_def jr_sent_def hand_def settled_def split: copier_at.splits)
  then show ?thesis using ph assms(1,3) by (intro job_inv_logging [OF assms(1)]) (auto simp: job_inv_def)
qed

lemma job_inv_step:
  assumes "job_inv e rc s" and "job_step e rc s t"
  shows "job_inv e rc t"
  using assms(2)
proof (cases rule: job_step.cases)
  case (copies p ps)
  then show ?thesis using copies_inv [OF assms(1)] by simp
next
  case copied
  then show ?thesis
    using logging_phase [OF assms(1), of "[]"]
    by (intro job_inv_logging [OF assms(1)]) (use assms(1) in \<open>auto simp: job_inv_def job_defs\<close>)
next
  case ticks
  then show ?thesis using ticks_inv [OF assms(1)] by simp
next
  case stops
  then show ?thesis using stops_inv [OF assms(1)] by simp
next
  case (emits_chunk chunk final)
  then show ?thesis using emits_inv [OF assms(1)] by simp
next
  case (consumes u us)
  then have "jr_sent t = jr_sent s" by (simp add: jr_sent_def)
  then have "logging e rc t = logging e rc s" "finished e rc t = finished e rc s" "quiet t = quiet s"
    using consumes(1) sent_cong [of t s] by simp_all
  with \<open>jr_sent t = jr_sent s\<close> show ?thesis
    using assms(1) consumes by (cases "jr_main s") (auto simp: job_inv_def)
qed (use assms(1) in \<open>auto simp: job_inv_def job_defs split: copier_at.splits\<close>)

lemma job_inv_init: "job_inv e rc (job_started e)"
  by (simp add: job_inv_def job_started_def quiet_def jr_sent_def)

interpretation job: inductive_invariant "\<lambda>s. s = job_started e" "job_step e rc" "job_inv e rc" for e rc
  by unfold_locales (simp add: job_inv_init, erule (1) job_inv_step)

subsection \<open>Every schedule ends\<close>

definition run_left :: "string list option \<Rightarrow> run_at \<Rightarrow> nat" where
  "run_left rc pc =
     (case pc of
        Sending us \<Rightarrow> 2 * length us + 5 * length (streamLogs rc) + 15
      | AtWait \<Rightarrow> 12 | AwaitLogs \<Rightarrow> 11 | AwaitFlusher \<Rightarrow> 10 | SendingLast \<Rightarrow> 4 | Deferred \<Rightarrow> 1 | RunReturned \<Rightarrow> 0)"

definition job_left :: "string list option \<Rightarrow> job_run \<Rightarrow> nat" where
  "job_left rc s = run_left rc (jr_main s) +
     (case jr_copier s of Copying ps \<Rightarrow> 5 * length ps + 1 | _ \<Rightarrow> 0) +
     (case jr_flusher s of Emitting chunk final \<Rightarrow> 3 | FlusherIdle \<Rightarrow> 1 | _ \<Rightarrow> 0) +
     (if jr_buf s = [] then 0 else 4) + length (jr_chan s)"

lemma job_shrinks:
  assumes "job_inv e rc s" and "job_step e rc s t"
  shows "job_left rc t < job_left rc s"
proof -
  have closed: "jr_main s \<noteq> RunReturned \<Longrightarrow> \<not> jr_closed s" using assms(1) by (simp add: job_inv_def)
  have emitting: "jr_flusher s = Emitting c f \<Longrightarrow> \<not> jr_closed s" for c f
    using logging_phase [OF assms(1)] by blast
  from assms(2) show ?thesis
  proof (cases rule: job_step.cases)
    case run_starts_logs
    then show ?thesis using assms(1) by (simp add: job_left_def run_left_def job_inv_def quiet_def)
  next
    case (emits_chunk chunk final)
    then show ?thesis using emitting by (simp add: job_left_def)
  qed (use closed in \<open>auto simp: job_left_def run_left_def after_flush_def\<close>)
qed

lemma job_advances:
  assumes "job_inv e rc s" and "\<not> (jr_main s = RunReturned \<and> jr_chan s = [])"
  shows "\<exists>t. job_step e rc s t"
proof (cases "jr_chan s")
  case (Cons u us)
  then show ?thesis by (blast intro: consumes)
next
  case Nil
  then have room: "length (jr_chan s) < updateBufferSize" by (simp add: updateBufferSize_def)
  show ?thesis
  proof (cases "jr_main s")
    case (Sending us)
    then show ?thesis
      using room by (cases us; cases "snd (job_prologue e)")
        (auto intro: run_sends run_gives_up run_starts_logs)
  next
    case AwaitLogs
    then have "jr_copier s \<noteq> NoCopier" using assms(1) by (auto simp: job_inv_def logging_def copier_ok_def)
    then show ?thesis
    proof (cases "jr_copier s")
      case (Copying ps)
      then show ?thesis by (cases ps) (auto intro: copies copied)
    qed (use AwaitLogs in \<open>auto intro: run_stops_logs\<close>)
  next
    case AwaitFlusher
    then have "jr_flusher s \<noteq> NoFlusher" "jr_stop s" using assms(1) by (auto simp: job_inv_def logging_def flusher_ok_def)
    then show ?thesis
      using room AwaitFlusher by (cases "jr_flusher s") (auto intro: stops emits_chunk run_joined)
  next
    case SendingLast
    then show ?thesis using room by (blast intro: run_sends_last)
  qed (use assms(2) Nil in \<open>auto intro: run_waited run_returns\<close>)
qed

interpretation job_end: ending_system "job_inv e rc" "job_step e rc" "job_inv e rc"
    "\<lambda>s. jr_main s = RunReturned \<and> jr_chan s = []" "job_left rc" for e rc
  by unfold_locales (assumption, erule (1) job_inv_step, erule (1) job_advances, erule (1) job_shrinks)

text \<open>C21. However the goroutines of a job are scheduled, the job is the sequential one. No update is ever
  sent on the closed channel and the channel never holds more than 16 updates. Every schedule ends, after
  a number of steps that is known at the start, with \<^verbatim>\<open>run\<close> returned and the channel drained; the consumer
  has then received exactly the updates of \<open>docker_run\<close>, for some timing of the flusher's ticks, and the
  pieces written are those of the container's log stream, complete and in order.\<close>

theorem job_goroutines_refine_run:
  assumes "reachable (\<lambda>s. s = job_started e) (job_step e rc) s"
  shows "\<not> jr_panicked s \<and> length (jr_chan s) \<le> 16 \<and>
    (\<forall>n t. (job_step e rc ^^ n) s t \<longrightarrow> n \<le> job_left rc s) \<and>
    (\<forall>t. (job_step e rc)\<^sup>*\<^sup>* s t \<and> (\<forall>u. \<not> job_step e rc t u) \<longrightarrow> jr_main t = RunReturned \<and> jr_chan t = []) \<and>
    (jr_main s = RunReturned \<and> jr_chan s = [] \<longrightarrow>
       jr_received s = fst (docker_run spec (e\<lparr>dk_logs := jr_events s\<rparr>)) \<and>
       (snd (job_prologue e) \<longrightarrow> written (jr_events s) = concat (streamLogs rc)))"
proof -
  have inv: "job_inv e rc s" by (rule job.reachable_inv [OF assms])
  then have "\<not> jr_panicked s" "length (jr_chan s) \<le> 16" by (simp_all add: job_inv_def updateBufferSize_def)
  moreover have "n \<le> job_left rc s" if "(job_step e rc ^^ n) s t" for n t
    using job_end.run_bounded [OF inv that] by simp
  moreover have "jr_main t = RunReturned \<and> jr_chan t = []"
    if "(job_step e rc)\<^sup>*\<^sup>* s t \<and> (\<forall>u. \<not> job_step e rc t u)" for t
    using job_end.stuck_final [OF inv, of t] that by blast
  moreover have "jr_received s = fst (docker_run spec (e\<lparr>dk_logs := jr_events s\<rparr>)) \<and>
      (snd (job_prologue e) \<longrightarrow> written (jr_events s) = concat (streamLogs rc))"
    if "jr_main s = RunReturned \<and> jr_chan s = []"
  proof -
    have "finished e rc s" using inv that by (simp add: job_inv_def)
    then show ?thesis
      unfolding docker_run_parts using that by (auto simp: finished_def jr_sent_def split_beta)
  qed
  ultimately show ?thesis by blast
qed

text \<open>The steps that the demonstration job can take, from its start.\<close>

theorem job_goroutines_refine_run_witness:
  "\<exists>t. (job_step demo_docker (Some [''a'', ''b'']))\<^sup>*\<^sup>* (job_started demo_docker) t \<and> jr_main t = RunReturned \<and>
     jr_received t = fst (docker_run demo_jobspec (demo_docker\<lparr>dk_logs := jr_events t\<rparr>)) \<and> written (jr_events t) = ''ab''"
proof -
  let ?rc = "Some [''a'', ''b'']"
  have start: "reachable (\<lambda>s. s = job_started demo_docker) (job_step demo_docker ?rc) (job_started demo_docker)"
    by (rule reach_init) simp
  obtain t where t: "(job_step demo_docker ?rc)\<^sup>*\<^sup>* (job_started demo_docker) t" "jr_main t = RunReturned \<and> jr_chan t = []"
    using job_end.can_finish [OF job_inv_init] by blast
  have "snd (job_prologue demo_docker)" by (simp add: job_prologue_def demo_docker_def pull_def)
  moreover have "streamLogs ?rc = [''a'', ''b'']" by (simp add: streamLogs_def)
  ultimately show ?thesis
    using job_goroutines_refine_run [OF reachable_run [OF start t(1)]] t by auto
qed

end
