(* ===== verification/GwCapture.thy ===== *)
theory GwCapture
  imports GwProps
begin

text \<open>
  The goroutines behind one forwarded answer (\<^verbatim>\<open>capture.wrap\<close> and \<^verbatim>\<open>capture.wait\<close> of
  \<^verbatim>\<open>gateway/internal/proxy/proxy.go\<close>): the handler copies the replica's body to the client through an
  \<^verbatim>\<open>io.TeeReader\<close>, which passes every piece into an \<^verbatim>\<open>io.Pipe\<close> first; a parser goroutine reads the other end.
  A write to the pipe returns only when the parser has taken all of it. The sequential \<open>forward\<close>, which
  looks at the whole body at once, is what every schedule comes to in which the parser needs less than
  the five seconds of \<^verbatim>\<open>usageWait\<close> after the body has ended.
\<close>

subsection \<open>The two goroutines\<close>

text \<open>
  The handler: at a read of the body, in the pipe write of a piece, at the write to the client, closing the
  body, waiting for the parser, with the usage after the parser has ended or after \<^verbatim>\<open>usageWait\<close>, or unwound by
  the panic of the proxy.
\<close>

datatype handler_at =
    ReadBody
  | InPipe string
  | ToClient string
  | CloseBody bool
  | AwaitParser
  | Captured "tokenUsage option"
  | GaveUp "tokenUsage option"
  | Aborted

text \<open>
  \<open>cp_pieces\<close> is what the body will still give, \<open>cp_bodyOk\<close> whether it then ends properly; \<open>cp_pipe\<close> is what
  is in the pipe, \<open>cp_read\<close> what the parser has read, \<open>cp_done\<close> the channel that it closes.
\<close>

record capture_run =
  cp_at :: handler_at
  cp_pieces :: "string list"
  cp_pipe :: string
  cp_closed :: bool
  cp_read :: string
  cp_done :: bool
  cp_client :: string

definition wrap :: "string list \<Rightarrow> capture_run" where
  "wrap pieces = \<lparr>cp_at = ReadBody, cp_pieces = pieces, cp_pipe = [], cp_closed = False, cp_read = [],
     cp_done = False, cp_client = []\<rparr>"

text \<open>The usage that the parser may have set by the time it has looked at a part of what it read.\<close>

definition usage_so_far :: "request_env \<Rightarrow> string \<Rightarrow> tokenUsage option \<Rightarrow> bool" where
  "usage_so_far q seen u \<longleftrightarrow>
     (if rq_stream q then \<exists>n. u = scanSSE (rq_unmarshal q) (take n (scan_lines (2 ^ 20) seen)) None
      else u = None \<or> u = scanJSON (rq_decodeFirst q) seen)"

text \<open>
  The parser reads until the pipe is closed, first to parse and then to discard, and its result is
  that of all it read: after the first value, or after \<^verbatim>\<open>[DONE]\<close>, nothing changes it. A read may take any
  part of what is offered. A read of the body that returns nothing writes nothing to the pipe.
\<close>

inductive capture_step :: "request_env \<Rightarrow> bool \<Rightarrow> capture_run \<Rightarrow> capture_run \<Rightarrow> bool" for q bodyOk where
  reads_piece: "cp_at s = ReadBody \<Longrightarrow> cp_pieces s = p # ps \<Longrightarrow>
    capture_step q bodyOk s (s\<lparr>cp_at := (if p = [] then ReadBody else InPipe p), cp_pieces := ps, cp_pipe := p\<rparr>)"
| body_ends: "cp_at s = ReadBody \<Longrightarrow> cp_pieces s = [] \<Longrightarrow> capture_step q bodyOk s (s\<lparr>cp_at := CloseBody bodyOk\<rparr>)"
| pipe_taken: "cp_at s = InPipe p \<Longrightarrow> cp_pipe s = [] \<Longrightarrow> capture_step q bodyOk s (s\<lparr>cp_at := ToClient p\<rparr>)"
| client_takes: "cp_at s = ToClient p \<Longrightarrow>
    capture_step q bodyOk s (s\<lparr>cp_at := ReadBody, cp_client := cp_client s @ p\<rparr>)"
| client_gone: "cp_at s = ToClient p \<Longrightarrow> capture_step q bodyOk s (s\<lparr>cp_at := CloseBody False\<rparr>)"
| closes: "cp_at s = CloseBody ok \<Longrightarrow>
    capture_step q bodyOk s (s\<lparr>cp_at := (if ok then AwaitParser else Aborted), cp_closed := True\<rparr>)"
| parser_reads: "\<not> cp_done s \<Longrightarrow> cp_pipe s = d @ d' \<Longrightarrow> d \<noteq> [] \<Longrightarrow>
    capture_step q bodyOk s (s\<lparr>cp_pipe := d', cp_read := cp_read s @ d\<rparr>)"
| parser_ends: "\<not> cp_done s \<Longrightarrow> cp_closed s \<Longrightarrow> cp_pipe s = [] \<Longrightarrow> capture_step q bodyOk s (s\<lparr>cp_done := True\<rparr>)"
| waited: "cp_at s = AwaitParser \<Longrightarrow> cp_done s \<Longrightarrow>
    capture_step q bodyOk s
      (s\<lparr>cp_at := Captured (capture (rq_unmarshal q) (rq_decodeFirst q) (rq_stream q) (cp_read s))\<rparr>)"
| gives_up: "cp_at s = AwaitParser \<Longrightarrow> \<not> cp_done s \<Longrightarrow> usage_so_far q (cp_read s) u \<Longrightarrow>
    capture_step q bodyOk s (s\<lparr>cp_at := GaveUp u\<rparr>)"

inductive_cases capture_stepE: "capture_step q bodyOk s t"

subsection \<open>The invariant\<close>

text \<open>The piece that the handler has read and the client has not got.\<close>

definition in_hand :: "capture_run \<Rightarrow> string" where
  "in_hand s = (case cp_at s of InPipe p \<Rightarrow> p | ToClient p \<Rightarrow> p | _ \<Rightarrow> [])"

definition capture_inv :: "request_env \<Rightarrow> bool \<Rightarrow> string list \<Rightarrow> capture_run \<Rightarrow> bool" where
  "capture_inv q bodyOk pieces s \<longleftrightarrow>
     (cp_pipe s \<noteq> [] \<longrightarrow> (\<exists>p. cp_at s = InPipe p)) \<and>
     (cp_closed s \<longleftrightarrow> cp_at s \<in> {AwaitParser, Aborted} \<union> range Captured \<union> range GaveUp) \<and>
     (cp_done s \<longrightarrow> cp_closed s) \<and>
     (cp_at s \<notin> {CloseBody False, Aborted} \<longrightarrow>
        cp_client s @ in_hand s @ concat (cp_pieces s) = concat pieces \<and> cp_read s @ cp_pipe s = cp_client s @ in_hand s) \<and>
     (cp_at s \<in> {CloseBody True, AwaitParser} \<union> range Captured \<union> range GaveUp \<longrightarrow> cp_pieces s = [] \<and> bodyOk) \<and>
     (\<forall>u. cp_at s = Captured u \<longrightarrow> cp_done s \<and>
        u = capture (rq_unmarshal q) (rq_decodeFirst q) (rq_stream q) (concat pieces)) \<and>
     (\<forall>u. cp_at s = GaveUp u \<longrightarrow> usage_so_far q (concat pieces) u) \<and>
     prefix (cp_client s) (concat pieces)"

lemma capture_inv_init: "capture_inv q bodyOk pieces (wrap pieces)"
  by (auto simp: capture_inv_def wrap_def in_hand_def)

lemma capture_inv_step:
  assumes "capture_inv q bodyOk pieces s" and "capture_step q bodyOk s t"
  shows "capture_inv q bodyOk pieces t"
  using assms(2)
proof (cases rule: capture_step.cases)
  case (client_takes p)
  then have "(cp_client s @ p) @ concat (cp_pieces s) = concat pieces"
    using assms(1) by (simp add: capture_inv_def in_hand_def)
  then have "prefix (cp_client s @ p) (concat pieces)" by (metis prefixI)
  then show ?thesis using client_takes assms(1) by (auto simp: capture_inv_def in_hand_def)
qed (use assms(1) in \<open>auto simp: capture_inv_def in_hand_def\<close>)

interpretation captures: inductive_invariant "\<lambda>s. s = wrap pieces" "capture_step q bodyOk" "capture_inv q bodyOk pieces"
  for q bodyOk pieces
  by unfold_locales (simp add: capture_inv_init, erule (1) capture_inv_step)

subsection \<open>Every schedule ends\<close>

definition handler_left :: "handler_at \<Rightarrow> nat" where
  "handler_left pc =
     (case pc of ReadBody \<Rightarrow> 4 | InPipe p \<Rightarrow> 6 | ToClient p \<Rightarrow> 5 | CloseBody ok \<Rightarrow> 3 | AwaitParser \<Rightarrow> 2
      | Captured u \<Rightarrow> 0 | GaveUp u \<Rightarrow> 0 | Aborted \<Rightarrow> 0)"

definition capture_left :: "capture_run \<Rightarrow> nat" where
  "capture_left s = handler_left (cp_at s) + sum_list (map (\<lambda>p. length p + 4) (cp_pieces s)) + length (cp_pipe s) +
     (if cp_done s then 0 else 1)"

definition capture_over :: "capture_run \<Rightarrow> bool" where
  "capture_over s \<longleftrightarrow> cp_done s \<and> (cp_at s = Aborted \<or> (\<exists>u. cp_at s = Captured u \<or> cp_at s = GaveUp u))"

lemma capture_shrinks:
  assumes "capture_inv q bodyOk pieces s" and "capture_step q bodyOk s t"
  shows "capture_left t < capture_left s"
  using assms(2)
proof (cases rule: capture_step.cases)
  case (reads_piece p ps)
  then have "cp_pipe s = []" using assms(1) by (auto simp: capture_inv_def)
  then show ?thesis using reads_piece by (auto simp: capture_left_def handler_left_def)
next
  case (parser_reads d d')
  then show ?thesis by (simp add: capture_left_def)
qed (auto simp: capture_left_def handler_left_def)

lemma capture_advances:
  assumes "capture_inv q bodyOk pieces s" and "\<not> capture_over s"
  shows "\<exists>t. capture_step q bodyOk s t"
proof (cases "cp_pipe s = []")
  case False
  then have "\<not> cp_done s" using assms(1) by (auto simp: capture_inv_def)
  then show ?thesis using parser_reads [of s "cp_pipe s" "[]"] False by auto
next
  case True
  show ?thesis
  proof (cases "cp_at s")
    case ReadBody
    then show ?thesis by (cases "cp_pieces s") (auto intro: reads_piece body_ends)
  next
    case (InPipe p)
    then show ?thesis using True by (blast intro: pipe_taken)
  next
    case (ToClient p)
    then show ?thesis by (blast intro: client_takes)
  next
    case (CloseBody ok)
    then show ?thesis by (blast intro: closes)
  qed (use True assms in \<open>auto simp: capture_over_def capture_inv_def intro: parser_ends waited\<close>)
qed

interpretation capture_end: ending_system "capture_inv q bodyOk pieces" "capture_step q bodyOk" "capture_inv q bodyOk pieces"
    capture_over capture_left for q bodyOk pieces
  by unfold_locales (assumption, erule (1) capture_inv_step, erule (1) capture_advances, erule (1) capture_shrinks)

text \<open>C38. However the answer is cut into pieces and however handler and parser are scheduled, metering does
  not change what the client gets and does not miss what it pays for. The client's bytes are always a
  prefix of the replica's answer. Every schedule ends within a bound known at the start, with the handler
  finished and the parser gone, also when the client goes away. A handler that comes to its end has
  passed on the whole answer, and what it reports is what \<open>forward\<close> reports for the whole answer; if it gave up
  on the parser after five seconds, the usage is one that a beginning of the answer states, or none.\<close>

theorem capture_refines_forward:
  assumes "reachable (\<lambda>s. s = wrap pieces) (capture_step q bodyOk) s"
  shows "prefix (cp_client s) (concat pieces) \<and>
    (\<forall>n t. (capture_step q bodyOk ^^ n) s t \<longrightarrow> n \<le> capture_left s) \<and>
    (\<forall>t. (capture_step q bodyOk)\<^sup>*\<^sup>* s t \<and> (\<forall>u. \<not> capture_step q bodyOk t u) \<longrightarrow> capture_over t) \<and>
    (\<forall>u attempt replica. cp_at s = Captured u \<and> rq_exchange q attempt replica = Complete (concat pieces) \<longrightarrow>
       cp_client s = concat pieces \<and>
       forward q attempt replica = Forwarded
         (map_option (\<lambda>u. \<lparr>rc_RequestID = rq_requestID q, rc_Model = rq_model q,
             rc_NodeID = rep_node_id replica, rc_DeploymentID = rep_deployment_id replica,
             rc_APIKeyID = rq_keyID q, rc_PromptTokens = tu_PromptTokens u,
             rc_CompletionTokens = tu_CompletionTokens u, rc_TimestampUnixMs = rq_unixMs q attempt\<rparr>) u)) \<and>
    (\<forall>u. cp_at s = GaveUp u \<longrightarrow> cp_client s = concat pieces \<and> usage_so_far q (concat pieces) u)"
proof -
  have inv: "capture_inv q bodyOk pieces s" by (rule captures.reachable_inv [OF assms])
  have "cp_client s = concat pieces" "u = capture (rq_unmarshal q) (rq_decodeFirst q) (rq_stream q) (concat pieces)"
    if "cp_at s = Captured u" for u
    using inv that by (auto simp: capture_inv_def in_hand_def)
  moreover have "cp_client s = concat pieces \<and> usage_so_far q (concat pieces) u" if "cp_at s = GaveUp u" for u
    using inv that by (auto simp: capture_inv_def in_hand_def)
  moreover have "n \<le> capture_left s" if "(capture_step q bodyOk ^^ n) s t" for n t
    using capture_end.run_bounded [OF inv that] by simp
  moreover have "capture_over t" if "(capture_step q bodyOk)\<^sup>*\<^sup>* s t \<and> (\<forall>u. \<not> capture_step q bodyOk t u)" for t
    using capture_end.stuck_final [OF inv, of t] that by blast
  moreover have "prefix (cp_client s) (concat pieces)" using inv by (simp add: capture_inv_def)
  ultimately show ?thesis by (auto simp: forward_def)
qed

text \<open>An answer in two pieces, read by the parser in other pieces.\<close>

theorem capture_refines_forward_witness:
  "\<exists>s. (capture_step demo_request True)\<^sup>*\<^sup>* (wrap [''bo'', ''dy'']) s \<and> cp_client s = ''body'' \<and>
     cp_at s = Captured (Some \<lparr>tu_PromptTokens = 12, tu_CompletionTokens = 30\<rparr>)"
proof -
  let ?step = "capture_step demo_request True"
  let ?read = "\<lambda>c p. \<lparr>cp_at = ReadBody, cp_pieces = p, cp_pipe = [], cp_closed = False, cp_read = c, cp_done = False, cp_client = c\<rparr>"
  have copy: "?step\<^sup>*\<^sup>* (?read c (p # ps)) (?read (c @ p) ps)" if "p \<noteq> []" for c p ps
  proof -
    let ?a = "(?read c (p # ps))\<lparr>cp_at := InPipe p, cp_pieces := ps, cp_pipe := p\<rparr>"
    have "?step (?read c (p # ps)) ?a"
      using reads_piece [of "?read c (p # ps)" p ps] that by simp
    moreover have "?step ?a (?a\<lparr>cp_pipe := [], cp_read := c @ p\<rparr>)"
      using parser_reads [of ?a p "[]"] that by simp
    moreover have "?step (?a\<lparr>cp_pipe := [], cp_read := c @ p\<rparr>) (?a\<lparr>cp_pipe := [], cp_read := c @ p, cp_at := ToClient p\<rparr>)"
      using pipe_taken [of "?a\<lparr>cp_pipe := [], cp_read := c @ p\<rparr>" p] by simp
    moreover have "?step (?a\<lparr>cp_pipe := [], cp_read := c @ p, cp_at := ToClient p\<rparr>) (?read (c @ p) ps)"
      using client_takes [of "?a\<lparr>cp_pipe := [], cp_read := c @ p, cp_at := ToClient p\<rparr>" p] by simp
    ultimately show ?thesis by (meson converse_rtranclp_into_rtranclp rtranclp.rtrancl_refl)
  qed
  let ?e = "?read ''body'' []"
  have "?step\<^sup>*\<^sup>* (wrap [''bo'', ''dy'']) ?e"
    using copy [where c = "[]" and p = "''bo''" and ps = "[''dy'']"] copy [where c = "''bo''" and p = "''dy''" and ps = "[]"]
    by (simp add: wrap_def)
  moreover have "?step ?e (?e\<lparr>cp_at := CloseBody True\<rparr>)" using body_ends [of ?e] by simp
  moreover have "?step (?e\<lparr>cp_at := CloseBody True\<rparr>) (?e\<lparr>cp_at := AwaitParser, cp_closed := True\<rparr>)"
    using closes [of "?e\<lparr>cp_at := CloseBody True\<rparr>" True] by simp
  moreover have "?step (?e\<lparr>cp_at := AwaitParser, cp_closed := True\<rparr>) (?e\<lparr>cp_at := AwaitParser, cp_closed := True, cp_done := True\<rparr>)"
    using parser_ends [of "?e\<lparr>cp_at := AwaitParser, cp_closed := True\<rparr>"] by simp
  moreover obtain t where "?step (?e\<lparr>cp_at := AwaitParser, cp_closed := True, cp_done := True\<rparr>) t"
    and t: "cp_at t = Captured (capture (rq_unmarshal demo_request) (rq_decodeFirst demo_request) (rq_stream demo_request) ''body'')"
    using waited [of "?e\<lparr>cp_at := AwaitParser, cp_closed := True, cp_done := True\<rparr>" demo_request True] by auto
  ultimately have run: "?step\<^sup>*\<^sup>* (wrap [''bo'', ''dy'']) t" by (meson rtranclp.rtrancl_into_rtrancl)
  have "reachable (\<lambda>s. s = wrap [''bo'', ''dy'']) ?step t"
    by (rule reachable_run [OF reach_init run]) simp
  moreover have "rq_exchange demo_request 0 (demo_reps ! 1) = Complete (concat [''bo'', ''dy''])"
    by (simp add: demo_request_def demo_reps_def)
  ultimately have "cp_client t = ''body''"
    using capture_refines_forward [of "[''bo'', ''dy'']" demo_request True t] t by auto
  moreover have "cp_at t = Captured (Some \<lparr>tu_PromptTokens = 12, tu_CompletionTokens = 30\<rparr>)"
    using t by (simp add: demo_request_def capture_def scanJSON_def)
  ultimately show ?thesis using run by blast
qed

end
