(* ===== verification/GwWire.thy ===== *)
theory GwWire
  imports GwProps
begin

text \<open>
  What the gateway puts on the wire to a replica (\<^verbatim>\<open>server.forward\<close> of \<^verbatim>\<open>gateway/internal/proxy/proxy.go\<close> and
  \<^verbatim>\<open>gateway/internal/dialer\<close>): the headers of the outbound request, and the connections that its transports
  leave behind. A replica runs on a provider's machine.
\<close>

subsection \<open>Headers\<close>

text \<open>Header names are in canonical form, as Go's server stores them.\<close>

type_synonym headers = "string \<rightharpoonup> string list"

text \<open>\<^verbatim>\<open>textproto.CanonicalMIMEHeaderKey\<close> for a name without characters that a name may not have.\<close>

definition upper_char :: "char \<Rightarrow> char" where
  "upper_char c = (if 97 \<le> (of_char c :: nat) \<and> (of_char c :: nat) \<le> 122 then char_of ((of_char c :: nat) - 32) else c)"

fun canonical :: "bool \<Rightarrow> string \<Rightarrow> string" where
  "canonical upper [] = []"
| "canonical upper (c # cs) = (if upper then upper_char c else lower_char c) # canonical (c = CHR ''-'') cs"

definition header_values :: "headers \<Rightarrow> string \<Rightarrow> string list" where
  "header_values h name = (case h name of None \<Rightarrow> [] | Some vs \<Rightarrow> vs)"

definition del :: "string list \<Rightarrow> headers \<Rightarrow> headers" where
  "del names h = h |` (- set names)"

definition hopHeaders :: "string list" where
  "hopHeaders = [''Connection'', ''Proxy-Connection'', ''Keep-Alive'', ''Proxy-Authenticate'',
     ''Proxy-Authorization'', ''Te'', ''Trailer'', ''Transfer-Encoding'', ''Upgrade'']"

text \<open>The names that the client's own \<^verbatim>\<open>Connection\<close> header lists.\<close>

definition connection_tokens :: "headers \<Rightarrow> string list" where
  "connection_tokens h = filter (\<lambda>t. t \<noteq> []) (map TrimSpace (concat (map (Split (CHR '','')) (header_values h ''Connection''))))"

definition removeHopByHopHeaders :: "headers \<Rightarrow> headers" where
  "removeHopByHopHeaders h = del hopHeaders (del (map (canonical True) (connection_tokens h)) h)"

text \<open>\<^verbatim>\<open>httpguts.HeaderValuesContainsToken\<close>, and the protocol that a client asks to switch to.\<close>

definition contains_token :: "string list \<Rightarrow> string \<Rightarrow> bool" where
  "contains_token vs token = list_ex (\<lambda>v. list_ex (\<lambda>t. EqualFold (TrimSpace t) token) (Split (CHR '','') v)) vs"

definition upgradeType :: "headers \<Rightarrow> string" where
  "upgradeType h =
     (if contains_token (header_values h ''Connection'') ''Upgrade''
      then (case header_values h ''Upgrade'' of [] \<Rightarrow> [] | v # _ \<Rightarrow> v) else [])"

definition forwardingHeaders :: "string list" where
  "forwardingHeaders = [''Forwarded'', ''X-Forwarded-For'', ''X-Forwarded-Host'', ''X-Forwarded-Proto'']"

text \<open>\<^verbatim>\<open>ReverseProxy.ServeHTTP\<close> up to the call of \<^verbatim>\<open>Rewrite\<close>, and what it does after it.\<close>

definition before_rewrite :: "headers \<Rightarrow> headers" where
  "before_rewrite h =
     (let h1 = removeHopByHopHeaders h;
          h2 = (if contains_token (header_values h ''Te'') ''trailers'' then h1(''Te'' \<mapsto> [''trailers'']) else h1);
          h3 = (if upgradeType h \<noteq> [] then h2(''Connection'' \<mapsto> [''Upgrade''], ''Upgrade'' \<mapsto> [upgradeType h]) else h2)
      in del forwardingHeaders h3)"

definition after_rewrite :: "headers \<Rightarrow> headers" where
  "after_rewrite h = (if h ''User-Agent'' = None then h(''User-Agent'' \<mapsto> [[]]) else h)"

subsection \<open>The outbound request\<close>

record inbound_request =
  ib_path :: string
  ib_header :: headers

record outbound_request =
  ob_host :: string
  ob_path :: string
  ob_header :: headers
  ob_body :: string
  ob_ContentLength :: nat

text \<open>The closure \<^verbatim>\<open>Rewrite\<close>: target, host, body and its length, and the content type.\<close>

definition Rewrite :: "string \<Rightarrow> string \<Rightarrow> inbound_request \<Rightarrow> headers \<Rightarrow> outbound_request" where
  "Rewrite addr body r h =
     \<lparr>ob_host = addr, ob_path = ib_path r, ob_header = h(''Content-Type'' \<mapsto> [''application/json'']),
      ob_body = body, ob_ContentLength = length body\<rparr>"

definition proxy_request :: "string \<Rightarrow> string \<Rightarrow> inbound_request \<Rightarrow> outbound_request" where
  "proxy_request addr body r =
     (let out = Rewrite addr body r (before_rewrite (ib_header r))
      in out\<lparr>ob_header := after_rewrite (ob_header out)\<rparr>)"

text \<open>The headers that do not pass as they are.\<close>

definition rewritten :: "headers \<Rightarrow> string set" where
  "rewritten h = set hopHeaders \<union> set forwardingHeaders \<union> {''Content-Type'', ''User-Agent''} \<union>
     set (map (canonical True) (connection_tokens h))"

lemma proxy_request_passes: "name \<notin> rewritten (ib_header r) \<Longrightarrow> ob_header (proxy_request addr body r) name = ib_header r name"
  by (simp add: proxy_request_def Rewrite_def after_rewrite_def before_rewrite_def removeHopByHopHeaders_def del_def
      rewritten_def hopHeaders_def forwardingHeaders_def)

lemma proxy_request_strips:
  assumes "name \<in> set hopHeaders \<union> set forwardingHeaders" and "name \<noteq> ''Te''" and "upgradeType (ib_header r) = []"
  shows "ob_header (proxy_request addr body r) name = None"
proof -
  have "name \<noteq> ''Content-Type''" "name \<noteq> ''User-Agent''"
    using assms(1) by (auto simp: hopHeaders_def forwardingHeaders_def)
  then show ?thesis
    using assms by (auto simp: proxy_request_def Rewrite_def after_rewrite_def before_rewrite_def
        removeHopByHopHeaders_def del_def restrict_map_def)
qed

text \<open>The request that a replica gets is the client's, byte for byte in its body, at the replica's own address; the
  hop-by-hop and forwarding headers are gone and all others pass. That includes \<^verbatim>\<open>Authorization\<close>: unless
  the client itself asks for its removal, the API key by which it was let in reaches the provider's
  machine, which can use it.\<close>

theorem api_key_reaches_replica:
  assumes "ib_header r ''Authorization'' = Some (auth # rest)"
    and "7 < length auth" and "EqualFold (take 7 auth) ''Bearer ''" and "map_of keys (drop 7 auth) = Some keyID"
    and "''Authorization'' \<notin> set (map (canonical True) (connection_tokens (ib_header r)))"
  shows "withAuth keys auth next s = next keyID s \<and>
    ob_header (proxy_request addr body r) ''Authorization'' = Some (auth # rest) \<and>
    ob_host (proxy_request addr body r) = addr \<and> ob_path (proxy_request addr body r) = ib_path r \<and>
    ob_body (proxy_request addr body r) = body \<and> ob_ContentLength (proxy_request addr body r) = length body"
proof -
  have "keys \<noteq> []" using assms(4) by auto
  moreover have len: "length ''Bearer '' = 7" by simp
  ultimately have "withAuth keys auth next s = next keyID s"
    unfolding withAuth_def Let_def len using assms(2-4) by simp
  moreover have "''Authorization'' \<notin> rewritten (ib_header r)"
    using assms(5) by (simp add: rewritten_def hopHeaders_def forwardingHeaders_def)
  ultimately show ?thesis
    using assms(1) proxy_request_passes [of "''Authorization''" r addr body] by (simp add: proxy_request_def Rewrite_def)
qed

theorem api_key_reaches_replica_witness:
  "ob_header (proxy_request ''10.0.0.5:8080'' ''body''
     \<lparr>ib_path = ''/v1/completions'', ib_header = [''Authorization'' \<mapsto> [''Bearer sk-1'']]\<rparr>) ''Authorization'' =
   Some [''Bearer sk-1'']"
proof -
  have "EqualFold (take 7 ''Bearer sk-1'') ''Bearer ''" by code_simp
  then show ?thesis
    using api_key_reaches_replica [of "\<lparr>ib_path = ''/v1/completions'', ib_header = [''Authorization'' \<mapsto> [''Bearer sk-1'']]\<rparr>"
        "''Bearer sk-1''" "[]" "[(''sk-1'', ''key-0'')]" "''key-0''" "\<lambda>k s. (s, Status 200 k)" "()" "''10.0.0.5:8080''" "''body''"]
    by (simp add: connection_tokens_def header_values_def)
qed

subsection \<open>Dialling\<close>

text \<open>The dialer of this phase calls \<^verbatim>\<open>net.Dialer\<close>; the transport's hook passes the address on and ignores the network.\<close>

definition DialReplica :: "(string \<Rightarrow> string \<Rightarrow> 'conn option) \<Rightarrow> string \<Rightarrow> 'conn option" where
  "DialReplica dial addr = dial ''tcp'' addr"

definition DialContext :: "(string \<Rightarrow> string \<Rightarrow> 'conn option) \<Rightarrow> string \<Rightarrow> string \<Rightarrow> 'conn option" where
  "DialContext dial network addr = DialReplica dial addr"

subsection \<open>Connections\<close>

text \<open>
  How long an idle connection lives, from the configuration at both ends. \<^verbatim>\<open>http.Transport\<close> closes one
  after \<^verbatim>\<open>IdleConnTimeout\<close> and \<^verbatim>\<open>http.Server\<close> after \<^verbatim>\<open>IdleTimeout\<close> or else \<^verbatim>\<open>ReadTimeout\<close>, where zero is no limit.
  \<^verbatim>\<open>ReadHeaderTimeout\<close> counts from the first byte of a request.
\<close>

record transport_config =
  tc_DisableKeepAlives :: bool
  tc_IdleConnTimeout :: duration

record server_timeouts =
  st_ReadHeaderTimeout :: duration
  st_ReadTimeout :: duration
  st_IdleTimeout :: duration

definition forward_transport :: transport_config where
  "forward_transport = \<lparr>tc_DisableKeepAlives = False, tc_IdleConnTimeout = 0\<rparr>"

definition engine_timeouts :: server_timeouts where
  "engine_timeouts = \<lparr>st_ReadHeaderTimeout = 10 * second, st_ReadTimeout = 0, st_IdleTimeout = 0\<rparr>"

definition idleTimeout :: "server_timeouts \<Rightarrow> duration" where
  "idleTimeout st = (if st_IdleTimeout st \<noteq> 0 then st_IdleTimeout st else st_ReadTimeout st)"

definition stays_open :: "transport_config \<Rightarrow> server_timeouts \<Rightarrow> duration \<Rightarrow> bool" where
  "stays_open tc st idle \<longleftrightarrow>
     (tc_IdleConnTimeout tc = 0 \<or> idle < tc_IdleConnTimeout tc) \<and> (idleTimeout st \<le> 0 \<or> idle < idleTimeout st)"

text \<open>
  The idle connections of a transport, by address, after an exchange. An idle connection to the address is
  used again; after a response that was read to its end the connection is kept, otherwise it is closed.
\<close>

definition pool_exchange :: "transport_config \<Rightarrow> string \<Rightarrow> exchange \<Rightarrow> string list \<Rightarrow> string list" where
  "pool_exchange tc addr ex idle =
     (case ex of
        BadAddress \<Rightarrow> idle
      | NoResponse \<Rightarrow> remove1 addr idle
      | BrokenOff _ \<Rightarrow> remove1 addr idle
      | Complete _ \<Rightarrow> if tc_DisableKeepAlives tc then remove1 addr idle else addr # remove1 addr idle)"

text \<open>
  \<^verbatim>\<open>forward\<close> makes a transport of its own for every exchange; no later one can use its connections. A
  transport made once would serve them all.
\<close>

definition left_open :: "transport_config \<Rightarrow> (string \<times> exchange) list \<Rightarrow> string list" where
  "left_open tc exs = concat (map (\<lambda>(addr, ex). pool_exchange tc addr ex []) exs)"

definition left_open_shared :: "transport_config \<Rightarrow> (string \<times> exchange) list \<Rightarrow> string list" where
  "left_open_shared tc exs = foldl (\<lambda>idle (addr, ex). pool_exchange tc addr ex idle) [] exs"

lemma shared_distinct:
  assumes "distinct idle"
  shows "distinct (foldl (\<lambda>idle (addr, ex). pool_exchange tc addr ex idle) idle exs) \<and>
    set (foldl (\<lambda>idle (addr, ex). pool_exchange tc addr ex idle) idle exs) \<subseteq> set idle \<union> fst ` set exs"
  using assms
proof (induction exs arbitrary: idle)
  case (Cons x exs)
  obtain addr ex where x: "x = (addr, ex)" by (cases x)
  have "distinct (pool_exchange tc addr ex idle)" "set (pool_exchange tc addr ex idle) \<subseteq> insert addr (set idle)"
    using Cons.prems by (auto simp: pool_exchange_def split: exchange.split)
  with Cons.IH [of "pool_exchange tc addr ex idle"] show ?case by (auto simp: x)
qed simp

definition is_Complete :: "exchange \<Rightarrow> bool" where
  "is_Complete ex = (case ex of Complete _ \<Rightarrow> True | _ \<Rightarrow> False)"

lemma left_open_all: "left_open forward_transport exs = map fst (filter (\<lambda>x. is_Complete (snd x)) exs)"
  by (induction exs)
    (auto simp: left_open_def pool_exchange_def forward_transport_def is_Complete_def split: exchange.split)

text \<open>Every answered request leaves a connection open for good. The gateway's transports have no limit for idle
  connections and the engine's server has none either, so after any exchanges, however long ago, there is one
  open connection to the replica for each that was answered; with one transport for all, requests one after the
  other would need no more than one per replica.\<close>

theorem answered_requests_leak_connections:
  "length (left_open forward_transport exs) = length (filter (\<lambda>x. is_Complete (snd x)) exs) \<and>
   (\<forall>idle. stays_open forward_transport engine_timeouts idle) \<and>
   length (left_open_shared forward_transport exs) \<le> card (fst ` set exs)"
proof -
  have "distinct (left_open_shared forward_transport exs)" "set (left_open_shared forward_transport exs) \<subseteq> fst ` set exs"
    using shared_distinct [of "[]" forward_transport exs] by (simp_all add: left_open_shared_def)
  then have "length (left_open_shared forward_transport exs) \<le> card (fst ` set exs)"
    by (metis card_mono distinct_card finite_imageI finite_set)
  moreover have "stays_open forward_transport engine_timeouts idle" for idle
    by (simp add: stays_open_def forward_transport_def engine_timeouts_def idleTimeout_def)
  ultimately show ?thesis by (simp add: left_open_all)
qed

end
