(* ===== verification/CoordRpc.thy ===== *)
theory CoordRpc
  imports CoordProps
begin

text \<open>
  The coordinator's unary calls as a client sees them (\<^verbatim>\<open>buildServer\<close> and the services it registers,
  \<^verbatim>\<open>coordinator/internal/server/server.go\<close>): every call passes the interceptor and reaches the handler of
  its method, with the tables and the ledger behind it.
\<close>

subsection \<open>The ledger behind the interface\<close>

text \<open>\<^verbatim>\<open>store.Store\<close>: whichever implementation was configured.\<close>

datatype Store = PostgresStore usage_table | JSONLStore JSONL

text \<open>
  What a call meets: the circumstances of the handlers, the fate of the statement or the file write, and for
  the summary how a sum is scanned, how keys are collated and which queries are answered.
\<close>

record call_env =
  ca_event :: event_env
  ca_exec :: exec_outcome
  ca_file :: file_outcome
  ca_scan :: "int \<Rightarrow> u64 option"
  ca_coll :: "string \<Rightarrow> nat"
  ca_up :: "nat \<Rightarrow> bool"

definition Store_Insert :: "call_env \<Rightarrow> UsageRecord \<Rightarrow> Store \<Rightarrow> Store \<times> store_error option" where
  "Store_Insert a rec db =
     (case db of
        PostgresStore tbl \<Rightarrow> apfst PostgresStore (Postgres_Insert (ev_now (ca_event a)) (ca_exec a) rec tbl)
      | JSONLStore j \<Rightarrow> apfst JSONLStore (JSONL_Insert (ev_now (ca_event a)) (ca_file a) rec j))"

definition Store_Summarize :: "call_env \<Rightarrow> Store \<Rightarrow> time \<Rightarrow> time \<Rightarrow> store_error + Summary" where
  "Store_Summarize a db from to =
     (case db of
        PostgresStore tbl \<Rightarrow> Postgres_Summarize (ca_scan a) (ca_coll a) (ca_up a) (\<lambda>_. tbl) from to
      | JSONLStore j \<Rightarrow> JSONL_Summarize from to j)"

subsection \<open>Calls and their dispatch\<close>

datatype rpc =
    RpcListNodes
  | RpcRunJob string "JobSpec option"
  | RpcCreateDeployment "DeploymentSpec option" u32
  | RpcDeleteDeployment string
  | RpcListDeployments
  | RpcGetUsageSummary int int
  | RpcResolveModel string
  | RpcListModels bool
  | RpcReportUsage ReportUsageRequest

datatype rpc_reply =
    ReplyNodes "NodeSummary list"
  | ReplyID string
  | ReplyEmpty
  | ReplyDeployments "DeploymentSummary list"
  | ReplySummary UsageSummaryResponse
  | ReplyReplicas "ReplicaAddr list"
  | ReplyModels "string list"

text \<open>The receiver of the handlers: registry, scheduler and manager, and the store.\<close>

type_synonym adminServer = "Coordinator \<times> Store"

definition serve_rpc :: "call_env \<Rightarrow> rpc \<Rightarrow> adminServer \<Rightarrow> adminServer \<times> (status_code + rpc_reply)" where
  "serve_rpc a call s =
     (let (w, db) = s; e = ca_event a
      in case call of
           RpcListNodes \<Rightarrow> (s, Inr (ReplyNodes (ListNodes e w)))
         | RpcRunJob nodeID spec \<Rightarrow>
             (let (w', res) = admin_RunJob e nodeID spec w in ((w', db), map_sum id ReplyID res))
         | RpcCreateDeployment spec replicas \<Rightarrow>
             (let (w', res) = CreateDeployment e spec replicas w in ((w', db), map_sum id ReplyID res))
         | RpcDeleteDeployment dID \<Rightarrow>
             (let (w', res) = DeleteDeployment e dID w in ((w', db), map_sum id (\<lambda>_. ReplyEmpty) res))
         | RpcListDeployments \<Rightarrow> (s, Inr (ReplyDeployments (ListDeployments e w)))
         | RpcGetUsageSummary from to \<Rightarrow>
             (s, map_sum id ReplySummary (GetUsageSummary (Store_Summarize a db) (ev_now e) from to))
         | RpcResolveModel model \<Rightarrow> (s, map_sum id ReplyReplicas (ResolveModel e model w))
         | RpcListModels unready \<Rightarrow> (s, Inr (ReplyModels (ListModels e unready w)))
         | RpcReportUsage req \<Rightarrow>
             (let (db', res) = ReportUsage (Store_Insert a) (ev_now e) req db
              in ((w, db'), map_sum id (\<lambda>_. ReplyEmpty) res)))"

definition serve_call ::
  "string \<Rightarrow> string list option \<Rightarrow> call_env \<Rightarrow> rpc \<Rightarrow> adminServer \<Rightarrow> adminServer \<times> (status_code + rpc_reply)" where
  "serve_call token md a call = unaryAuthInterceptor token md (serve_rpc a call)"

text \<open>The calls that only ask.\<close>

definition is_query :: "rpc \<Rightarrow> bool" where
  "is_query call =
     (case call of
        RpcRunJob _ _ \<Rightarrow> False | RpcCreateDeployment _ _ \<Rightarrow> False | RpcDeleteDeployment _ \<Rightarrow> False
      | RpcReportUsage _ \<Rightarrow> False | _ \<Rightarrow> True)"

subsection \<open>What a refusal leaves behind\<close>

lemma map_sum_Inl: "map_sum id f x = Inl c \<longleftrightarrow> x = Inl c"
  by (cases x) simp_all

lemma RunJob_refused:
  assumes "admin_RunJob e nodeID spec w = (w', Inl code)" and "ev_newID e \<notin> dom (jobs (co_sched w))"
  shows "code \<in> {InvalidArgument, NotFound, FailedPrecondition} \<and> w' = w \<or>
    code = Unavailable \<and> co_reg w' = co_reg w \<and> co_sched w' = co_sched w \<and> co_deploy w' = co_deploy w"
proof -
  have "jobs (co_sched w) (ev_newID e) = None" using assms(2) by auto
  then have "(co_sched w)\<lparr>jobs := (jobs (co_sched w))(ev_newID e := None)\<rparr> = co_sched w" by (simp add: fun_upd_idem)
  then show ?thesis
    using assms(1)
    by (auto simp: admin_RunJob_def RunJob_def split: if_splits option.splits prod.splits sum.splits sched_error.splits)
qed

lemma CreateDeployment_refused:
  assumes "CreateDeployment e spec replicas w = (w', Inl code)"
  shows "code = InvalidArgument \<and> w' = w"
proof -
  have runner: "requiredRunner spec = Inl err \<Longrightarrow> \<exists>why. err = ErrInvalidSpec why" for err
    by (auto simp: requiredRunner_def split: option.splits Engine.splits)
  show ?thesis
    using assms runner
    by (auto simp: CreateDeployment_def Create_def split: if_splits sum.splits prod.splits deploy_error.splits option.splits)
qed

lemma DeleteDeployment_refused: "DeleteDeployment e dID w = (w', Inl code) \<Longrightarrow> code = NotFound \<and> w' = w"
  by (auto simp: DeleteDeployment_def Delete_def split: option.splits prod.splits)

text \<open>What every implementation of the store promises: a record it calls invalid is not stored.\<close>

locale refusing_store =
  fixes ins :: "UsageRecord \<Rightarrow> 's \<Rightarrow> 's \<times> store_error option"
  assumes refused: "ins rec s = (s', Some (ErrInvalidRecord why)) \<Longrightarrow> s' = s"
begin

lemma ReportUsage_refused:
  "ReportUsage ins now req s = (s', Inl code) \<Longrightarrow> code = InvalidArgument \<and> s' = s \<or> code = Unavailable"
  by (auto simp: ReportUsage_def split: if_splits prod.splits option.splits store_error.splits dest: refused)

end

interpretation store: refusing_store "Store_Insert a" for a
  by unfold_locales
    (auto simp: Store_Insert_def Postgres_Insert_def JSONL_Insert_def validate_def
      split: Store.splits option.splits exec_outcome.splits file_outcome.splits if_splits)

lemma GetUsageSummary_refused: "GetUsageSummary summarize now from to = Inl code \<Longrightarrow> code \<in> {InvalidArgument, FailedPrecondition}"
  by (auto simp: GetUsageSummary_def split: prod.splits if_splits sum.splits)

text \<open>The circumstances of a call fit the state: the minted ID is new and the tables are ranged over completely.\<close>

definition call_ok :: "call_env \<Rightarrow> Coordinator \<Rightarrow> bool" where
  "call_ok a w \<longleftrightarrow> (let e = ca_event a in
     ev_newID e \<noteq> [] \<and> ev_newID e \<notin> dom (jobs (co_sched w)) \<and> ev_newID e \<notin> dom (deploy (co_deploy w)) \<and>
     distinct (ev_dord e) \<and> set (ev_dord e) = insert (ev_newID e) (dom (deploy (co_deploy w))) \<and>
     map_order (ev_nord e) (nodes (co_reg w)))"

lemma serve_rpc_step:
  assumes "call_ok a w" and "serve_rpc a call (w, db) = ((w', db'), res)"
  shows "w' = w \<or> coord_step (w, live) (w', live)"
  using assms coord_step.run_job [of "ca_event a" w live] coord_step.create [of "ca_event a" w live]
    coord_step.delete [of w live "ca_event a"]
  by (cases call) (auto simp: serve_rpc_def call_ok_def split_beta)

lemma serve_rpc_query: "is_query call \<Longrightarrow> fst (serve_rpc a call s) = s"
  by (auto simp: serve_rpc_def is_query_def split: rpc.split prod.split)

lemma serve_rpc_refused:
  assumes "call_ok a w" and "serve_rpc a call (w, db) = ((w', db'), Inl code)"
  shows "code \<in> {InvalidArgument, NotFound, FailedPrecondition} \<and> w' = w \<and> db' = db \<or>
    code = Unavailable \<and> co_reg w' = co_reg w \<and> co_sched w' = co_sched w \<and> co_deploy w' = co_deploy w \<and>
    (db' = db \<or> (\<exists>req. call = RpcReportUsage req))"
proof (cases call)
  case (RpcRunJob nodeID spec)
  with assms have "admin_RunJob (ca_event a) nodeID spec w = (w', Inl code)" "db' = db"
    by (auto simp: serve_rpc_def map_sum_Inl split: prod.splits)
  then show ?thesis using RunJob_refused assms(1) by (fastforce simp: call_ok_def)
next
  case (RpcCreateDeployment spec replicas)
  with assms have "CreateDeployment (ca_event a) spec replicas w = (w', Inl code)" "db' = db"
    by (auto simp: serve_rpc_def map_sum_Inl split: prod.splits)
  then show ?thesis using CreateDeployment_refused by fastforce
next
  case (RpcDeleteDeployment dID)
  with assms have "DeleteDeployment (ca_event a) dID w = (w', Inl code)" "db' = db"
    by (auto simp: serve_rpc_def map_sum_Inl split: prod.splits)
  then show ?thesis using DeleteDeployment_refused by fastforce
next
  case (RpcReportUsage req)
  with assms have "ReportUsage (Store_Insert a) (ev_now (ca_event a)) req db = (db', Inl code)" "w' = w"
    by (auto simp: serve_rpc_def map_sum_Inl split: prod.splits)
  then show ?thesis using store.ReportUsage_refused RpcReportUsage by fastforce
next
  case (RpcGetUsageSummary fromMs toMs)
  with assms have "GetUsageSummary (Store_Summarize a db) (ev_now (ca_event a)) fromMs toMs = Inl code" "w' = w" "db' = db"
    by (auto simp: serve_rpc_def map_sum_Inl)
  then show ?thesis using GetUsageSummary_refused [of "Store_Summarize a db"] by fastforce
next
  case (RpcResolveModel model)
  with assms show ?thesis by (auto simp: serve_rpc_def map_sum_Inl ResolveModel_def split: if_splits)
qed (use assms in \<open>auto simp: serve_rpc_def\<close>)

text \<open>C28. A call to the coordinator does what its answer says. Whatever is called, with whatever
  metadata: the coordinator makes a step of its transition system or none, so all its invariants stay; a
  call that only asks changes nothing. An error is one of five: without the token, for an invalid
  argument, for something unknown, or for a precondition that fails, nothing at all has changed; with
  \<^verbatim>\<open>Unavailable\<close> no table has changed, and the ledger only if the call reported usage. Neither \<^verbatim>\<open>Internal\<close>
  nor a stream's error is ever answered.\<close>

theorem calls_do_what_they_answer:
  assumes "call_ok a w" and "serve_call token md a call (w, db) = ((w', db'), res)"
  shows "(w' = w \<or> coord_step (w, live) (w', live)) \<and>
    (is_query call \<longrightarrow> w' = w \<and> db' = db) \<and>
    (\<forall>reply. res = Inr reply \<longrightarrow> checkToken md token = None) \<and>
    (\<forall>code. res = Inl code \<longrightarrow>
       code \<in> {Unauthenticated, InvalidArgument, NotFound, FailedPrecondition} \<and> w' = w \<and> db' = db \<or>
       code = Unavailable \<and> co_reg w' = co_reg w \<and> co_sched w' = co_sched w \<and> co_deploy w' = co_deploy w \<and>
         (db' = db \<or> (\<exists>req. call = RpcReportUsage req)))"
proof (cases "checkToken md token")
  case None
  then have run: "serve_rpc a call (w, db) = ((w', db'), res)"
    using assms(2) by (simp add: serve_call_def unaryAuthInterceptor_def)
  then show ?thesis
    using serve_rpc_step [OF assms(1) run, of live] serve_rpc_query [of call a "(w, db)"] None
      serve_rpc_refused [OF assms(1), of call db w' db'] by auto
next
  case (Some e)
  then have "e = Unauthenticated" by (auto simp: checkToken_def split: option.splits list.splits if_splits)
  then show ?thesis using Some assms(2) by (auto simp: serve_call_def unaryAuthInterceptor_def)
qed

definition demo_call :: call_env where
  "demo_call = \<lparr>ca_event = demo_env\<lparr>ev_newID := ''x'', ev_nord := [''n1''], ev_dord := [''x'']\<rparr>, ca_exec = Answered,
     ca_file = Written, ca_scan = \<lambda>n. Some (of_int n), ca_coll = length, ca_up = \<lambda>_. True\<rparr>"

theorem calls_do_what_they_answer_witness:
  "serve_call ''s3'' (Some [''bearer s3'']) demo_call (RpcDeleteDeployment ''d9'') (demo_connected, PostgresStore []) =
     ((demo_connected, PostgresStore []), Inl NotFound)"
proof -
  let ?call = "serve_call ''s3'' (Some [''bearer s3'']) demo_call (RpcDeleteDeployment ''d9'') (demo_connected, PostgresStore [])"
  have ok: "call_ok demo_call demo_connected"
    using map_order_demo_registry
    by (simp add: call_ok_def demo_call_def demo_connected_parts New_Manager_def New_Scheduler_def)
  have "checkToken (Some [''bearer s3'']) ''s3'' = None" by (simp add: checkToken_def EqualFold_def)
  then have "snd ?call = Inl NotFound"
    by (simp add: serve_call_def unaryAuthInterceptor_def serve_rpc_def DeleteDeployment_def Delete_def
        demo_connected_parts New_Manager_def)
  then obtain w db where eq: "?call = ((w, db), Inl NotFound)" by (metis prod.collapse)
  from calls_do_what_they_answer [OF ok this] show ?thesis unfolding eq by simp
qed

end
