(* ===== verification/AgentTools.thy ===== *)
theory AgentTools
  imports AgentHostProps EngineCmd EngineConc
begin

text \<open>
  What the agent says about its machine and how it confines the engine: the report of \<^verbatim>\<open>agent doctor\<close>
  (\<^verbatim>\<open>agent/cmd/agent/doctor.go\<close>), the sandbox profile (\<^verbatim>\<open>agent/internal/deploy/sandbox_darwin.go\<close>), and the build
  without an engine (\<^verbatim>\<open>agent/internal/engine/llama_stub.go\<close>).
\<close>

subsection \<open>The report of doctor\<close>

text \<open>
  The texts that the report takes from elsewhere: the errors of the GPU detection and of the GPU statistics,
  and the name that Metal gives the GPU.
\<close>

record doctor_texts =
  dt_gpuErr :: string
  dt_statsErr :: string
  dt_gpuName :: string

definition dash :: string where
  "dash = [CHR 0xE2, CHR 0x80, CHR 0x94]"

definition line :: "string \<Rightarrow> string" where
  "line s = s @ [CHR 0x0A]"

text \<open>The lines in the order they are printed, and whether the machine can take any work.\<close>

definition doctor_report :: "doctor_texts \<Rightarrow> host_env \<Rightarrow> string list \<times> bool" where
  "doctor_report d h =
     (let sys = ho_system h;
          head = [line ''GridLink agent'', line (''  os/arch      '' @ sys_os sys @ ''/'' @ sys_arch sys),
                  line (''  cpu cores    '' @ itoa (unat (sys_cpu_cores sys))),
                  line (''  memory       '' @ itoa (unat (sys_ram_total_mb sys)) @ '' MB''),
                  (case ho_gpu h of
                     Inr info \<Rightarrow> line (''  gpu          '' @ gpu_model info @ '' ('' @ gpu_vendor info @ '')'')
                   | Inl err \<Rightarrow> line (''  gpu          none detected ('' @ dt_gpuErr d @ '')'')),
                  line ([CHR 0x0A] @ ''Capabilities'')];
          (inference, canWork) =
            (if \<not> ho_supported h then (line ''  gpu inference    no (needs an Apple Silicon Mac)'', False)
             else case GPUStats h of
                    None \<Rightarrow> (line (''  gpu inference    NO '' @ dash @ '' engine present but the GPU is unusable: '' @ dt_statsErr d), False)
                  | Some mb \<Rightarrow> (line (''  gpu inference    yes '' @ dash @ '' '' @ dt_gpuName d @ '', '' @ itoa (unat mb) @ '' MB usable''), True));
          (containers, canWork') =
            (if ho_docker h then (line ''  container jobs   yes'', True)
             else (line ''  container jobs   no (no reachable Docker daemon)'', canWork))
      in if \<not> canWork'
         then (head @ [inference, containers, line [], line ''This machine cannot take any work: it would register and sit idle.''], False)
         else (head @ [inference, containers, line [], line ''Ready to provide. Start with:'',
                 line ''  GRIDLINK_TOKEN=<token> GRIDLINK_COORDINATOR=<host:50051> gridlink-agent''], True))"

lemma doctor_report_verdict: "snd (doctor_report d h) = runDoctor h"
  by (auto simp: doctor_report_def runDoctor_def split: option.splits)

text \<open>The printed line about container jobs, and the last lines.\<close>

lemma doctor_report_lines:
  "fst (doctor_report d h) ! 7 =
     (if ho_docker h then line ''  container jobs   yes'' else line ''  container jobs   no (no reachable Docker daemon)'')"
  "fst (doctor_report d h) ! 9 =
     (if runDoctor h then line ''Ready to provide. Start with:''
      else line ''This machine cannot take any work: it would register and sit idle.'')"
  by (auto simp: doctor_report_def runDoctor_def nth_Cons' split: option.splits)

text \<open>Doctor tells a provider the truth about the agent that would run on the same machine. It prints that
  container jobs are possible exactly if the agent would advertise Docker and run them. If it prints that
  the machine cannot take any work, the agent would refuse every job, and the coordinator would find it
  eligible for no deployment. If it prints that the machine is ready, the agent would advertise a runner,
  provided that the deployment manager finds its executable and the home directory.\<close>

theorem doctor_tells_the_truth:
  assumes "agent_main h = Some cfg" and "ho_gpu h = gpu_detect decode run getenv goos"
    and "ho_system h = sysinfo_detect run' goos' goarch numCPU" and "cfg_System cfg = Some sys"
  shows "(fst (doctor_report d h) ! 7 = line ''  container jobs   yes'' \<longleftrightarrow> cfg_Runner cfg) \<and>
    (cfg_Runner cfg \<longleftrightarrow> RUNNER_KIND_DOCKER \<in> set (sys_runners sys)) \<and>
    (fst (doctor_report d h) ! 9 = line ''This machine cannot take any work: it would register and sit idle.'' \<longrightarrow>
       \<not> cfg_Runner cfg \<and>
       (\<forall>n now kind avoid occ minVRAM. node_GPU n = cfg_GPU cfg \<longrightarrow> \<not> eligible now kind avoid occ minVRAM n)) \<and>
    (fst (doctor_report d h) ! 9 = line ''Ready to provide. Start with:'' \<and> ho_native h \<longrightarrow> sys_runners sys \<noteq> [])"
proof -
  have runners: "sys_runners (ho_system h) = []" using assms(3) by (simp add: sysinfo_detect_def)
  have cfg: "cfg_Runner cfg = ho_docker h" using assms(1) by (auto simp: agent_main_def split: if_splits)
  have sys: "sys_runners sys = (if ho_docker h then [RUNNER_KIND_DOCKER] else []) @
      (if ho_supported h \<and> ho_native h then [RUNNER_KIND_NATIVE_METAL] else [])"
    using assms(1,4) runners by (auto simp: agent_main_def split: if_splits)
  have usable: "GetUsableVramMb (cfg_GPU cfg) = 0" if "\<not> runDoctor h"
  proof -
    have "GPUStats h = None" using that by (auto simp: runDoctor_def GPUStats_def)
    then show ?thesis
      using assms(1,2) gpu_detect_usable [of decode run getenv goos]
      by (auto simp: agent_main_def split: if_splits sum.splits)
  qed
  have "\<not> eligible now kind avoid occ minVRAM n" if "\<not> runDoctor h" "node_GPU n = cfg_GPU cfg" for n now kind avoid occ minVRAM
    using usable [OF that(1)] that(2) by (simp add: eligible_def)
  moreover have "runDoctor h \<Longrightarrow> ho_native h \<Longrightarrow> sys_runners sys \<noteq> []" by (auto simp: sys runDoctor_def)
  ultimately show ?thesis
    by (auto simp: doctor_report_lines line_def cfg sys runDoctor_def split: if_splits)
qed

theorem doctor_tells_the_truth_witness:
  "fst (doctor_report \<lparr>dt_gpuErr = [], dt_statsErr = [], dt_gpuName = ''Apple M4''\<rparr> demo_mac) ! 7 = line ''  container jobs   yes'' \<and> cfg_Runner (the (agent_main demo_mac))"
proof -
  have main: "agent_main demo_mac = Some (the (agent_main demo_mac))"
    by (simp add: agent_main_def demo_mac_def demo_mac_getenv_def)
  have "cfg_Runner (the (agent_main demo_mac))"
    by (simp add: agent_main_def demo_mac_def demo_mac_getenv_def)
  moreover obtain sys where "cfg_System (the (agent_main demo_mac)) = Some sys"
    by (auto simp: agent_main_def demo_mac_def demo_mac_getenv_def)
  ultimately show ?thesis
    using doctor_tells_the_truth [OF main, of Map.empty Map.empty demo_mac_getenv "''darwin''" Map.empty "''darwin''" "''arm64''" 10 sys]
    by (simp add: demo_mac_def)
qed

subsection \<open>The sandbox of the engine\<close>

definition enginePolicy :: string where
  "enginePolicy = concat (map line
     [''(version 1)'', ''(deny default)'', ''(allow process-exec)'', ''(allow process-fork)'', ''(allow sysctl-read)'',
      ''(allow mach-lookup)'', ''(allow iokit-open)'', ''(allow file-read*)'',
      ''(allow file-write* (subpath \"/private/tmp\") (subpath \"/private/var/folders\"))'',
      ''(allow network-bind (local ip))'', ''(allow network-inbound (local ip))''])"

text \<open>
  \<^verbatim>\<open>sandboxCommand\<close> on the files of the machine. \<open>tmp\<close> is the path that \<^verbatim>\<open>os.CreateTemp\<close> gives, if it can create
  the file, and \<open>saved\<close> says whether the profile could be written to it.
\<close>

definition sandbox_start ::
  "string option \<Rightarrow> bool \<Rightarrow> string list \<Rightarrow> (string \<rightharpoonup> string) \<Rightarrow> (string \<rightharpoonup> string) \<times> string list" where
  "sandbox_start tmp saved cmd fs =
     (case tmp of
        None \<Rightarrow> (fs, sandboxCommand None cmd)
      | Some path \<Rightarrow>
          if \<not> saved then (fs(path := None), sandboxCommand None cmd)
          else (fs(path \<mapsto> enginePolicy), sandboxCommand (Some path) cmd))"

text \<open>A reader of the profile's rules: words, quoted strings and parentheses.\<close>

datatype sexp = Word string | Quoted string | Form "sexp list"

datatype token = Open | Close | Text string | Str string

text \<open>\<open>w\<close> is the word being read, backwards; \<open>q\<close> says that it is inside quotes.\<close>

definition end_word :: "string \<Rightarrow> token list" where
  "end_word w = (if w = [] then [] else [Text (rev w)])"

fun tokens :: "bool \<Rightarrow> string \<Rightarrow> string \<Rightarrow> token list" where
  "tokens q w [] = end_word w"
| "tokens q w (c # cs) =
     (if q then (if c = CHR 0x22 then Str (rev w) # tokens False [] cs else tokens True (c # w) cs)
      else if c = CHR 0x22 then end_word w @ tokens True [] cs
      else if c = CHR ''('' then end_word w @ Open # tokens False [] cs
      else if c = CHR '')'' then end_word w @ Close # tokens False [] cs
      else if is_space c then end_word w @ tokens False [] cs
      else tokens False (c # w) cs)"

text \<open>The forms that are open, innermost first, each backwards.\<close>

fun read_forms :: "sexp list list \<Rightarrow> token list \<Rightarrow> sexp list option" where
  "read_forms [cur] [] = Some (rev cur)"
| "read_forms st [] = None"
| "read_forms st (Open # ts) = read_forms ([] # st) ts"
| "read_forms (cur # nxt # st) (Close # ts) = read_forms ((Form (rev cur) # nxt) # st) ts"
| "read_forms st (Close # ts) = None"
| "read_forms (cur # st) (Text w # ts) = read_forms ((Word w # cur) # st) ts"
| "read_forms (cur # st) (Str w # ts) = read_forms ((Quoted w # cur) # st) ts"
| "read_forms [] (t # ts) = None"

text \<open>The operations that a profile allows, with the filters on them.\<close>

definition allowed :: "sexp list \<Rightarrow> (string \<times> sexp list) list" where
  "allowed rules = List.map_filter
     (\<lambda>r. case r of Form (Word verb # Word operation # filters) \<Rightarrow>
                   if verb = ''allow'' then Some (operation, filters) else None
          | _ \<Rightarrow> None) rules"

lemma enginePolicy_tokens:
  "read_forms [[]] (tokens False [] enginePolicy) = Some
     [Form [Word ''version'', Word ''1''], Form [Word ''deny'', Word ''default''],
      Form [Word ''allow'', Word ''process-exec''], Form [Word ''allow'', Word ''process-fork''],
      Form [Word ''allow'', Word ''sysctl-read''], Form [Word ''allow'', Word ''mach-lookup''],
      Form [Word ''allow'', Word ''iokit-open''], Form [Word ''allow'', Word ''file-read*''],
      Form [Word ''allow'', Word ''file-write*'', Form [Word ''subpath'', Quoted ''/private/tmp''],
            Form [Word ''subpath'', Quoted ''/private/var/folders'']],
      Form [Word ''allow'', Word ''network-bind'', Form [Word ''local'', Word ''ip'']],
      Form [Word ''allow'', Word ''network-inbound'', Form [Word ''local'', Word ''ip'']]]"
  by code_simp

text \<open>The engine is confined when its profile could be written. The command is then the engine's own behind
  \<^verbatim>\<open>sandbox-exec\<close>, with a file that holds the profile, and no other file has changed. The profile denies by
  default and allows nine operations; of the network these are binding and being connected to, on local
  addresses, so nothing can be sent out, and files are written only below two directories. The profile is
  never removed: it is still there when the engine has ended. When it could not be written, the engine
  is started without any confinement.\<close>

theorem engine_confined:
  assumes "fs path = None"
  shows "(let (fs', cmd) = sandbox_start (Some path) True (engine_args bin model name bindHost ctx) fs
      in take 3 cmd = [''/usr/bin/sandbox-exec'', ''-f'', path] \<and> drop 3 cmd = engine_args bin model name bindHost ctx \<and>
         fs' path = Some enginePolicy \<and> (\<forall>p. p \<noteq> path \<longrightarrow> fs' p = fs p)) \<and>
    (\<exists>rules. read_forms [[]] (tokens False [] enginePolicy) = Some (Form [Word ''version'', Word ''1''] #
        Form [Word ''deny'', Word ''default''] # rules) \<and>
      map fst (allowed rules) = [''process-exec'', ''process-fork'', ''sysctl-read'', ''mach-lookup'', ''iokit-open'',
        ''file-read*'', ''file-write*'', ''network-bind'', ''network-inbound''] \<and>
      length (allowed rules) = length rules \<and>
      map_of (allowed rules) ''file-write*'' =
        Some [Form [Word ''subpath'', Quoted ''/private/tmp''], Form [Word ''subpath'', Quoted ''/private/var/folders'']]) \<and>
    sandbox_start (Some path) False cmd fs = (fs, cmd) \<and> sandbox_start None saved cmd fs = (fs, cmd)"
proof -
  have "fs(path := None) = fs" using assms by (simp add: fun_upd_idem)
  then show ?thesis
    by (auto simp: sandbox_start_def sandboxCommand_def enginePolicy_tokens allowed_def List.map_filter_def)
qed

theorem engine_confined_witness:
  "fst (sandbox_start (Some ''/tmp/e.sb'') True (engine_args ''/agent'' ''/m.gguf'' ''qwen'' [] 0) Map.empty) ''/tmp/e.sb'' =
     Some enginePolicy"
  using engine_confined [of Map.empty "''/tmp/e.sb''" "''/agent''" "''/m.gguf''" "''qwen''" "[]" 0 "[]" True]
  by (simp add: split_beta)

subsection \<open>The build without an engine\<close>

datatype stub_error = ErrUnsupported

definition stub_Supported :: bool where
  "stub_Supported = False"

definition stub_Load :: "Params \<Rightarrow> stub_error + 'm" where
  "stub_Load p = Inl ErrUnsupported"

definition stub_GPUStats :: "stub_error + 's" where
  "stub_GPUStats = Inl ErrUnsupported"

text \<open>An agent built without the engine declines deployments everywhere. Its client refuses them, it does not
  advertise the runner, the coordinator finds it eligible for none, and the engine command ends with an
  error before it prints an address.\<close>

theorem stub_build_declines:
  assumes "agent_main h = Some cfg" and "ho_supported h = stub_Supported" and "eh_supported eh = stub_Supported"
    and "ho_gpu h = gpu_detect decode run getenv goos" and "ho_system h = sysinfo_detect run' goos' goarch numCPU"
  shows "\<not> cfg_Deployments cfg \<and> RUNNER_KIND_NATIVE_METAL \<notin> set (GetRunners (cfg_System cfg)) \<and>
    (\<forall>n now kind avoid occ minVRAM. node_GPU n = cfg_GPU cfg \<longrightarrow> \<not> eligible now kind avoid occ minVRAM n) \<and>
    (\<exists>e. runEngine eh args = ([], EngineError e))"
proof -
  have "GetUsableVramMb (cfg_GPU cfg) = 0"
    using assms(1,2,4) gpu_detect_usable [of decode run getenv goos]
    by (auto simp: agent_main_def stub_Supported_def split: if_splits sum.splits)
  moreover have "\<not> cfg_Deployments cfg" "RUNNER_KIND_NATIVE_METAL \<notin> set (GetRunners (cfg_System cfg))"
    using assms(1,2,5) by (auto simp: agent_main_def stub_Supported_def sysinfo_detect_def split: if_splits)
  moreover have "\<exists>e. runEngine eh args = ([], EngineError e)"
    using assms(3) by (auto simp: runEngine_def stub_Supported_def split: option.split)
  ultimately show ?thesis by (auto simp: eligible_def)
qed

theorem stub_build_declines_witness:
  "\<not> cfg_Deployments (the (agent_main (demo_mac\<lparr>ho_supported := False\<rparr>)))"
proof -
  let ?h = "demo_mac\<lparr>ho_supported := False\<rparr>"
  have "agent_main ?h = Some (the (agent_main ?h))"
    by (simp add: agent_main_def demo_mac_def demo_mac_getenv_def)
  from stub_build_declines [OF this, of "\<lparr>eh_supported = False, eh_listen = Map.empty, eh_load = \<lambda>_ _. False\<rparr>"
      Map.empty Map.empty demo_mac_getenv "''darwin''" Map.empty "''darwin''" "''arm64''" 10]
  show ?thesis by (simp add: stub_Supported_def demo_mac_def)
qed

end
