(* ===== verification/NativeConc.thy ===== *)
theory NativeConc
  imports AgentNative
begin

text \<open>
  The channels around a native deployment (\<^verbatim>\<open>agent/internal/deploy/native.go\<close>): the update channel, on which
  \<^verbatim>\<open>send\<close> gives up after a second, and the engine's error output, which a goroutine reads while \<^verbatim>\<open>run\<close> waits
  for the process, with what a failure can quote of it.
\<close>

subsection \<open>Updates\<close>

definition deployBufferSize :: nat where
  "deployBufferSize = 8"

text \<open>\<open>un_todo\<close> are the updates that \<^verbatim>\<open>run\<close> has still to send.\<close>

record update_run =
  un_todo :: "DeployUpdate list"
  un_chan :: "DeployUpdate list"
  un_received :: "DeployUpdate list"
  un_dropped :: "DeployUpdate list"

definition updates_start :: "DeployUpdate list \<Rightarrow> update_run" where
  "updates_start us = \<lparr>un_todo = us, un_chan = [], un_received = [], un_dropped = []\<rparr>"

inductive send_step :: "update_run \<Rightarrow> update_run \<Rightarrow> bool" where
  enqueued: "un_todo s = u # us \<Longrightarrow> length (un_chan s) < deployBufferSize \<Longrightarrow>
    send_step s (s\<lparr>un_todo := us, un_chan := un_chan s @ [u]\<rparr>)"
| timed_out: "un_todo s = u # us \<Longrightarrow> length (un_chan s) = deployBufferSize \<Longrightarrow>
    send_step s (s\<lparr>un_todo := us, un_dropped := un_dropped s @ [u]\<rparr>)"
| taken: "un_chan s = u # us \<Longrightarrow> send_step s (s\<lparr>un_chan := us, un_received := un_received s @ [u]\<rparr>)"

definition send_inv :: "DeployUpdate list \<Rightarrow> update_run \<Rightarrow> bool" where
  "send_inv us s \<longleftrightarrow> length (un_chan s) \<le> deployBufferSize \<and>
     subseq (un_received s @ un_chan s @ un_todo s) us \<and>
     length (un_received s) + length (un_chan s) + length (un_todo s) + length (un_dropped s) = length us \<and>
     (un_dropped s \<noteq> [] \<longrightarrow> deployBufferSize \<le> length (un_received s) + length (un_chan s))"

lemma subseq_drop_middle: "subseq (xs @ y # ys) zs \<Longrightarrow> subseq (xs @ ys) zs"
proof -
  have "subseq (xs @ ys) (xs @ y # ys)" by (intro list_emb_append_mono) auto
  then show "subseq (xs @ y # ys) zs \<Longrightarrow> ?thesis" by (rule subseq_order.order_trans)
qed

lemma send_inv_step:
  assumes "send_inv us s" and "send_step s t"
  shows "send_inv us t"
  using assms(2)
proof (cases rule: send_step.cases)
  case (timed_out u us')
  then show ?thesis
    using assms(1) subseq_drop_middle [of "un_received s @ un_chan s" u us' us] by (auto simp: send_inv_def)
qed (use assms(1) in \<open>auto simp: send_inv_def\<close>)

interpretation sends: inductive_invariant "\<lambda>s. s = updates_start us" send_step "send_inv us" for us
  by unfold_locales (simp add: send_inv_def updates_start_def deployBufferSize_def, erule (1) send_inv_step)

text \<open>A consumer that stands still: the channel fills and the rest is dropped.\<close>

lemma stalled_consumer:
  "send_step\<^sup>*\<^sup>* \<lparr>un_todo = us, un_chan = ch, un_received = r, un_dropped = d\<rparr>
     \<lparr>un_todo = [], un_chan = ch @ take (deployBufferSize - length ch) us, un_received = r,
      un_dropped = d @ drop (deployBufferSize - length ch) us\<rparr>" if "length ch \<le> deployBufferSize"
  using that
proof (induction us arbitrary: ch d)
  case (Cons u us)
  let ?s = "\<lparr>un_todo = u # us, un_chan = ch, un_received = r, un_dropped = d\<rparr>"
  show ?case
  proof (cases "length ch < deployBufferSize")
    case True
    have "send_step ?s \<lparr>un_todo = us, un_chan = ch @ [u], un_received = r, un_dropped = d\<rparr>"
      using enqueued [of ?s u us] True by simp
    moreover have "Suc (deployBufferSize - Suc (length ch)) = deployBufferSize - length ch" using True by simp
    ultimately show ?thesis
      using Cons.IH [of "ch @ [u]" d] True
      by (simp add: converse_rtranclp_into_rtranclp take_Cons' drop_Cons' split: if_splits)
  next
    case False
    with Cons.prems have full: "length ch = deployBufferSize" by simp
    have "send_step ?s \<lparr>un_todo = us, un_chan = ch, un_received = r, un_dropped = d @ [u]\<rparr>"
      using timed_out [of ?s u us] full by simp
    then show ?thesis using Cons.IH [of ch "d @ [u]"] full by (simp add: converse_rtranclp_into_rtranclp)
  qed
qed simp

lemma native_run_length: "length (native_run spec e) \<le> length (nv_progress e) + 4"
  by (auto simp: native_run_def native_serve_def split: sum.split option.split)

lemma native_run_longer: "length (nv_progress e) < length (native_run spec e)"
  by (simp add: native_run_def)

text \<open>What the client hears of a deployment. Whatever the timing, it gets a subsequence of the updates in
  their order, at most eight wait, and every other one was dropped while eight were waiting; if the download
  reported its progress at most four times, none can be dropped and the client gets them all. But when there are
  more than eight updates and the client's goroutine stands still, what is dropped is not only progress, as
  the comment at \<^verbatim>\<open>send\<close> has it: the terminal update is lost.\<close>

theorem native_updates_delivered:
  assumes "reachable (\<lambda>s. s = updates_start (native_run spec e)) send_step s"
  shows "subseq (un_received s) (native_run spec e) \<and> length (un_chan s) \<le> 8 \<and>
    (length (nv_progress e) \<le> 4 \<longrightarrow> un_dropped s = [] \<and>
       (un_todo s = [] \<and> un_chan s = [] \<longrightarrow> un_received s = native_run spec e)) \<and>
    (8 < length (native_run spec e) \<longrightarrow>
       (\<exists>t. reachable (\<lambda>s. s = updates_start (native_run spec e)) send_step t \<and> un_todo t = [] \<and>
          last (native_run spec e) \<in> set (un_dropped t) \<and> (\<forall>u \<in> set (un_received t @ un_chan t). \<not> deploy_terminal u)))"
proof (intro conjI impI)
  let ?us = "native_run spec e"
  have inv: "send_inv ?us s" by (rule sends.reachable_inv [OF assms])
  then have "subseq (un_received s @ un_chan s @ un_todo s) ?us" by (simp add: send_inv_def)
  then show "subseq (un_received s) ?us"
    by (rule subseq_order.order_trans [rotated]) (simp add: prefix_imp_subseq)
  show "length (un_chan s) \<le> 8" using inv by (simp add: send_inv_def deployBufferSize_def)
  show none: "un_dropped s = []" if "length (nv_progress e) \<le> 4"
  proof (rule ccontr)
    assume "un_dropped s \<noteq> []"
    then have "8 < length ?us" using inv by (auto simp: send_inv_def deployBufferSize_def simp flip: length_greater_0_conv)
    then show False using native_run_length [of spec e] that by simp
  qed
  show "un_received s = ?us" if "length (nv_progress e) \<le> 4" "un_todo s = [] \<and> un_chan s = []"
    using inv none [OF that(1)] that(2) by (auto simp: send_inv_def intro: subseq_same_length)
  assume long: "8 < length ?us"
  let ?t = "\<lparr>un_todo = [], un_chan = take 8 ?us, un_received = [], un_dropped = drop 8 ?us\<rparr>"
  have "send_step\<^sup>*\<^sup>* (updates_start ?us) ?t"
    using stalled_consumer [of "[]" ?us "[]" "[]"] by (simp add: updates_start_def deployBufferSize_def)
  moreover have "reachable (\<lambda>s. s = updates_start ?us) send_step (updates_start ?us)" by (rule reach_init) simp
  ultimately have "reachable (\<lambda>s. s = updates_start ?us) send_step ?t" using reachable_run by metis
  moreover have "last ?us \<in> set (drop 8 ?us)" using long last_drop [of 8 ?us] by (metis drop_eq_Nil last_in_set linorder_not_le)
  moreover have "\<not> deploy_terminal u" if "u \<in> set (take 8 ?us)" for u
  proof -
    obtain us v where us: "?us = us @ [v]" "\<forall>x \<in> set us. \<not> deploy_terminal x"
      using native.one_terminal by blast
    then have "take 8 ?us = take 8 us" using long by simp
    then show ?thesis using that us(2) in_set_takeD by metis
  qed
  ultimately show "\<exists>t. reachable (\<lambda>s. s = updates_start ?us) send_step t \<and> un_todo t = [] \<and>
      last ?us \<in> set (un_dropped t) \<and> (\<forall>u \<in> set (un_received t @ un_chan t). \<not> deploy_terminal u)"
    by (intro exI [of _ ?t]) auto
qed

theorem native_updates_delivered_witness:
  "\<exists>t. reachable (\<lambda>s. s = updates_start (native_run demo_native_spec
          (demo_native\<lparr>nv_progress := [10, 20, 30, 40, 50, 60, 70, 80]\<rparr>))) send_step t \<and>
     un_todo t = [] \<and>
     last (native_run demo_native_spec (demo_native\<lparr>nv_progress := [10, 20, 30, 40, 50, 60, 70, 80]\<rparr>)) \<in> set (un_dropped t) \<and>
     (\<forall>u \<in> set (un_received t @ un_chan t). \<not> deploy_terminal u)"
proof -
  let ?e = "demo_native\<lparr>nv_progress := [10, 20, 30, 40, 50, 60, 70, 80]\<rparr>"
  have long: "8 < length (native_run demo_native_spec ?e)" using native_run_longer [of ?e demo_native_spec] by simp
  have start: "reachable (\<lambda>s. s = updates_start (native_run demo_native_spec ?e)) send_step
      (updates_start (native_run demo_native_spec ?e))" by (rule reach_init) simp
  show ?thesis
    by (rule native_updates_delivered [OF start, THEN conjunct2, THEN conjunct2, THEN conjunct2, THEN mp, OF long])
qed

subsection \<open>What the engine said\<close>

text \<open>The engine's error output: \<open>tl_out\<close> is in the pipe, \<open>tl_buf\<close> in the scanner of \<^verbatim>\<open>tail.consume\<close>, and
  \<open>tl_said\<close> is what \<^verbatim>\<open>run\<close> reads with \<^verbatim>\<open>tail.String\<close> for the failure it reports. \<^verbatim>\<open>cmd.Wait\<close> closes
  \<^verbatim>\<open>run\<close>'s end of the pipe, whatever is still in it; the scanner then delivers the bytes it has, as a last
  line.\<close>

definition stderrTailLines :: nat where
  "stderrTailLines = 20"

record tail_run =
  tl_out :: string
  tl_buf :: string
  tl_lines :: "string list"
  tl_waited :: bool
  tl_said :: "string option"

definition newTailBuffer :: "string \<Rightarrow> tail_run" where
  "newTailBuffer out = \<lparr>tl_out = out, tl_buf = [], tl_lines = [], tl_waited = False, tl_said = None\<rparr>"

definition tail_add :: "string list \<Rightarrow> string \<Rightarrow> string list" where
  "tail_add lines l =
     (let lines' = lines @ [l]
      in if stderrTailLines < length lines' then drop (length lines' - stderrTailLines) lines' else lines')"

inductive tail_step :: "tail_run \<Rightarrow> tail_run \<Rightarrow> bool" where
  reads: "tl_out s = piece @ rest \<Longrightarrow> piece \<noteq> [] \<Longrightarrow> \<not> tl_waited s \<Longrightarrow>
    tail_step s (s\<lparr>tl_out := rest, tl_buf := tl_buf s @ piece\<rparr>)"
| scans: "tl_buf s = l @ CHR 0x0A # rest \<Longrightarrow> CHR 0x0A \<notin> set l \<Longrightarrow> length l < 1024 * 1024 \<Longrightarrow>
    tail_step s (s\<lparr>tl_buf := rest, tl_lines := tail_add (tl_lines s) (dropCR l)\<rparr>)"
| scans_rest: "tl_waited s \<Longrightarrow> tl_buf s \<noteq> [] \<Longrightarrow> CHR 0x0A \<notin> set (tl_buf s) \<Longrightarrow> length (tl_buf s) < 1024 * 1024 \<Longrightarrow>
    tail_step s (s\<lparr>tl_buf := [], tl_lines := tail_add (tl_lines s) (dropCR (tl_buf s))\<rparr>)"
| waits: "\<not> tl_waited s \<Longrightarrow> tail_step s (s\<lparr>tl_waited := True\<rparr>)"
| says: "tl_waited s \<Longrightarrow> tl_said s = None \<Longrightarrow> tail_step s (s\<lparr>tl_said := Some (tail_String (tl_lines s))\<rparr>)"

definition last_lines :: "string list \<Rightarrow> string list" where
  "last_lines ls = drop (length ls - stderrTailLines) ls"

lemma last_lines_Nil [simp]: "last_lines [] = []"
  by (simp add: last_lines_def)

lemma tail_add_last_lines: "tail_add (last_lines ls) l = last_lines (ls @ [l])"
  by (auto simp: tail_add_def last_lines_def Let_def Suc_diff_le)

text \<open>The lines \<open>ls\<close> of the output, each with its newline, and at most one fragment without, in \<open>frag\<close>.\<close>

definition output_lines :: "string list \<Rightarrow> string list \<Rightarrow> string" where
  "output_lines ls frag = concat (map (\<lambda>l. l @ [CHR 0x0A]) ls) @ concat frag"

definition tail_inv :: "string \<Rightarrow> tail_run \<Rightarrow> bool" where
  "tail_inv out s \<longleftrightarrow>
     (\<exists>ls frag. output_lines ls frag @ tl_buf s @ tl_out s = out \<and> length frag \<le> 1 \<and>
        (frag \<noteq> [] \<longrightarrow> tl_waited s \<and> tl_buf s = []) \<and> tl_lines s = last_lines (map dropCR (ls @ frag))) \<and>
     (\<forall>m. tl_said s = Some m \<longrightarrow>
        (\<exists>ls frag. prefix (output_lines ls frag) out \<and> length frag \<le> 1 \<and>
           m = tail_String (last_lines (map dropCR (ls @ frag)))))"

lemma tail_inv_step:
  assumes "tail_inv out s" and "tail_step s t"
  shows "tail_inv out t"
proof -
  obtain ls frag where out: "output_lines ls frag @ tl_buf s @ tl_out s = out" "length frag \<le> 1"
    "frag \<noteq> [] \<Longrightarrow> tl_waited s \<and> tl_buf s = []" and lines: "tl_lines s = last_lines (map dropCR (ls @ frag))"
    using assms(1) unfolding tail_inv_def by blast
  have said: "\<exists>ls frag. prefix (output_lines ls frag) out \<and> length frag \<le> 1 \<and>
      m = tail_String (last_lines (map dropCR (ls @ frag)))" if "tl_said s = Some m" for m
    using assms(1) that unfolding tail_inv_def by blast
  show ?thesis
    using assms(2)
  proof (cases rule: tail_step.cases)
    case (reads piece rest)
    then show ?thesis using out lines said unfolding tail_inv_def by (intro conjI exI [of _ ls] exI [of _ frag]) auto
  next
    case (scans l rest)
    then have "frag = []" using out(3) by auto
    then show ?thesis
      using scans out lines said tail_add_last_lines [of "map dropCR ls" "dropCR l"] unfolding tail_inv_def
      by (intro conjI exI [of _ "ls @ [l]"] exI [of _ "[]"]) (auto simp: output_lines_def)
  next
    case scans_rest
    then have "frag = []" using out(3) by auto
    then show ?thesis
      using scans_rest out lines said tail_add_last_lines [of "map dropCR ls" "dropCR (tl_buf s)"] unfolding tail_inv_def
      by (intro conjI exI [of _ ls] exI [of _ "[tl_buf s]"]) (auto simp: output_lines_def)
  next
    case waits
    then show ?thesis using out lines said unfolding tail_inv_def by (intro conjI exI [of _ ls] exI [of _ frag]) auto
  next
    case says
    have "prefix (output_lines ls frag) out" using out(1) by (auto simp: prefix_def)
    then show ?thesis using says out lines unfolding tail_inv_def by simp blast
  qed
qed

interpretation tails: inductive_invariant "\<lambda>s. s = newTailBuffer out" tail_step "tail_inv out" for out
proof unfold_locales
  show "tail_inv out s" if "s = newTailBuffer out" for s
    unfolding tail_inv_def that
    by (intro conjI exI [of _ "[]"]) (simp_all add: output_lines_def newTailBuffer_def)
qed (erule (1) tail_inv_step)

text \<open>What a failure quotes of the engine's error output: the last twenty lines, at most, of a beginning of
  it. How long a beginning is up to the scheduler, because \<^verbatim>\<open>run\<close> calls \<^verbatim>\<open>cmd.Wait\<close> without waiting for
  the goroutine that reads the pipe: whatever the engine wrote, the failure may quote nothing.\<close>

theorem engine_words:
  assumes "reachable (\<lambda>s. s = newTailBuffer out) tail_step s"
  shows "length (tl_lines s) \<le> 20 \<and>
    (\<forall>m. tl_said s = Some m \<longrightarrow>
       (\<exists>ls frag. prefix (output_lines ls frag) out \<and> length frag \<le> 1 \<and>
          m = tail_String (last_lines (map dropCR (ls @ frag))))) \<and>
    (\<exists>t. reachable (\<lambda>s. s = newTailBuffer out) tail_step t \<and> tl_said t = Some [])"
proof (intro conjI)
  have inv: "tail_inv out s" by (rule tails.reachable_inv [OF assms])
  then show "length (tl_lines s) \<le> 20" by (auto simp: tail_inv_def last_lines_def stderrTailLines_def)
  show "\<forall>m. tl_said s = Some m \<longrightarrow> (\<exists>ls frag. prefix (output_lines ls frag) out \<and> length frag \<le> 1 \<and>
      m = tail_String (last_lines (map dropCR (ls @ frag))))"
    using inv unfolding tail_inv_def by blast
  let ?s = "newTailBuffer out" and ?w = "newTailBuffer out\<lparr>tl_waited := True\<rparr>"
  have "reachable (\<lambda>s. s = ?s) tail_step ?s" by (rule reach_init) simp
  moreover have "tail_step ?s ?w" by (rule waits) (simp add: newTailBuffer_def)
  ultimately have "reachable (\<lambda>s. s = ?s) tail_step ?w" by (rule reach_step)
  moreover have "tail_step ?w (?w\<lparr>tl_said := Some (tail_String (tl_lines ?w))\<rparr>)"
    by (rule says) (simp_all add: newTailBuffer_def)
  ultimately have "reachable (\<lambda>s. s = ?s) tail_step (?w\<lparr>tl_said := Some (tail_String (tl_lines ?w))\<rparr>)" by (rule reach_step)
  then show "\<exists>t. reachable (\<lambda>s. s = newTailBuffer out) tail_step t \<and> tl_said t = Some []"
    by (intro exI conjI) (assumption, simp add: newTailBuffer_def)
qed

theorem engine_words_witness:
  "\<exists>t. reachable (\<lambda>s. s = newTailBuffer ''out of memory'') tail_step t \<and> tl_said t = Some []"
  by (rule engine_words [THEN conjunct2, THEN conjunct2]) (rule reach_init, rule refl)

end
